(* ===== verification/Prelude.thy ===== *)
theory Prelude
  imports Complex_Main "HOL-Library.Word"
begin

text \<open>
  Shared vocabulary of the development.

  \<^item> JavaScript strings are sequences of UTF-16 code units: \<open>jsstring\<close> is a list of
    16-bit words. The string literals of \<^verbatim>\<open>src/server.js\<close> are all ASCII; \<open>lit\<close> turns a
    HOL string into the code units of the same literal. \<open>lit\<close> is injective, so
    comparing two literals is comparing two HOL strings.
  \<^item> A computation that may throw is a value of a sum type, \<open>Inl\<close> the exception.
    \<open>and_then\<close> sequences two such computations; the first exception wins, as in
    JavaScript's left-to-right evaluation.
  \<^item> The collections \<open>js_defs\<close> (unfolding rules of the operators of the JavaScript
    fragment) and \<open>handler_defs\<close> (unfolding rules of the route handlers) carry the
    evaluation of closed instances.
\<close>

named_theorems js_defs "definitions of the operators of the JavaScript fragment"
named_theorems handler_defs "definitions of the route handlers and their stages"

type_synonym code_unit = "16 word"
type_synonym jsstring = "code_unit list"
type_synonym octet = "8 word"

definition lit :: "string \<Rightarrow> jsstring" where
  "lit s = map of_char s"

definition digit_char :: "nat \<Rightarrow> code_unit" where
  "digit_char d = of_nat (48 + d)"

definition and_then :: "'e + 'a \<Rightarrow> ('a \<Rightarrow> 'e + 'b) \<Rightarrow> 'e + 'b" where
  "and_then r f = (case r of Inl e \<Rightarrow> Inl e | Inr x \<Rightarrow> f x)"

definition keep_defined :: "('v \<Rightarrow> 'w option) \<Rightarrow> ('k \<times> 'v) list \<Rightarrow> ('k \<times> 'w) list" where
  "keep_defined h kvs =
     concat (map (\<lambda>(k, v). case h v of None \<Rightarrow> [] | Some w \<Rightarrow> [(k, w)]) kvs)"

subsection \<open>Literals\<close>

lemma lit_Nil [simp]: "lit [] = []"
  by (simp add: lit_def)

lemma lit_Cons: "lit (c # s) = of_char c # lit s"
  by (simp add: lit_def)

lemma lit_append [simp]: "lit (a @ b) = lit a @ lit b"
  by (simp add: lit_def)

lemma length_lit [simp]: "length (lit s) = length s"
  by (simp add: lit_def)

lemma lit_eq_Nil [simp]: "lit s = [] \<longleftrightarrow> s = []"
  by (simp add: lit_def)

lemma unat_of_char: "unat (of_char c :: code_unit) = of_char c"
proof -
  have "(of_char c :: nat) < 256"
    by (rule nat_of_char_less_256)
  then have "(of_char c :: nat) < 65536"
    by linarith
  then have "(of_char c :: nat) < 2 ^ LENGTH(16)"
    by simp
  then have "unat (of_nat (of_char c) :: code_unit) = of_char c"
    by (simp add: unat_of_nat)
  then show ?thesis
    by (simp add: of_nat_of_char)
qed

lemma of_char_word_inj [simp]:
  "(of_char c :: code_unit) = of_char d \<longleftrightarrow> c = d"
  by (metis unat_of_char of_char_eq_iff)

lemma lit_inj [simp]: "lit a = lit b \<longleftrightarrow> a = b"
  by (simp add: lit_def inj_def)

subsection \<open>Code units and octets as numbers\<close>

lemma unat_octet_less: "unat (b :: octet) < 256"
  using unsigned_less [of b, where 'a = nat] by simp

lemma unat_code_unit_less: "unat (c :: code_unit) < 65536"
  using unsigned_less [of c, where 'a = nat] by simp

lemma unat_of_nat_octet: "n < 256 \<Longrightarrow> unat (of_nat n :: octet) = n"
  by (simp add: unat_of_nat)

lemma unat_of_nat_code_unit: "n < 65536 \<Longrightarrow> unat (of_nat n :: code_unit) = n"
  by (simp add: unat_of_nat)

lemma unat_digit_char: "d < 10 \<Longrightarrow> unat (digit_char d) = 48 + d"
  unfolding digit_char_def by (rule unat_of_nat_code_unit) simp

lemma digit_char_inj: "d < 10 \<Longrightarrow> e < 10 \<Longrightarrow> digit_char d = digit_char e \<longleftrightarrow> d = e"
  by (metis unat_digit_char add_left_cancel)

subsection \<open>Sequencing of computations that may throw\<close>

lemma and_then_Inl [simp]: "and_then (Inl e) f = Inl e"
  by (simp add: and_then_def)

lemma and_then_Inr [simp]: "and_then (Inr x) f = f x"
  by (simp add: and_then_def)

lemma and_then_eq_Inr_iff:
  "and_then r f = Inr y \<longleftrightarrow> (\<exists>x. r = Inr x \<and> f x = Inr y)"
  by (cases r) simp_all

lemma and_then_eq_Inl_iff:
  "and_then r f = Inl e \<longleftrightarrow> r = Inl e \<or> (\<exists>x. r = Inr x \<and> f x = Inl e)"
  by (cases r) simp_all

lemma and_then_assoc:
  "and_then (and_then r f) g = and_then r (\<lambda>x. and_then (f x) g)"
  by (cases r) simp_all

subsection \<open>Association lists with optional values\<close>

text \<open>
  \<open>keep_defined h kvs\<close> applies \<open>h\<close> to the value of every entry and drops the entries
  where it is \<open>None\<close>, keeping the order. The congruence rule lets a recursive function
  pass itself as \<open>h\<close>.
\<close>

lemma keep_defined_cong [fundef_cong]:
  "kvs = kvs' \<Longrightarrow> (\<And>k v. (k, v) \<in> set kvs' \<Longrightarrow> h v = h' v) \<Longrightarrow>
   keep_defined h kvs = keep_defined h' kvs'"
  unfolding keep_defined_def by (auto intro!: arg_cong [where f = concat] map_cong)

lemma keep_defined_Nil [simp]: "keep_defined h [] = []"
  by (simp add: keep_defined_def)

lemma keep_defined_Cons [simp]:
  "keep_defined h ((k, v) # kvs) =
     (case h v of None \<Rightarrow> keep_defined h kvs | Some w \<Rightarrow> (k, w) # keep_defined h kvs)"
  by (simp add: keep_defined_def split: option.split)

lemma keep_defined_append [simp]:
  "keep_defined h (xs @ ys) = keep_defined h xs @ keep_defined h ys"
  by (simp add: keep_defined_def)

lemma set_keep_defined:
  "set (keep_defined h kvs) = {(k, w). \<exists>v. (k, v) \<in> set kvs \<and> h v = Some w}"
  by (induction kvs) (auto split: option.splits)

lemma fst_set_keep_defined: "fst ` set (keep_defined h kvs) \<subseteq> fst ` set kvs"
  by (force simp: set_keep_defined)

lemma distinct_keep_defined:
  "distinct (map fst kvs) \<Longrightarrow> distinct (map fst (keep_defined h kvs))"
proof (induction kvs)
  case Nil
  then show ?case by simp
next
  case (Cons kv kvs)
  obtain k v where kv: "kv = (k, v)" by (cases kv)
  from Cons.prems kv have "k \<notin> fst ` set (keep_defined h kvs)"
    using fst_set_keep_defined [of h kvs] by auto
  with Cons kv show ?case by (simp split: option.split)
qed

lemma keep_defined_id:
  assumes "\<forall>(k, v) \<in> set kvs. h v = Some v"
  shows "keep_defined h kvs = kvs"
  using assms by (induction kvs) auto

lemma map_of_keep_defined:
  "distinct (map fst kvs) \<Longrightarrow>
   map_of (keep_defined h kvs) k = Option.bind (map_of kvs k) h"
proof (induction kvs)
  case Nil
  then show ?case by simp
next
  case (Cons kv kvs)
  obtain k' v where kv: "kv = (k', v)" by (cases kv)
  have absent: "map_of (keep_defined h kvs) k' = None" if "k' \<notin> fst ` set kvs"
    using that fst_set_keep_defined [of h kvs] by (auto simp: map_of_eq_None_iff)
  from Cons kv absent show ?case
    by (auto split: option.split)
qed

end
