(* ===== verification/Js_Value.thy ===== *)
theory Js_Value
  imports Prelude
begin

text \<open>
  The values and operators of the JavaScript fragment that \<^verbatim>\<open>src/server.js\<close> uses on
  the parsed upstream payload and on the objects it builds.

  \<^item> \<open>jsval\<close>: the values \<^verbatim>\<open>JSON.parse\<close> returns, and \<^verbatim>\<open>undefined\<close>. Objects are
    association lists in property order. Numbers are \<open>jsnum\<close>: an exact rational or one
    of the three non-finite doubles; the handlers do no arithmetic on payload numbers,
    they only test them for truthiness and pass them on.
  \<^item> \<open>js_error\<close>: what the handlers can throw, by cause.
  \<^item> \<open>truthy\<close> is \<^verbatim>\<open>ToBoolean\<close>, \<open>js_or\<close> is \<^verbatim>\<open>||\<close>, \<open>get_prop\<close> is \<^verbatim>\<open>v.k\<close> and
    \<open>opt_prop\<close> is \<^verbatim>\<open>v?.k\<close>. \<open>member\<close> is the property read on a value that is not
    \<^verbatim>\<open>null\<close> or \<^verbatim>\<open>undefined\<close>, for keys that no built-in prototype defines; every key
    the source reads is of that kind.
  \<^item> \<open>stringify\<close> is the JSON value that \<^verbatim>\<open>JSON.stringify\<close> writes for a value
    (\<open>None\<close> where it writes nothing), as \<^verbatim>\<open>res.json\<close> sends it.
  \<^item> \<open>parsed\<close> characterises the results of \<^verbatim>\<open>JSON.parse\<close>, \<open>json_value\<close> the values
    that \<open>stringify\<close> leaves unchanged, \<open>distinct_keys\<close> the objects JavaScript can hold.
\<close>

datatype jsnum = Fin rat | PosInf | NegInf | NaN

datatype jsval =
    JUndefined
  | JNull
  | JBool bool
  | JNum jsnum
  | JStr jsstring
  | JArr "jsval list"
  | JObj "(jsstring \<times> jsval) list"

datatype js_error =
    ReadOfNull jsstring
  | ReadOfUndefined jsstring
  | NotAFunction jsstring
  | URIMalformed
  | Rejected jsstring

fun truthy :: "jsval \<Rightarrow> bool" where
  "truthy JUndefined = False"
| "truthy JNull = False"
| "truthy (JBool b) = b"
| "truthy (JNum n) = (n \<noteq> Fin 0 \<and> n \<noteq> NaN)"
| "truthy (JStr s) = (s \<noteq> [])"
| "truthy (JArr xs) = True"
| "truthy (JObj kvs) = True"

definition js_or :: "jsval \<Rightarrow> jsval \<Rightarrow> jsval" where
  "js_or a b = (if truthy a then a else b)"

definition nullish :: "jsval \<Rightarrow> bool" where
  "nullish v \<longleftrightarrow> v = JUndefined \<or> v = JNull"

definition is_digit :: "code_unit \<Rightarrow> bool" where
  "is_digit c \<longleftrightarrow> 48 \<le> c \<and> c \<le> 57"

definition dec_value :: "jsstring \<Rightarrow> nat" where
  "dec_value s = foldl (\<lambda>n c. 10 * n + (unat c - 48)) 0 s"

definition index_of_key :: "jsstring \<Rightarrow> nat option" where
  "index_of_key k =
     (if k \<noteq> [] \<and> list_all is_digit k \<and> (hd k \<noteq> 48 \<or> length k = 1)
      then Some (dec_value k) else None)"

fun member :: "jsval \<Rightarrow> jsstring \<Rightarrow> jsval" where
  "member (JObj kvs) k = (case map_of kvs k of Some v \<Rightarrow> v | None \<Rightarrow> JUndefined)"
| "member (JArr xs) k =
     (case index_of_key k of
        Some i \<Rightarrow> if i < length xs then xs ! i else JUndefined
      | None \<Rightarrow> if k = lit ''length'' then JNum (Fin (of_nat (length xs))) else JUndefined)"
| "member (JStr s) k =
     (case index_of_key k of
        Some i \<Rightarrow> if i < length s then JStr [s ! i] else JUndefined
      | None \<Rightarrow> if k = lit ''length'' then JNum (Fin (of_nat (length s))) else JUndefined)"
| "member v k = JUndefined"

definition get_prop :: "jsval \<Rightarrow> jsstring \<Rightarrow> js_error + jsval" where
  "get_prop v k =
     (case v of
        JNull \<Rightarrow> Inl (ReadOfNull k)
      | JUndefined \<Rightarrow> Inl (ReadOfUndefined k)
      | _ \<Rightarrow> Inr (member v k))"

definition opt_prop :: "jsval \<Rightarrow> jsstring \<Rightarrow> jsval" where
  "opt_prop v k = (if nullish v then JUndefined else member v k)"

definition is_string :: "jsval \<Rightarrow> jsstring \<Rightarrow> bool" where
  "is_string v s \<longleftrightarrow> v = JStr s"

fun stringify :: "jsval \<Rightarrow> jsval option" where
  "stringify JUndefined = None"
| "stringify JNull = Some JNull"
| "stringify (JBool b) = Some (JBool b)"
| "stringify (JNum n) = Some (case n of Fin q \<Rightarrow> JNum (Fin q) | _ \<Rightarrow> JNull)"
| "stringify (JStr s) = Some (JStr s)"
| "stringify (JArr xs) =
     Some (JArr (map (\<lambda>x. case stringify x of None \<Rightarrow> JNull | Some y \<Rightarrow> y) xs))"
| "stringify (JObj kvs) =
     Some (JObj (keep_defined stringify kvs))"

fun distinct_keys :: "jsval \<Rightarrow> bool" where
  "distinct_keys (JArr xs) = list_all distinct_keys xs"
| "distinct_keys (JObj kvs) = (distinct (map fst kvs) \<and> list_all (\<lambda>(k, v). distinct_keys v) kvs)"
| "distinct_keys v = True"

fun parsed :: "jsval \<Rightarrow> bool" where
  "parsed JUndefined = False"
| "parsed (JNum n) = (n \<noteq> NaN)"
| "parsed (JArr xs) = list_all parsed xs"
| "parsed (JObj kvs) = (distinct (map fst kvs) \<and> list_all (\<lambda>(k, v). parsed v) kvs)"
| "parsed v = True"

fun json_value :: "jsval \<Rightarrow> bool" where
  "json_value JUndefined = False"
| "json_value (JNum n) = (case n of Fin q \<Rightarrow> True | _ \<Rightarrow> False)"
| "json_value (JArr xs) = list_all json_value xs"
| "json_value (JObj kvs) = (distinct (map fst kvs) \<and> list_all (\<lambda>(k, v). json_value v) kvs)"
| "json_value v = True"

lemmas value_defs [js_defs] =
  js_or_def nullish_def get_prop_def opt_prop_def is_string_def index_of_key_def dec_value_def
  is_digit_def

subsection \<open>Truthiness and \<^verbatim>\<open>||\<close>\<close>

lemma js_or_truthy [simp]: "truthy a \<Longrightarrow> js_or a b = a"
  by (simp add: js_or_def)

lemma js_or_falsy [simp]: "\<not> truthy a \<Longrightarrow> js_or a b = b"
  by (simp add: js_or_def)

lemma truthy_js_or [simp]: "truthy (js_or a b) \<longleftrightarrow> truthy a \<or> truthy b"
  by (simp add: js_or_def)

lemma js_or_assoc: "js_or (js_or a b) c = js_or a (js_or b c)"
  by (simp add: js_or_def)

lemma js_or_cases: "js_or a b = a \<or> js_or a b = b"
  by (simp add: js_or_def)

lemma nullish_simps [simp]:
  "nullish JUndefined" "nullish JNull" "\<not> nullish (JBool b)" "\<not> nullish (JNum n)"
  "\<not> nullish (JStr s)" "\<not> nullish (JArr xs)" "\<not> nullish (JObj kvs)"
  by (simp_all add: nullish_def)

lemma nullish_not_truthy: "nullish v \<Longrightarrow> \<not> truthy v"
  by (auto simp: nullish_def)

lemma truthy_not_nullish: "truthy v \<Longrightarrow> \<not> nullish v"
  by (auto simp: nullish_def)

lemma not_nullish_js_or [simp]: "\<not> nullish b \<Longrightarrow> \<not> nullish (js_or a b)"
  by (auto simp: js_or_def truthy_not_nullish)

subsection \<open>Property reads\<close>

lemma member_nullish [simp]: "nullish v \<Longrightarrow> member v k = JUndefined"
  by (auto simp: nullish_def)

lemma member_JObj_Nil [simp]: "member (JObj []) k = JUndefined"
  by simp

lemma get_prop_simps [simp]:
  "get_prop JNull k = Inl (ReadOfNull k)"
  "get_prop JUndefined k = Inl (ReadOfUndefined k)"
  "get_prop (JBool b) k = Inr JUndefined"
  "get_prop (JNum n) k = Inr JUndefined"
  "get_prop (JStr s) k = Inr (member (JStr s) k)"
  "get_prop (JArr xs) k = Inr (member (JArr xs) k)"
  "get_prop (JObj kvs) k = Inr (member (JObj kvs) k)"
  by (simp_all add: get_prop_def)

lemma get_prop_not_nullish: "\<not> nullish v \<Longrightarrow> get_prop v k = Inr (member v k)"
  by (cases v) simp_all

lemma get_prop_eq_Inr_iff: "get_prop v k = Inr w \<longleftrightarrow> \<not> nullish v \<and> w = member v k"
  by (cases v) auto

lemma get_prop_eq_Inl_iff:
  "get_prop v k = Inl e \<longleftrightarrow>
     (v = JNull \<and> e = ReadOfNull k) \<or> (v = JUndefined \<and> e = ReadOfUndefined k)"
  by (cases v) auto

lemma opt_prop_simps [simp]:
  "opt_prop JNull k = JUndefined"
  "opt_prop JUndefined k = JUndefined"
  "\<not> nullish v \<Longrightarrow> opt_prop v k = member v k"
  by (simp_all add: opt_prop_def)

lemma opt_prop_member: "opt_prop v k = member v k"
  by (simp add: opt_prop_def)

lemma get_prop_opt_prop: "get_prop v k = Inr w \<Longrightarrow> opt_prop v k = w"
  by (simp add: get_prop_eq_Inr_iff)

lemma is_string_simps [simp]:
  "is_string (JStr s) t \<longleftrightarrow> s = t"
  "\<not> is_string JUndefined t" "\<not> is_string JNull t" "\<not> is_string (JBool b) t"
  "\<not> is_string (JNum n) t" "\<not> is_string (JArr xs) t" "\<not> is_string (JObj kvs) t"
  by (auto simp: is_string_def)

subsection \<open>What \<^verbatim>\<open>JSON.parse\<close> returns\<close>

lemma json_value_parsed: "json_value v \<Longrightarrow> parsed v"
  by (induction v rule: parsed.induct) (auto simp: list_all_iff split: jsnum.splits)

lemma parsed_distinct_keys: "parsed v \<Longrightarrow> distinct_keys v"
  by (induction v rule: parsed.induct) (auto simp: list_all_iff)

lemma parsed_map_of:
  "list_all (\<lambda>(k, v). parsed v) kvs \<Longrightarrow> map_of kvs k = Some v \<Longrightarrow> parsed v"
  by (auto simp: list_all_iff dest!: map_of_SomeD)

lemma parsed_member:
  assumes "parsed v" and "member v k \<noteq> JUndefined"
  shows "parsed (member v k)"
proof (cases v)
  case (JObj kvs)
  with assms show ?thesis
    by (auto split: option.splits intro: parsed_map_of)
next
  case (JArr xs)
  with assms show ?thesis
    by (auto simp: list_all_length split: option.splits if_splits)
next
  case (JStr s)
  with assms show ?thesis
    by (auto split: option.splits if_splits)
qed (use assms in simp_all)

lemma parsed_opt_prop:
  "parsed v \<Longrightarrow> opt_prop v k \<noteq> JUndefined \<Longrightarrow> parsed (opt_prop v k)"
  by (simp add: opt_prop_member parsed_member)

lemma parsed_not_undefined [simp]: "parsed v \<Longrightarrow> v \<noteq> JUndefined"
  by auto

lemma distinct_keys_map_of:
  "list_all (\<lambda>(k, v). distinct_keys v) kvs \<Longrightarrow> map_of kvs k = Some v \<Longrightarrow> distinct_keys v"
  by (auto simp: list_all_iff dest!: map_of_SomeD)

lemma distinct_keys_member: "distinct_keys v \<Longrightarrow> distinct_keys (member v k)"
proof (cases v)
  case (JObj kvs)
  assume "distinct_keys v"
  with JObj show ?thesis
    by (auto split: option.splits intro: distinct_keys_map_of)
next
  case (JArr xs)
  assume "distinct_keys v"
  with JArr show ?thesis
    by (auto simp: list_all_length split: option.splits)
next
  case (JStr s)
  then show ?thesis
    by (auto split: option.splits)
qed simp_all

lemma distinct_keys_js_or:
  "distinct_keys a \<Longrightarrow> distinct_keys b \<Longrightarrow> distinct_keys (js_or a b)"
  by (simp add: js_or_def)

lemma distinct_keys_opt_prop: "distinct_keys v \<Longrightarrow> distinct_keys (opt_prop v k)"
  by (simp add: opt_prop_member distinct_keys_member)

subsection \<open>What \<^verbatim>\<open>JSON.stringify\<close> writes\<close>

lemma stringify_eq_None_iff [simp]: "stringify v = None \<longleftrightarrow> v = JUndefined"
  by (cases v) simp_all

lemma stringify_json_value: "json_value v \<Longrightarrow> stringify v = Some v"
proof (induction v rule: stringify.induct)
  case (6 xs)
  then have "map (\<lambda>x. case stringify x of None \<Rightarrow> JNull | Some y \<Rightarrow> y) xs = xs"
    by (intro map_idI) (simp add: list_all_iff)
  then show ?case by simp
next
  case (7 kvs)
  then have "keep_defined stringify kvs = kvs"
    by (intro keep_defined_id) (auto simp: list_all_iff)
  then show ?case by simp
qed (auto split: jsnum.splits)

lemma json_value_stringify:
  "distinct_keys v \<Longrightarrow> stringify v = Some w \<Longrightarrow> json_value w"
proof (induction v arbitrary: w rule: stringify.induct)
  case (6 xs)
  then show ?case
    by (auto simp: list_all_iff split: option.splits)
next
  case (7 kvs)
  have "json_value b" if "(a, v) \<in> set kvs" and "stringify v = Some b" for a v b
  proof -
    from "7.prems"(1) that(1) have "distinct_keys v"
      by (auto simp: list_all_iff)
    with that show ?thesis
      by (auto intro: "7.IH")
  qed
  with "7.prems" show ?case
    by (auto simp: list_all_iff set_keep_defined distinct_keep_defined)
qed (auto split: jsnum.splits)

text \<open>
  \<^verbatim>\<open>JSON.stringify\<close> writes every value but \<^verbatim>\<open>undefined\<close>, and what it writes for a
  value whose objects have distinct keys is a value of the JSON data model: it contains
  no \<^verbatim>\<open>undefined\<close> and no non-finite number, and its objects have distinct keys.
\<close>

lemma stringify_writes_json:
  assumes "distinct_keys v" and "v \<noteq> JUndefined"
  shows "\<exists>w. stringify v = Some w \<and> json_value w"
proof -
  from assms(2) obtain w where "stringify v = Some w"
    by (cases "stringify v") simp_all
  with assms(1) show ?thesis
    by (auto dest: json_value_stringify)
qed

text \<open>
  Writing is idempotent: a value that \<^verbatim>\<open>JSON.stringify\<close> wrote is written unchanged,
  so a client that parses the body and serialises it again gets the same body.
\<close>

lemma stringify_idem: "stringify v = Some w \<Longrightarrow> stringify w = Some w"
proof (induction v arbitrary: w rule: stringify.induct)
  case (6 xs)
  have "(case stringify (case stringify x of None \<Rightarrow> JNull | Some y \<Rightarrow> y) of
           None \<Rightarrow> JNull | Some y \<Rightarrow> y) = (case stringify x of None \<Rightarrow> JNull | Some y \<Rightarrow> y)"
    if "x \<in> set xs" for x
    using "6.IH" [OF that] by (cases "stringify x") auto
  with "6.prems" show ?case by (auto simp: comp_def)
next
  case (7 kvs)
  have "keep_defined stringify (keep_defined stringify kvs) = keep_defined stringify kvs"
    by (rule keep_defined_id) (auto simp: set_keep_defined dest: "7.IH")
  with "7.prems" show ?case by auto
qed (auto split: jsnum.splits)

subsection \<open>Closed instances\<close>

definition sparse_object :: jsval where
  "sparse_object =
     JObj [(lit ''a'', JUndefined),
           (lit ''b'', JArr [JUndefined, JNum NaN, JNum (Fin (3 / 2))]),
           (lit ''c'', JNum PosInf)]"

definition dense_object :: jsval where
  "dense_object =
     JObj [(lit ''b'', JArr [JNull, JNull, JNum (Fin (3 / 2))]), (lit ''c'', JNull)]"

lemma stringify_sparse: "stringify sparse_object = Some dense_object"
  by (simp add: sparse_object_def dense_object_def)

lemma stringify_writes_json_witness: "json_value dense_object"
proof -
  have "distinct_keys sparse_object" "sparse_object \<noteq> JUndefined"
    by (simp_all add: sparse_object_def)
  from stringify_writes_json [OF this] show ?thesis
    by (simp add: stringify_sparse)
qed

lemma stringify_idem_witness: "stringify dense_object = Some dense_object"
  using stringify_idem [OF stringify_sparse] .

end
