(* ===== verification/Js_Number.thy ===== *)
theory Js_Number
  imports Js_Value "HOL-Library.Log_Nat"
begin

text \<open>
  The conversions \<^verbatim>\<open>slice\<close> applies to its arguments (\<^verbatim>\<open>src/server.js\<close>, line 99, where the
  second argument is the \<^verbatim>\<open>limit\<close> of the query string).

  \<^item> \<open>string_to_number\<close> is \<^verbatim>\<open>StringToNumber\<close> of ECMA-262: white space and line
    terminators are trimmed, the empty string is 0, \<^verbatim>\<open>0x\<close>, \<^verbatim>\<open>0o\<close> and \<^verbatim>\<open>0b\<close> introduce
    unsigned integers in base 16, 8 and 2, \<^verbatim>\<open>Infinity\<close> may carry a sign, a decimal
    literal has an optional sign, fraction and exponent, and everything else is \<^verbatim>\<open>NaN\<close>.
  \<^item> \<open>round_double\<close> maps the exact rational value of a literal to the nearest IEEE 754
    double, ties to the even significand: the unit in the last place is
    \<open>2\<^bsup>e - 52\<^esup>\<close> for the binary exponent \<open>e\<close> of the value, at least \<open>-1022\<close>; a
    result of \<open>2\<^bsup>1024\<^esup>\<close> or more is an infinity. The zero has no sign in \<open>jsnum\<close>.
  \<^item> \<open>to_integer_or_infinity\<close> is \<^verbatim>\<open>ToIntegerOrInfinity\<close>: \<^verbatim>\<open>NaN\<close> is 0, a finite number is
    truncated towards zero. Its results are the extended integers \<open>ext_int\<close>, a linear
    order with the two infinities at its ends.
  \<^item> \<open>numeric_char\<close> is the alphabet of numeric literals.

  The lemmas show that integers of magnitude below \<open>2\<^sup>5\<^sup>3\<close> are not changed by rounding,
  that rounding is to a nearest double and fixes every double, that a string of decimal
  digits, with or without a minus sign, converts to the number it denotes, that a string
  with a character outside the alphabet converts to \<^verbatim>\<open>NaN\<close>, and that truncation is
  monotone.
\<close>

datatype ext_int = Finite int | PlusInf | MinusInf

instantiation ext_int :: linorder
begin

fun less_eq_ext_int :: "ext_int \<Rightarrow> ext_int \<Rightarrow> bool" where
  "less_eq_ext_int MinusInf y = True"
| "less_eq_ext_int x PlusInf = True"
| "less_eq_ext_int (Finite i) (Finite j) = (i \<le> j)"
| "less_eq_ext_int x y = False"

definition less_ext_int :: "ext_int \<Rightarrow> ext_int \<Rightarrow> bool" where
  "less_ext_int x y \<longleftrightarrow> x \<le> y \<and> \<not> y \<le> x"

instance
proof
  fix x y z :: ext_int
  show "x < y \<longleftrightarrow> x \<le> y \<and> \<not> y \<le> x"
    by (rule less_ext_int_def)
  show "x \<le> x"
    by (cases x) simp_all
  show "x \<le> y \<Longrightarrow> y \<le> z \<Longrightarrow> x \<le> z"
    by (cases x; cases y; cases z) simp_all
  show "x \<le> y \<Longrightarrow> y \<le> x \<Longrightarrow> x = y"
    by (cases x; cases y) simp_all
  show "x \<le> y \<or> y \<le> x"
    by (cases x; cases y) auto
qed

end

definition pow2 :: "int \<Rightarrow> rat" where
  "pow2 k = (if 0 \<le> k then 2 ^ nat k else 1 / 2 ^ nat (- k))"

definition pow10 :: "int \<Rightarrow> rat" where
  "pow10 k = (if 0 \<le> k then 10 ^ nat k else 1 / 10 ^ nat (- k))"

definition floor_log2 :: "rat \<Rightarrow> int" where
  "floor_log2 m = (if 1 \<le> m then bitlen \<lfloor>m\<rfloor> - 1 else - bitlen (\<lceil>1 / m\<rceil> - 1))"

definition round_half_even :: "rat \<Rightarrow> int" where
  "round_half_even x =
     (let f = \<lfloor>x\<rfloor>; d = x - of_int f
      in if d < 1 / 2 then f else if 1 / 2 < d then f + 1 else if even f then f else f + 1)"

definition round_double :: "rat \<Rightarrow> jsnum" where
  "round_double q =
     (if q = 0 then Fin 0
      else
        let m = \<bar>q\<bar>;
            e = max (floor_log2 m) (- 1022);
            ulp = pow2 (e - 52);
            r = of_int (round_half_even (m / ulp)) * ulp
        in if pow2 1024 \<le> r then (if 0 < q then PosInf else NegInf)
           else Fin (sgn q * r))"

definition is_space :: "code_unit \<Rightarrow> bool" where
  "is_space c \<longleftrightarrow>
     c \<in> {0x9, 0xA, 0xB, 0xC, 0xD, 0x20, 0xA0, 0x1680, 0x2028, 0x2029, 0x202F, 0x205F,
          0x3000, 0xFEFF} \<or>
     (0x2000 \<le> c \<and> c \<le> 0x200A)"

definition trim_spaces :: "jsstring \<Rightarrow> jsstring" where
  "trim_spaces s = rev (dropWhile is_space (rev (dropWhile is_space s)))"

definition digit_in :: "nat \<Rightarrow> code_unit \<Rightarrow> nat option" where
  "digit_in radix c =
     (let v = (if 48 \<le> c \<and> c \<le> 57 then unat c - 48
               else if 97 \<le> c \<and> c \<le> 102 then unat c - 87
               else if 65 \<le> c \<and> c \<le> 70 then unat c - 55
               else radix)
      in if v < radix then Some v else None)"

definition radix_value :: "nat \<Rightarrow> jsstring \<Rightarrow> rat option" where
  "radix_value radix ds =
     (if ds \<noteq> [] \<and> list_all (\<lambda>c. digit_in radix c \<noteq> None) ds
      then Some (of_nat (foldl (\<lambda>n c. radix * n + the (digit_in radix c)) 0 ds))
      else None)"

definition non_decimal :: "jsstring \<Rightarrow> rat option" where
  "non_decimal t =
     (case t of
        z # x # ds \<Rightarrow>
          if z \<noteq> 48 then None
          else if x = 120 \<or> x = 88 then radix_value 16 ds
          else if x = 111 \<or> x = 79 then radix_value 8 ds
          else if x = 98 \<or> x = 66 then radix_value 2 ds
          else None
      | _ \<Rightarrow> None)"

definition signed_integer :: "jsstring \<Rightarrow> int option" where
  "signed_integer t =
     (let neg = (t \<noteq> [] \<and> hd t = 45);
          ds = (if t \<noteq> [] \<and> (hd t = 43 \<or> hd t = 45) then tl t else t)
      in if ds \<noteq> [] \<and> list_all is_digit ds
         then Some (if neg then - int (dec_value ds) else int (dec_value ds))
         else None)"

definition exponent_part :: "jsstring \<Rightarrow> int option" where
  "exponent_part r =
     (case r of
        [] \<Rightarrow> Some 0
      | c # t \<Rightarrow> if c = 101 \<or> c = 69 then signed_integer t else None)"

definition unsigned_decimal :: "jsstring \<Rightarrow> rat option" where
  "unsigned_decimal u =
     (let whole = takeWhile is_digit u;
          r1 = dropWhile is_digit u;
          dotted = (r1 \<noteq> [] \<and> hd r1 = 46);
          frac = (if dotted then takeWhile is_digit (tl r1) else []);
          r2 = (if dotted then dropWhile is_digit (tl r1) else r1)
      in if whole = [] \<and> frac = [] then None
         else case exponent_part r2 of
                None \<Rightarrow> None
              | Some e \<Rightarrow>
                  Some ((of_nat (dec_value whole) + of_nat (dec_value frac) / 10 ^ length frac)
                        * pow10 e))"

definition string_to_number :: "jsstring \<Rightarrow> jsnum" where
  "string_to_number s =
     (let t = trim_spaces s in
      if t = [] then Fin 0
      else case non_decimal t of
             Some q \<Rightarrow> round_double q
           | None \<Rightarrow>
               (let neg = (hd t = 45);
                    u = (if hd t = 43 \<or> hd t = 45 then tl t else t)
                in if u = lit ''Infinity'' then (if neg then NegInf else PosInf)
                   else (case unsigned_decimal u of
                           None \<Rightarrow> NaN
                         | Some q \<Rightarrow> round_double (if neg then - q else q))))"

definition to_integer_or_infinity :: "jsnum \<Rightarrow> ext_int" where
  "to_integer_or_infinity n =
     (case n of
        NaN \<Rightarrow> Finite 0
      | PosInf \<Rightarrow> PlusInf
      | NegInf \<Rightarrow> MinusInf
      | Fin q \<Rightarrow> Finite (if 0 \<le> q then \<lfloor>q\<rfloor> else \<lceil>q\<rceil>))"


definition numeric_char :: "code_unit \<Rightarrow> bool" where
  "numeric_char c \<longleftrightarrow>
     is_space c \<or> is_digit c \<or> c \<in> set (lit ''+-.eExXoObBabcdfACDFInity'')"

lemmas number_defs [js_defs] =
  pow2_def pow10_def floor_log2_def round_half_even_def round_double_def is_space_def
  trim_spaces_def digit_in_def radix_value_def non_decimal_def signed_integer_def
  exponent_part_def unsigned_decimal_def string_to_number_def to_integer_or_infinity_def

lemma round_half_even_of_int [simp]: "round_half_even (of_int k) = k"
  by (simp add: round_half_even_def)

lemma floor_log2_of_int: "0 < k \<Longrightarrow> floor_log2 (of_int k) = bitlen k - 1"
  by (simp add: floor_log2_def)

lemma pow2_neg: "j \<le> 0 \<Longrightarrow> pow2 j = 1 / 2 ^ nat (- j)"
  by (simp add: pow2_def)

lemma bitlen_below: "0 < k \<Longrightarrow> k < 2 ^ n \<Longrightarrow> 1 \<le> bitlen k \<and> bitlen k \<le> int n"
  using bitlen_le_iff_power [of k "int n"] bitlen_ge_iff_power [of 1 k] by simp

lemma round_double_pos_int:
  assumes "0 < k" "k < 2 ^ 53"
  shows "round_double (of_int k) = Fin (of_int k)"
proof -
  define j where "j = nat (53 - bitlen k)"
  from assms have b: "1 \<le> bitlen k" "bitlen k \<le> 53"
    using bitlen_below [of k 53] by simp_all
  then have e: "max (floor_log2 (of_int k)) (- 1022) - 52 = - int j"
    using assms by (simp add: floor_log2_of_int j_def)
  have "(of_int k :: rat) / pow2 (- int j) = of_int (k * 2 ^ j)"
    by (simp add: pow2_neg)
  then have "round_half_even (of_int k / pow2 (- int j)) = k * 2 ^ j"
    by (simp only: round_half_even_of_int)
  then have r: "of_int (round_half_even (of_int k / pow2 (- int j))) * pow2 (- int j) = (of_int k :: rat)"
    by (simp add: pow2_neg)
  have "(of_int k :: rat) < of_int (2 ^ 53)"
    using assms by (simp only: of_int_less_iff)
  then have "(of_int k :: rat) < pow2 1024"
    by (simp add: pow2_def)
  with assms r e show ?thesis
    by (simp add: round_double_def Let_def)
qed

lemma round_double_zero [simp]: "round_double 0 = Fin 0"
  by (simp add: round_double_def)

lemma round_double_minus: "round_double (- q) = (case round_double q of Fin r \<Rightarrow> Fin (- r) | PosInf \<Rightarrow> NegInf | NegInf \<Rightarrow> PosInf | NaN \<Rightarrow> NaN)"
  by (simp add: round_double_def Let_def sgn_if)

lemma round_double_int:
  assumes "\<bar>k\<bar> < 2 ^ 53"
  shows "round_double (of_int k) = Fin (of_int k)"
proof -
  consider "k = 0" | "0 < k" | "0 < - k" by linarith
  then show ?thesis
  proof cases
    case 1
    then show ?thesis by simp
  next
    case 2
    with assms show ?thesis by (simp add: round_double_pos_int)
  next
    case 3
    with assms have "round_double (of_int (- k)) = Fin (of_int (- k))"
      by (intro round_double_pos_int) simp_all
    then show ?thesis
      using round_double_minus [of "of_int (- k)"] by simp
  qed
qed

lemma round_double_nat: "n < 2 ^ 53 \<Longrightarrow> round_double (of_nat n) = Fin (of_nat n)"
  using round_double_int [of "int n"] by simp

subsection \<open>The binary exponent\<close>

lemma pow2_powi: "pow2 k = 2 powi k"
  by (simp add: pow2_def power_int_def inverse_eq_divide power_one_over)

lemma pow2_pos [simp]: "0 < pow2 k"
  by (simp add: pow2_powi)

lemma pow2_neq_0 [simp]: "pow2 k \<noteq> 0"
  by (rule not_sym [OF less_imp_neq [OF pow2_pos]])

lemma pow2_53: "pow2 53 = 2 ^ 53"
  by (simp add: pow2_def)

lemma pow2_add: "pow2 (a + b) = pow2 a * pow2 b"
  by (simp add: pow2_powi power_int_add)

lemma pow2_nat [simp]: "pow2 (int n) = 2 ^ n"
  by (simp add: pow2_def)

lemma pow2_less_iff [simp]: "pow2 a < pow2 b \<longleftrightarrow> a < b"
proof
  assume "pow2 a < pow2 b"
  show "a < b"
  proof (rule ccontr)
    assume "\<not> a < b"
    then have "(2 :: rat) powi b \<le> 2 powi a"
      by (intro power_int_increasing) simp_all
    with \<open>pow2 a < pow2 b\<close> show False
      by (simp add: pow2_powi)
  qed
next
  assume "a < b"
  then show "pow2 a < pow2 b"
    unfolding pow2_powi by (intro power_int_strict_increasing) simp_all
qed

lemma pow2_le_iff [simp]: "pow2 a \<le> pow2 b \<longleftrightarrow> a \<le> b"
  using pow2_less_iff [of b a] by (simp only: not_less [symmetric])

lemma floor_log2_lower: "0 < m \<Longrightarrow> pow2 (floor_log2 m) \<le> m"
proof (cases "1 \<le> m")
  case True
  then have k: "0 < \<lfloor>m\<rfloor>" by simp
  then have "1 \<le> bitlen \<lfloor>m\<rfloor>"
    using bitlen_ge_iff_power [of 1 "\<lfloor>m\<rfloor>"] by simp
  moreover from bitlen_bounds [OF k] have "(2 :: int) ^ nat (bitlen \<lfloor>m\<rfloor> - 1) \<le> \<lfloor>m\<rfloor>"
    by simp
  then have "(of_int (2 ^ nat (bitlen \<lfloor>m\<rfloor> - 1)) :: rat) \<le> of_int \<lfloor>m\<rfloor>"
    by (simp only: of_int_le_iff)
  then have "(2 :: rat) ^ nat (bitlen \<lfloor>m\<rfloor> - 1) \<le> m"
    by (simp add: le_floor_iff)
  ultimately show ?thesis
    using True by (simp add: floor_log2_def pow2_def)
next
  case False
  assume "0 < m"
  with False have inv: "1 < 1 / m" by simp
  define j where "j = \<lceil>1 / m\<rceil> - 1"
  from inv have j: "0 < j"
    unfolding j_def by (simp add: less_ceiling_iff)
  from bitlen_bounds [OF j] have "j + 1 \<le> 2 ^ nat (bitlen j)"
    by simp
  then have "(of_int (j + 1) :: rat) \<le> of_int (2 ^ nat (bitlen j))"
    by (simp only: of_int_le_iff)
  moreover have "1 / m \<le> of_int (j + 1)"
    unfolding j_def by simp
  ultimately have "1 / m \<le> 2 ^ nat (bitlen j)"
    by simp
  with \<open>0 < m\<close> have "1 / 2 ^ nat (bitlen j) \<le> m"
    by (simp add: field_simps)
  moreover from j have "1 \<le> bitlen j"
    using bitlen_ge_iff_power [of 1 j] by simp
  ultimately show ?thesis
    using False by (simp add: floor_log2_def pow2_def j_def)
qed

lemma floor_log2_upper: "0 < m \<Longrightarrow> m < pow2 (floor_log2 m + 1)"
proof (cases "1 \<le> m")
  case True
  then have k: "0 < \<lfloor>m\<rfloor>" by simp
  from bitlen_bounds [OF k] have "\<lfloor>m\<rfloor> + 1 \<le> 2 ^ nat (bitlen \<lfloor>m\<rfloor>)"
    by simp
  then have "(of_int (\<lfloor>m\<rfloor> + 1) :: rat) \<le> of_int (2 ^ nat (bitlen \<lfloor>m\<rfloor>))"
    by (simp only: of_int_le_iff)
  moreover have "m < of_int (\<lfloor>m\<rfloor> + 1)"
    by linarith
  ultimately have "m < 2 ^ nat (bitlen \<lfloor>m\<rfloor>)"
    by simp
  with True bitlen_nonneg [of "\<lfloor>m\<rfloor>"] show ?thesis
    by (simp add: floor_log2_def pow2_def)
next
  case False
  assume "0 < m"
  with False have inv: "1 < 1 / m" by simp
  define j where "j = \<lceil>1 / m\<rceil> - 1"
  from inv have j: "0 < j"
    unfolding j_def by (simp add: less_ceiling_iff)
  then have b: "1 \<le> bitlen j"
    using bitlen_ge_iff_power [of 1 j] by simp
  from bitlen_bounds [OF j] have "(2 :: int) ^ nat (bitlen j - 1) \<le> j"
    by simp
  then have "(of_int (2 ^ nat (bitlen j - 1)) :: rat) \<le> of_int j"
    by (simp only: of_int_le_iff)
  then have "(2 :: rat) ^ nat (bitlen j - 1) \<le> of_int j"
    by (simp only: of_int_power of_int_numeral)
  moreover have "of_int j < 1 / m"
    unfolding j_def using ceiling_correct [of "1 / m"] by simp
  ultimately have "2 ^ nat (bitlen j - 1) < 1 / m"
    by (rule le_less_trans)
  with \<open>0 < m\<close> have "m < 1 / 2 ^ nat (bitlen j - 1)"
    by (simp add: field_simps)
  moreover from b have "pow2 (- bitlen j + 1) = 1 / 2 ^ nat (bitlen j - 1)"
    by (auto simp: pow2_def)
  ultimately show ?thesis
    using False by (simp add: floor_log2_def j_def)
qed

lemma floor_log2_unique:
  assumes "0 < m" and "pow2 l \<le> m" and "m < pow2 (l + 1)"
  shows "floor_log2 m = l"
proof -
  from assms(2) floor_log2_upper [OF assms(1)] have "pow2 l < pow2 (floor_log2 m + 1)"
    by (rule le_less_trans)
  moreover from floor_log2_lower [OF assms(1)] assms(3) have "pow2 (floor_log2 m) < pow2 (l + 1)"
    by (rule le_less_trans)
  ultimately show ?thesis
    by simp
qed

lemma floor_log2_scale:
  assumes "0 < m"
  shows "floor_log2 (m * pow2 e) = floor_log2 m + e"
proof (rule floor_log2_unique)
  from assms show "0 < m * pow2 e" by simp
  from floor_log2_lower [OF assms] show "pow2 (floor_log2 m + e) \<le> m * pow2 e"
    by (simp add: pow2_add)
  from floor_log2_upper [OF assms] have "m * pow2 e < pow2 (floor_log2 m + 1) * pow2 e"
    by simp
  then show "m * pow2 e < pow2 (floor_log2 m + e + 1)"
    by (simp add: pow2_add ac_simps)
qed

subsection \<open>Rounding\<close>

lemma round_half_even_near: "\<bar>of_int (round_half_even x) - x\<bar> \<le> 1 / 2"
proof -
  have "of_int \<lfloor>x\<rfloor> \<le> x" "x < of_int \<lfloor>x\<rfloor> + 1"
    by linarith+
  then show ?thesis
    by (auto simp: round_half_even_def Let_def)
qed

lemma pow2_half: "pow2 (e - 52) = 2 * pow2 (e - 53)"
  using pow2_add [of 1 "e - 53"] by (simp add: pow2_def)

text \<open>
  C37. Rounding is to a nearest double: a finite result differs from the exact value by
  at most half a unit in the last place, where the unit is \<open>2\<^bsup>e - 52\<^esup>\<close> for the binary
  exponent \<open>e\<close> of the value, and \<open>2\<^bsup>-1074\<^esup>\<close> below the normal range.
\<close>

theorem round_double_nearest:
  assumes "round_double q = Fin r"
  shows "\<bar>r - q\<bar> \<le> pow2 (max (floor_log2 \<bar>q\<bar>) (- 1022) - 53)"
proof (cases "q = 0")
  case True
  with assms show ?thesis
    by (simp add: less_imp_le)
next
  case False
  define ulp where "ulp = pow2 (max (floor_log2 \<bar>q\<bar>) (- 1022) - 52)"
  define n where "n = round_half_even (\<bar>q\<bar> / ulp)"
  have ulp: "0 < ulp"
    by (simp add: ulp_def)
  from assms False have r: "r = sgn q * (of_int n * ulp)"
    by (simp add: round_double_def Let_def ulp_def n_def split: if_splits)
  have "r - q = sgn q * (of_int n * ulp - \<bar>q\<bar>)"
    by (simp add: r right_diff_distrib sgn_mult_abs)
  then have "\<bar>r - q\<bar> = \<bar>sgn q * (of_int n * ulp - \<bar>q\<bar>)\<bar>"
    by simp
  also have "\<dots> = \<bar>of_int n * ulp - \<bar>q\<bar>\<bar>"
    using False by (simp add: abs_mult abs_sgn_eq)
  also have "\<dots> = \<bar>(of_int n - \<bar>q\<bar> / ulp) * ulp\<bar>"
    using ulp by (simp add: left_diff_distrib)
  also have "\<dots> = \<bar>of_int n - \<bar>q\<bar> / ulp\<bar> * ulp"
    using ulp by (simp only: abs_mult abs_of_pos)
  also have "\<dots> \<le> 1 / 2 * ulp"
  proof (rule mult_right_mono)
    show "\<bar>of_int n - \<bar>q\<bar> / ulp\<bar> \<le> 1 / 2"
      unfolding n_def by (rule round_half_even_near)
    from ulp show "0 \<le> ulp"
      by (rule less_imp_le)
  qed
  also have "\<dots> = pow2 (max (floor_log2 \<bar>q\<bar>) (- 1022) - 53)"
    by (simp add: ulp_def pow2_half)
  finally show ?thesis .
qed

lemma floor_log2_of_int_scaled:
  "0 < k \<Longrightarrow> floor_log2 (of_int k * pow2 e) = bitlen k - 1 + e"
  using floor_log2_scale [of "of_int k" e] by (simp add: floor_log2_of_int)

lemma round_double_pos_scaled:
  assumes "0 < k" and "k < 2 ^ 53" and "- 1074 \<le> e" and "e \<le> 971"
  shows "round_double (of_int k * pow2 e) = Fin (of_int k * pow2 e)"
proof -
  define E where "E = max (bitlen k - 1 + e) (- 1022)"
  define d where "d = nat (e - (E - 52))"
  from assms have b: "1 \<le> bitlen k" "bitlen k \<le> 53"
    using bitlen_below [of k 53] by simp_all
  with assms have d: "int d = e - (E - 52)"
    by (auto simp: d_def E_def)
  then have e: "e = int d + (E - 52)"
    by simp
  have scaled: "of_int k * pow2 e = of_int (k * 2 ^ d) * pow2 (E - 52)"
    by (subst e) (simp add: pow2_add)
  have "of_int k * pow2 e / pow2 (E - 52) = of_int (k * 2 ^ d)"
    unfolding scaled by simp
  then have n: "round_half_even (of_int k * pow2 e / pow2 (E - 52)) = k * 2 ^ d"
    by (simp only: round_half_even_of_int)
  have "(of_int k :: rat) < of_int (2 ^ 53)"
    using assms by (simp only: of_int_less_iff)
  then have "(of_int k :: rat) < pow2 53"
    by (simp only: pow2_53 of_int_power of_int_numeral)
  moreover from assms(4) have "pow2 e \<le> pow2 971"
    by (simp only: pow2_le_iff)
  ultimately have "of_int k * pow2 e < pow2 53 * pow2 971"
    using assms(1) by (intro mult_less_le_imp_less) simp_all
  then have small: "of_int k * pow2 e < pow2 1024"
    using pow2_add [of 53 971] by simp
  from assms have pos: "0 < (of_int k :: rat) * pow2 e"
    by simp
  have exponent: "max (floor_log2 (of_int k * pow2 e)) (- 1022) = E"
    using assms(1) by (simp add: floor_log2_of_int_scaled E_def)
  have "of_int (round_half_even (of_int k * pow2 e / pow2 (E - 52))) * pow2 (E - 52) =
      of_int k * pow2 e"
    by (simp only: n scaled [symmetric])
  with pos small show ?thesis
    by (simp add: round_double_def Let_def exponent)
qed

text \<open>
  C38. Every double is a fixed point of rounding: a value \<open>k \<times> 2\<^bsup>e\<^esup>\<close> with a
  significand of magnitude below \<open>2\<^sup>5\<^sup>3\<close> and an exponent from \<open>-1074\<close> to \<open>971\<close> is returned
  as it is.
\<close>

theorem round_double_representable:
  assumes "\<bar>k\<bar> < 2 ^ 53" and "- 1074 \<le> e" and "e \<le> 971"
  shows "round_double (of_int k * pow2 e) = Fin (of_int k * pow2 e)"
proof -
  consider "k = 0" | "0 < k" | "0 < - k" by linarith
  then show ?thesis
  proof cases
    case 1
    then show ?thesis by simp
  next
    case 2
    with assms show ?thesis by (simp add: round_double_pos_scaled)
  next
    case 3
    with assms have "round_double (of_int (- k) * pow2 e) = Fin (of_int (- k) * pow2 e)"
      by (intro round_double_pos_scaled) simp_all
    then show ?thesis
      using round_double_minus [of "of_int (- k) * pow2 e"] by simp
  qed
qed

subsection \<open>Decimal digit strings\<close>

lemma is_digit_unat: "is_digit c \<longleftrightarrow> 48 \<le> unat c \<and> unat c \<le> 57"
  by (simp add: is_digit_def word_le_nat_alt)

lemma is_digit_not_space: "is_digit c \<Longrightarrow> \<not> is_space c"
  by (auto simp: is_digit_unat is_space_def word_le_nat_alt)

lemma trim_spaces_id:
  "s \<noteq> [] \<Longrightarrow> \<not> is_space (hd s) \<Longrightarrow> \<not> is_space (last s) \<Longrightarrow> trim_spaces s = s"
proof -
  assume "s \<noteq> []" "\<not> is_space (hd s)" "\<not> is_space (last s)"
  then have "dropWhile is_space s = s" "dropWhile is_space (rev s) = rev s"
    by (simp_all only: dropWhile_eq_self_iff hd_rev simp_thms)
  then show ?thesis
    by (simp only: trim_spaces_def rev_rev_ident)
qed

lemma trim_spaces_digits: "list_all is_digit s \<Longrightarrow> trim_spaces s = s"
proof (cases "s = []")
  case True
  then show ?thesis by (simp add: trim_spaces_def)
next
  case False
  moreover assume "list_all is_digit s"
  ultimately show ?thesis
    by (intro trim_spaces_id) (simp_all add: list_all_iff is_digit_not_space)
qed

lemma non_decimal_digits: "list_all is_digit s \<Longrightarrow> non_decimal s = None"
  by (auto simp: non_decimal_def is_digit_unat split: list.split)

lemma unsigned_decimal_digits:
  "s \<noteq> [] \<Longrightarrow> list_all is_digit s \<Longrightarrow> unsigned_decimal s = Some (of_nat (dec_value s))"
proof -
  assume "s \<noteq> []" and "list_all is_digit s"
  then have digits: "takeWhile is_digit s = s" "dropWhile is_digit s = []"
    by (simp_all add: list_all_iff)
  from \<open>s \<noteq> []\<close> show ?thesis
    unfolding unsigned_decimal_def digits
    by (simp add: exponent_part_def pow10_def dec_value_def)
qed

lemma digits_not_Infinity: "list_all is_digit s \<Longrightarrow> s \<noteq> lit ''Infinity''"
  by (auto simp: lit_def is_digit_unat)

lemma string_to_number_digits:
  assumes "s \<noteq> []" "list_all is_digit s"
  shows "string_to_number s = round_double (of_nat (dec_value s))"
proof -
  from assms have "is_digit (hd s)"
    by (cases s) simp_all
  then have "hd s \<noteq> 43" "hd s \<noteq> 45"
    by (auto simp: is_digit_unat)
  with assms show ?thesis
    by (simp add: string_to_number_def trim_spaces_digits non_decimal_digits
        unsigned_decimal_digits digits_not_Infinity)
qed

lemma string_to_number_minus_digits:
  assumes "s \<noteq> []" "list_all is_digit s"
  shows "string_to_number (45 # s) = round_double (- of_nat (dec_value s))"
proof -
  have "\<not> is_space 45"
    by (simp add: is_space_def)
  moreover from assms have "\<not> is_space (last s)"
    by (simp add: list_all_iff is_digit_not_space)
  ultimately have "trim_spaces (45 # s) = 45 # s"
    using assms by (intro trim_spaces_id) simp_all
  moreover have "non_decimal (45 # s) = None"
    by (simp add: non_decimal_def split: list.split)
  ultimately show ?thesis
    using assms
    by (simp add: string_to_number_def unsigned_decimal_digits digits_not_Infinity)
qed

text \<open>
  C10. A non-empty string of decimal digits that denotes a number below \<open>2\<^sup>5\<^sup>3\<close> converts
  to exactly that number, leading zeros included, and with a minus sign in front to its
  negation.
\<close>

theorem string_to_number_integer:
  assumes "s \<noteq> []" and "list_all is_digit s" and "dec_value s < 2 ^ 53"
  shows "string_to_number s = Fin (of_nat (dec_value s)) \<and>
         string_to_number (45 # s) = Fin (- of_nat (dec_value s))"
  using assms round_double_int [of "- int (dec_value s)"]
  by (simp add: string_to_number_digits string_to_number_minus_digits round_double_nat)

subsection \<open>Strings that are no number\<close>

text \<open>
  A string converts to a number only if it is written in the alphabet of numeric
  literals: white space, digits, signs, the point, the exponent and radix markers, the
  hexadecimal digits and the letters of \<^verbatim>\<open>Infinity\<close>. Any other character makes it \<^verbatim>\<open>NaN\<close>.
\<close>

lemma numeric_char_simps [simp]:
  "is_space c \<Longrightarrow> numeric_char c" "is_digit c \<Longrightarrow> numeric_char c"
  "numeric_char 43" "numeric_char 45" "numeric_char 46" "numeric_char 48"
  "numeric_char 101" "numeric_char 69"
  "numeric_char 120" "numeric_char 88" "numeric_char 111" "numeric_char 79"
  "numeric_char 98" "numeric_char 66"
  by (simp_all add: numeric_char_def lit_def is_digit_def)

lemma digit_in_numeric: "digit_in radix c = Some v \<Longrightarrow> numeric_char c"
  by (auto simp: digit_in_def numeric_char_def is_digit_def lit_def Let_def word_le_nat_alt
      word_unat_eq_iff split: if_splits)

lemma set_trim_spaces: "c \<in> set s \<Longrightarrow> \<not> is_space c \<Longrightarrow> c \<in> set (trim_spaces s)"
proof -
  have keep: "c \<in> set (dropWhile is_space xs)" if "c \<in> set xs" "\<not> is_space c" for xs
    using that by (induction xs) auto
  assume "c \<in> set s" "\<not> is_space c"
  then show ?thesis
    unfolding trim_spaces_def by (simp add: keep)
qed

lemma non_decimal_numeric: "non_decimal t = Some q \<Longrightarrow> list_all numeric_char t"
  by (auto simp: non_decimal_def radix_value_def list_all_iff
      split: list.splits if_splits dest: digit_in_numeric)

lemma signed_integer_numeric: "signed_integer t = Some k \<Longrightarrow> list_all numeric_char t"
proof (cases t)
  case Nil
  then show ?thesis by simp
next
  case (Cons c cs)
  assume "signed_integer t = Some k"
  with Cons show ?thesis
    by (auto simp: signed_integer_def Let_def list_all_iff split: if_splits)
qed

lemma exponent_part_numeric: "exponent_part r = Some e \<Longrightarrow> list_all numeric_char r"
  by (auto simp: exponent_part_def split: list.splits if_splits dest: signed_integer_numeric)

lemma split_digits: "u = takeWhile is_digit u @ dropWhile is_digit u"
  by simp

lemma unsigned_decimal_numeric:
  assumes "unsigned_decimal u = Some q"
  shows "list_all numeric_char u"
proof -
  define r1 where "r1 = dropWhile is_digit u"
  define r2 where "r2 = (if r1 \<noteq> [] \<and> hd r1 = 46 then dropWhile is_digit (tl r1) else r1)"
  from assms obtain e where "exponent_part r2 = Some e"
    by (auto simp: unsigned_decimal_def Let_def r1_def r2_def split: if_splits option.splits)
  then have r2: "list_all numeric_char r2"
    by (rule exponent_part_numeric)
  have digits: "list_all numeric_char (takeWhile is_digit xs)" for xs
    by (auto simp: list_all_iff dest: set_takeWhileD)
  have "list_all numeric_char r1"
  proof (cases "r1 \<noteq> [] \<and> hd r1 = 46")
    case True
    then have "r1 = 46 # takeWhile is_digit (tl r1) @ dropWhile is_digit (tl r1)"
      by (cases r1) simp_all
    moreover from True r2 have "list_all numeric_char (dropWhile is_digit (tl r1))"
      by (simp add: r2_def)
    ultimately have "list_all numeric_char r1 \<longleftrightarrow> list_all numeric_char [46]"
      using digits [of "tl r1"] by (metis append_Cons append_Nil list_all_append)
    then show ?thesis
      by simp
  next
    case False
    with r2 show ?thesis
      by (simp add: r2_def)
  qed
  with digits [of u] have "list_all numeric_char (takeWhile is_digit u @ r1)"
    by simp
  then show ?thesis
    by (simp add: r1_def)
qed

lemma Infinity_numeric: "list_all numeric_char (lit ''Infinity'')"
  by (simp add: numeric_char_def lit_def)

lemma string_to_number_alphabet:
  assumes "string_to_number s \<noteq> NaN"
  shows "list_all numeric_char s"
  unfolding list_all_iff
proof (intro ballI, rule ccontr)
  fix c
  assume c: "c \<in> set s" "\<not> numeric_char c"
  define t where "t = trim_spaces s"
  from c have "\<not> is_space c"
    by (auto simp: numeric_char_def)
  with c(1) have t: "c \<in> set t"
    unfolding t_def by (rule set_trim_spaces)
  then have "t \<noteq> []"
    by auto
  from t c(2) have "non_decimal t = None"
    using non_decimal_numeric [of t] by (cases "non_decimal t") (auto simp: list_all_iff)
  define u where "u = (if hd t = 43 \<or> hd t = 45 then tl t else t)"
  from t c(2) \<open>t \<noteq> []\<close> have u: "c \<in> set u"
    by (cases t) (auto simp: u_def)
  with c(2) Infinity_numeric have "u \<noteq> lit ''Infinity''"
    by (auto simp: list_all_iff)
  moreover from u c(2) have "unsigned_decimal u = None"
    using unsigned_decimal_numeric [of u] by (cases "unsigned_decimal u") (auto simp: list_all_iff)
  ultimately have "string_to_number s = NaN"
    using \<open>t \<noteq> []\<close> \<open>non_decimal t = None\<close>
    by (simp add: string_to_number_def Let_def flip: t_def u_def)
  with assms show False
    by simp
qed

lemma string_to_number_NaN:
  "c \<in> set s \<Longrightarrow> \<not> numeric_char c \<Longrightarrow> string_to_number s = NaN"
  using string_to_number_alphabet [of s] by (auto simp: list_all_iff)

lemma string_to_number_empty [simp]: "string_to_number [] = Fin 0"
  by (simp add: string_to_number_def trim_spaces_def)

subsection \<open>Truncation\<close>

lemma to_integer_or_infinity_simps [simp]:
  "to_integer_or_infinity NaN = Finite 0"
  "to_integer_or_infinity PosInf = PlusInf"
  "to_integer_or_infinity NegInf = MinusInf"
  "to_integer_or_infinity (Fin (of_int k)) = Finite k"
  "to_integer_or_infinity (Fin (of_nat n)) = Finite (int n)"
  by (simp_all add: to_integer_or_infinity_def)

lemma to_integer_or_infinity_minus_nat [simp]:
  "to_integer_or_infinity (Fin (- of_nat n)) = Finite (- int n)"
  using to_integer_or_infinity_simps(4) [of "- int n"] by simp

lemma ext_int_top [simp]: "x \<le> PlusInf"
  by (cases x) simp_all

lemma truncate_mono:
  fixes a b :: rat
  assumes "a \<le> b"
  shows "(if 0 \<le> a then \<lfloor>a\<rfloor> else \<lceil>a\<rceil>) \<le> (if 0 \<le> b then \<lfloor>b\<rfloor> else \<lceil>b\<rceil>)"
proof (cases "0 \<le> a")
  case True
  with assms floor_mono [OF assms] show ?thesis
    by simp
next
  case False
  then have low: "\<lceil>a\<rceil> \<le> 0"
    by (simp add: ceiling_le_iff)
  show ?thesis
  proof (cases "0 \<le> b")
    case True
    then have "0 \<le> \<lfloor>b\<rfloor>"
      by simp
    with low have "\<lceil>a\<rceil> \<le> \<lfloor>b\<rfloor>"
      by (rule order_trans)
    with False True show ?thesis
      by simp
  next
    case b: False
    with False ceiling_mono [OF assms] show ?thesis
      by simp
  qed
qed

lemma to_integer_or_infinity_mono:
  "a \<le> b \<Longrightarrow> to_integer_or_infinity (Fin a) \<le> to_integer_or_infinity (Fin b)"
  using truncate_mono [of a b] by (simp add: to_integer_or_infinity_def)

subsection \<open>Closed instances\<close>

lemma digits_007:
  "dec_value (lit ''007'') = 7" "list_all is_digit (lit ''007'')" "lit ''-007'' = 45 # lit ''007''"
  by (simp_all add: dec_value_def is_digit_def lit_def)

lemma round_tenth: "round_double (1 / 10) = Fin (3602879701896397 / 36028797018963968)"
  by code_simp

theorem round_double_nearest_witness:
  "\<bar>3602879701896397 / 36028797018963968 - 1 / 10\<bar>
     \<le> pow2 (max (floor_log2 \<bar>1 / 10\<bar>) (- 1022) - 53)"
  using round_double_nearest [OF round_tenth] .

theorem round_double_representable_witness: "round_double (3 / 2) = Fin (3 / 2)"
  using round_double_representable [of 3 "- 1"] by (simp add: pow2_def)

theorem string_to_number_integer_witness:
  "string_to_number (lit ''007'') = Fin 7 \<and> string_to_number (lit ''-007'') = Fin (- 7)"
  using string_to_number_integer [of "lit ''007''"]
  by (simp add: digits_007)

end
