(* ===== verification/Uri.thy ===== *)
theory Uri
  imports Js_Value
begin

text \<open>
  \<^verbatim>\<open>encodeURIComponent\<close>, which both handlers apply to the identifier before it becomes
  a path segment of the upstream URL (\<^verbatim>\<open>src/server.js\<close>, lines 29 and 82).

  The definitions follow the abstract operation \<^verbatim>\<open>Encode\<close> of ECMA-262: a code unit of
  the unreserved set is copied; any other position is read as a code point
  (\<open>code_point_at\<close>), which fails on a surrogate without its partner; the code point is
  written in UTF-8 (\<open>utf8\<close>) and every octet as \<^verbatim>\<open>%XX\<close> with upper-case digits (\<open>percent\<close>).
  The recursion steps over one or two code units, so its termination is proved from
  \<open>code_point_at_count\<close>.

  \<open>well_formed\<close> is the reference notion of a string without lone surrogates. The lemmas
  show: the encoder fails exactly on strings that are not well formed, and only with
  \<open>URIMalformed\<close>; its output consists of unreserved code units and \<^verbatim>\<open>%\<close>; it is the
  identity on unreserved strings; the output is between one and nine times as long as
  the input; it distributes over concatenation after a well-formed prefix.
\<close>

definition unreserved :: "code_unit \<Rightarrow> bool" where
  "unreserved c \<longleftrightarrow>
     (65 \<le> c \<and> c \<le> 90) \<or> (97 \<le> c \<and> c \<le> 122) \<or> (48 \<le> c \<and> c \<le> 57) \<or>
     c \<in> {45, 95, 46, 33, 126, 42, 39, 40, 41}"

definition uri_reserved :: "code_unit \<Rightarrow> bool" where
  "uri_reserved c \<longleftrightarrow> c \<in> set (lit '';/?:@&=+$,#'')"

definition is_lead :: "code_unit \<Rightarrow> bool" where
  "is_lead c \<longleftrightarrow> 0xD800 \<le> c \<and> c \<le> 0xDBFF"

definition is_trail :: "code_unit \<Rightarrow> bool" where
  "is_trail c \<longleftrightarrow> 0xDC00 \<le> c \<and> c \<le> 0xDFFF"

definition surrogate_pair :: "code_unit \<Rightarrow> code_unit \<Rightarrow> nat" where
  "surrogate_pair c d = (unat c - 0xD800) * 0x400 + (unat d - 0xDC00) + 0x10000"

fun code_point_at :: "jsstring \<Rightarrow> (nat \<times> nat) option" where
  "code_point_at [] = None"
| "code_point_at (c # cs) =
     (if \<not> is_lead c \<and> \<not> is_trail c then Some (unat c, 1)
      else if is_trail c then None
      else case cs of
             [] \<Rightarrow> None
           | d # ds \<Rightarrow>
               if is_trail d
               then Some (surrogate_pair c d, 2)
               else None)"

definition utf8 :: "nat \<Rightarrow> octet list" where
  "utf8 cp =
     (if cp < 0x80 then [of_nat cp]
      else if cp < 0x800 then [of_nat (0xC0 + cp div 0x40), of_nat (0x80 + cp mod 0x40)]
      else if cp < 0x10000 then
        [of_nat (0xE0 + cp div 0x1000), of_nat (0x80 + cp div 0x40 mod 0x40),
         of_nat (0x80 + cp mod 0x40)]
      else
        [of_nat (0xF0 + cp div 0x40000), of_nat (0x80 + cp div 0x1000 mod 0x40),
         of_nat (0x80 + cp div 0x40 mod 0x40), of_nat (0x80 + cp mod 0x40)])"

definition hex_digit :: "nat \<Rightarrow> code_unit" where
  "hex_digit n = (if n < 10 then of_nat (48 + n) else of_nat (55 + n))"

definition percent :: "octet \<Rightarrow> jsstring" where
  "percent b = [37, hex_digit (unat b div 16), hex_digit (unat b mod 16)]"

definition escape :: "nat \<Rightarrow> jsstring" where
  "escape cp = concat (map percent (utf8 cp))"

lemma code_point_at_count:
  "code_point_at s = Some (cp, n) \<Longrightarrow> (n = 1 \<or> n = 2) \<and> n \<le> length s"
  by (cases s) (auto split: if_splits list.splits)

function encodeURIComponent :: "jsstring \<Rightarrow> js_error + jsstring" where
  "encodeURIComponent [] = Inr []"
| "encodeURIComponent (c # cs) =
     (if unreserved c then and_then (encodeURIComponent cs) (\<lambda>r. Inr (c # r))
      else case code_point_at (c # cs) of
             None \<Rightarrow> Inl URIMalformed
           | Some (cp, n) \<Rightarrow>
               and_then (encodeURIComponent (drop n (c # cs))) (\<lambda>r. Inr (escape cp @ r)))"
  by pat_completeness auto
termination
proof (relation "measure length")
  fix c cs x cp n
  assume "code_point_at (c # cs) = Some x" and "(cp, n) = x"
  then have "n = 1 \<or> n = 2"
    using code_point_at_count [of "c # cs" cp n] by simp
  then show "(drop n (c # cs), c # cs) \<in> measure length"
    by auto
qed auto

fun well_formed :: "jsstring \<Rightarrow> bool" where
  "well_formed [] = True"
| "well_formed [c] = (\<not> is_lead c \<and> \<not> is_trail c)"
| "well_formed (c # d # cs) =
     (if is_lead c then is_trail d \<and> well_formed cs
      else \<not> is_trail c \<and> well_formed (d # cs))"

lemma unreserved_ascii: "unreserved c \<Longrightarrow> c < 128"
  by (auto simp: unreserved_def word_le_nat_alt word_less_nat_alt)

lemma unreserved_not_surrogate [simp]:
  "unreserved c \<Longrightarrow> \<not> is_lead c" "unreserved c \<Longrightarrow> \<not> is_trail c"
  by (auto dest!: unreserved_ascii simp: is_lead_def is_trail_def word_le_nat_alt word_less_nat_alt)

lemma lead_not_trail: "is_lead c \<Longrightarrow> \<not> is_trail c"
  by (auto simp: is_lead_def is_trail_def word_le_nat_alt)

lemma unreserved_unat:
  "unreserved c \<longleftrightarrow>
     (65 \<le> unat c \<and> unat c \<le> 90) \<or> (97 \<le> unat c \<and> unat c \<le> 122) \<or>
     (48 \<le> unat c \<and> unat c \<le> 57) \<or> unat c \<in> {45, 95, 46, 33, 126, 42, 39, 40, 41}"
  by (simp add: unreserved_def word_le_nat_alt word_unat_eq_iff)

lemma unat_hex_digit:
  "n < 16 \<Longrightarrow> unat (hex_digit n) = (if n < 10 then 48 + n else 55 + n)"
  using unat_of_nat_code_unit [of "48 + n"] unat_of_nat_code_unit [of "55 + n"]
  by (simp add: hex_digit_def)

lemma hex_digit_unreserved: "n < 16 \<Longrightarrow> unreserved (hex_digit n)"
  by (auto simp: unreserved_unat unat_hex_digit)

lemma percent_safe: "c \<in> set (percent b) \<Longrightarrow> unreserved c \<or> c = 37"
proof -
  have "unat b < 256"
    by (rule unat_octet_less)
  then have "unat b div 16 < 16" and "unat b mod 16 < 16"
    by auto
  then show "c \<in> set (percent b) \<Longrightarrow> unreserved c \<or> c = 37"
    by (auto simp: percent_def hex_digit_unreserved)
qed

lemma escape_safe: "c \<in> set (escape cp) \<Longrightarrow> unreserved c \<or> c = 37"
  by (auto simp: escape_def dest: percent_safe)

lemma length_utf8: "length (utf8 cp) = (if cp < 0x80 then 1 else if cp < 0x800 then 2 else if cp < 0x10000 then 3 else 4)"
  by (simp add: utf8_def)

lemma length_escape: "length (escape cp) = 3 * length (utf8 cp)"
  by (simp add: escape_def percent_def length_concat comp_def sum_list_triv)

subsection \<open>The equations of the encoder, by the shape of the input\<close>

lemma enc_single:
  "encodeURIComponent [c] =
     (if unreserved c then Inr [c]
      else if is_lead c \<or> is_trail c then Inl URIMalformed
      else Inr (escape (unat c)))"
  by (auto simp: lead_not_trail)

lemma enc_two:
  "encodeURIComponent (c # d # cs) =
     (if unreserved c then and_then (encodeURIComponent (d # cs)) (\<lambda>r. Inr (c # r))
      else if is_trail c then Inl URIMalformed
      else if is_lead c then
        (if is_trail d
         then and_then (encodeURIComponent cs) (\<lambda>r. Inr (escape (surrogate_pair c d) @ r))
         else Inl URIMalformed)
      else and_then (encodeURIComponent (d # cs)) (\<lambda>r. Inr (escape (unat c) @ r)))"
  by (auto simp: lead_not_trail)

lemmas enc_simps = enc_single enc_two

declare encodeURIComponent.simps(2) [simp del]

lemma enc_error: "encodeURIComponent s = Inl e \<Longrightarrow> e = URIMalformed"
  by (induction s arbitrary: e rule: well_formed.induct)
    (auto simp: enc_simps and_then_eq_Inl_iff split: if_splits)

lemma enc_malformed: "\<not> well_formed s \<Longrightarrow> encodeURIComponent s = Inl URIMalformed"
  by (induction s rule: well_formed.induct)
    (auto simp: enc_simps lead_not_trail split: if_splits)

lemma enc_well_formed: "well_formed s \<Longrightarrow> \<exists>r. encodeURIComponent s = Inr r"
  by (induction s rule: well_formed.induct)
    (auto simp: enc_simps and_then_eq_Inr_iff lead_not_trail)

text \<open>
  C8. \<^verbatim>\<open>encodeURIComponent\<close> returns a string exactly when its argument is well-formed
  UTF-16, that is, has no surrogate without its partner; otherwise it throws.
\<close>

theorem enc_defined_iff: "(\<exists>r. encodeURIComponent s = Inr r) \<longleftrightarrow> well_formed s"
  by (induction s rule: well_formed.induct)
    (auto simp: enc_simps and_then_eq_Inr_iff lead_not_trail)

lemma enc_safe:
  "encodeURIComponent s = Inr r \<Longrightarrow> c \<in> set r \<Longrightarrow> unreserved c \<or> c = 37"
  by (induction s arbitrary: r rule: well_formed.induct)
    (auto simp: enc_simps and_then_eq_Inr_iff split: if_splits dest: escape_safe)

lemma unreserved_not_reserved: "unreserved c \<Longrightarrow> \<not> uri_reserved c"
  by (auto simp: unreserved_unat uri_reserved_def lit_def)

text \<open>
  C6. The escaped identifier contains none of the URI delimiters
  \<^verbatim>\<open>; / ? : @ & = + $ , #\<close>: whatever the identifier is, it stays one path segment of
  the upstream URL and cannot add a query or a fragment.
\<close>

theorem enc_no_delimiter:
  assumes "encodeURIComponent s = Inr r"
  shows "list_all (\<lambda>c. \<not> uri_reserved c) r"
proof -
  have "\<not> uri_reserved c" if "c \<in> set r" for c
  proof -
    from assms that have "unreserved c \<or> c = 37" by (rule enc_safe)
    then show ?thesis
      by (auto simp: unreserved_not_reserved) (simp add: uri_reserved_def lit_def)
  qed
  then show ?thesis by (simp add: list_all_iff)
qed

lemma enc_unreserved: "list_all unreserved s \<Longrightarrow> encodeURIComponent s = Inr s"
  by (induction s rule: well_formed.induct) (auto simp: enc_simps)

lemma enc_plain:
  "\<not> is_lead c \<Longrightarrow> \<not> is_trail c \<Longrightarrow>
   encodeURIComponent (c # cs) =
     and_then (encodeURIComponent cs)
       (\<lambda>r. Inr ((if unreserved c then [c] else escape (unat c)) @ r))"
  by (cases cs) (auto simp: enc_simps)

lemma length_escape_bmp: "length (escape (unat (c :: code_unit))) \<le> 9"
  using unat_code_unit_less [of c] by (simp add: length_escape length_utf8)

lemma length_escape_le: "length (escape cp) \<le> 12"
  by (simp add: length_escape length_utf8)

lemma length_escape_pos: "Suc 0 \<le> length (escape cp)"
  by (simp add: length_escape length_utf8)

text \<open>
  The escaped identifier is at least as long as the identifier and at most nine
  times as long (a code unit of the basic plane becomes at most three escaped octets).
\<close>

lemma enc_length:
  "encodeURIComponent s = Inr r \<Longrightarrow> length s \<le> length r \<and> length r \<le> 9 * length s"
proof (induction s arbitrary: r rule: well_formed.induct)
  case 1
  then show ?case by simp
next
  case (2 c)
  then show ?case
    using length_escape_bmp [of c] length_escape_pos [of "unat c"]
    by (auto simp: enc_simps split: if_splits)
next
  case (3 c d cs)
  then show ?case
    using length_escape_bmp [of c] length_escape_pos [of "unat c"]
      length_escape_le [of "surrogate_pair c d"]
      length_utf8 [of "surrogate_pair c d"] length_escape [of "surrogate_pair c d"]
    by (fastforce simp: enc_simps and_then_eq_Inr_iff surrogate_pair_def split: if_splits)
qed

text \<open>
  After a well-formed prefix the encoder continues as on a fresh string: the
  encoding of a concatenation is the concatenation of the encodings.
\<close>

lemma enc_append:
  "well_formed a \<Longrightarrow>
   encodeURIComponent (a @ b) =
     and_then (encodeURIComponent a) (\<lambda>x. and_then (encodeURIComponent b) (\<lambda>y. Inr (x @ y)))"
proof (induction a rule: well_formed.induct)
  case 1
  then show ?case by (cases "encodeURIComponent b") simp_all
next
  case (2 c)
  then show ?case
    by (cases "encodeURIComponent b") (simp_all add: enc_plain enc_simps)
next
  case (3 c d cs)
  then show ?case
    by (cases "encodeURIComponent cs"; cases "encodeURIComponent (d # cs)";
        cases "encodeURIComponent b")
      (auto simp: enc_simps lead_not_trail split: if_splits)
qed

subsection \<open>Closed instances\<close>

lemmas enc_eval = enc_simps lit_def unreserved_def is_lead_def is_trail_def escape_def
  utf8_def percent_def hex_digit_def surrogate_pair_def

lemma enc_riot_id: "encodeURIComponent (lit ''Player#NA1'') = Inr (lit ''Player%23NA1'')"
  by (simp add: enc_eval)

lemma enc_astral: "encodeURIComponent [0xD83D, 0xDE00] = Inr (lit ''%F0%9F%98%80'')"
  by (simp add: enc_eval)

lemma enc_hiragana: "encodeURIComponent [0x3042] = Inr (lit ''%E3%81%82'')"
  by (simp add: enc_eval)

lemma enc_lone_lead: "encodeURIComponent [0x41, 0xD83D] = Inl URIMalformed"
  by (simp add: enc_eval)

theorem enc_no_delimiter_witness:
  "list_all (\<lambda>c. \<not> uri_reserved c) (lit ''a%2Fb%3Fc%23d'') \<and>
   encodeURIComponent (lit ''a/b?c#d'') = Inr (lit ''a%2Fb%3Fc%23d'')"
proof -
  have e: "encodeURIComponent (lit ''a/b?c#d'') = Inr (lit ''a%2Fb%3Fc%23d'')"
    by (simp add: enc_eval)
  from enc_no_delimiter [OF e] e show ?thesis by simp
qed

lemma enc_length_witness:
  "length (lit ''Player#NA1'') \<le> length (lit ''Player%23NA1'') \<and>
   length (lit ''Player%23NA1'') \<le> 9 * length (lit ''Player#NA1'')"
  using enc_length [OF enc_riot_id] by simp

lemma enc_append_witness:
  "encodeURIComponent (lit ''Player'' @ [0x23, 0x3042]) = Inr (lit ''Player%23%E3%81%82'')"
proof -
  have w: "well_formed (lit ''Player'')"
    by (simp add: lit_def is_lead_def is_trail_def)
  have a: "encodeURIComponent (lit ''Player'') = Inr (lit ''Player'')"
    by (simp add: enc_eval)
  have b: "encodeURIComponent [0x23, 0x3042] = Inr (lit ''%23%E3%81%82'')"
    by (simp add: enc_eval)
  from enc_append [OF w, of "[0x23, 0x3042]"] a b show ?thesis
    by (simp flip: lit_append)
qed

end
