(* ===== verification/Uri_Decode.thy ===== *)
theory Uri_Decode
  imports Uri
begin

text \<open>
  \<^verbatim>\<open>decodeURIComponent\<close>, the inverse that the receiver of the upstream URL applies to the
  path segment, after the abstract operation \<^verbatim>\<open>Decode\<close> of ECMA-262 with an empty set of
  preserved escapes. The program does not call it: it is the reference against which
  the escaping of the identifier (\<^verbatim>\<open>src/server.js\<close>, lines 29 and 82) is shown to lose
  nothing.

  \<^item> \<open>hex_value\<close>, \<open>hex_octet\<close>: one \<^verbatim>\<open>%XX\<close> group; \<open>octets\<close>: a run of groups.
  \<^item> \<open>leading_ones\<close>: the length of a UTF-8 sequence from its first octet; \<open>utf8_value\<close>:
    the code point of a sequence, rejecting stray and missing continuation octets,
    overlong forms, surrogates and values above \<^verbatim>\<open>0x10FFFF\<close>.
  \<^item> \<open>utf16\<close>: the code units of a code point; \<open>decode_escape\<close>: one escaped code point;
    \<open>decodeURIComponent\<close>: the loop, a \<open>function\<close> that terminates because every step
    consumes at least one code unit (\<open>decode_escape_shorter\<close>).

  The lemmas show that decoding undoes encoding, so that the encoder is injective.
\<close>

definition hex_value :: "code_unit \<Rightarrow> nat option" where
  "hex_value c =
     (if 48 \<le> c \<and> c \<le> 57 then Some (unat c - 48)
      else if 65 \<le> c \<and> c \<le> 70 then Some (unat c - 55)
      else if 97 \<le> c \<and> c \<le> 102 then Some (unat c - 87)
      else None)"

fun hex_octet :: "jsstring \<Rightarrow> (nat \<times> jsstring) option" where
  "hex_octet (p # h # l # rest) =
     (if p = 37 then
        (case hex_value h of
           None \<Rightarrow> None
         | Some a \<Rightarrow> (case hex_value l of None \<Rightarrow> None | Some b \<Rightarrow> Some (16 * a + b, rest)))
      else None)"
| "hex_octet s = None"

fun octets :: "nat \<Rightarrow> jsstring \<Rightarrow> (nat list \<times> jsstring) option" where
  "octets 0 s = Some ([], s)"
| "octets (Suc n) s =
     (case hex_octet s of
        None \<Rightarrow> None
      | Some (b, rest) \<Rightarrow>
          (case octets n rest of
             None \<Rightarrow> None
           | Some (bs, rest') \<Rightarrow> Some (b # bs, rest')))"

definition leading_ones :: "nat \<Rightarrow> nat" where
  "leading_ones b =
     (if b < 0x80 then 0 else if b < 0xC0 then 1 else if b < 0xE0 then 2
      else if b < 0xF0 then 3 else if b < 0xF8 then 4 else 5)"

definition trail_bits :: "nat \<Rightarrow> nat option" where
  "trail_bits b = (if 0x80 \<le> b \<and> b < 0xC0 then Some (b - 0x80) else None)"

definition scalar :: "nat \<Rightarrow> nat \<Rightarrow> nat option" where
  "scalar least cp =
     (if least \<le> cp \<and> cp \<le> 0x10FFFF \<and> \<not> (0xD800 \<le> cp \<and> cp \<le> 0xDFFF) then Some cp else None)"

fun utf8_value :: "nat list \<Rightarrow> nat option" where
  "utf8_value [b0, b1] =
     Option.bind (trail_bits b1) (\<lambda>t1. scalar 0x80 ((b0 - 0xC0) * 0x40 + t1))"
| "utf8_value [b0, b1, b2] =
     Option.bind (trail_bits b1) (\<lambda>t1. Option.bind (trail_bits b2) (\<lambda>t2.
       scalar 0x800 ((b0 - 0xE0) * 0x1000 + t1 * 0x40 + t2)))"
| "utf8_value [b0, b1, b2, b3] =
     Option.bind (trail_bits b1) (\<lambda>t1. Option.bind (trail_bits b2) (\<lambda>t2.
     Option.bind (trail_bits b3) (\<lambda>t3.
       scalar 0x10000 ((b0 - 0xF0) * 0x40000 + t1 * 0x1000 + t2 * 0x40 + t3))))"
| "utf8_value bs = None"

definition utf16 :: "nat \<Rightarrow> jsstring" where
  "utf16 cp =
     (if cp < 0x10000 then [of_nat cp]
      else [of_nat (0xD800 + (cp - 0x10000) div 0x400),
            of_nat (0xDC00 + (cp - 0x10000) mod 0x400)])"

definition decode_escape :: "jsstring \<Rightarrow> (jsstring \<times> jsstring) option" where
  "decode_escape s =
     (case hex_octet s of
        None \<Rightarrow> None
      | Some (b, rest) \<Rightarrow>
          (let n = leading_ones b in
           if n = 0 then Some ([of_nat b], rest)
           else if n = 1 \<or> 4 < n then None
           else case octets (n - 1) rest of
                  None \<Rightarrow> None
                | Some (bs, rest') \<Rightarrow>
                    (case utf8_value (b # bs) of
                       None \<Rightarrow> None
                     | Some cp \<Rightarrow> Some (utf16 cp, rest'))))"

lemma hex_octet_shorter: "hex_octet s = Some (b, rest) \<Longrightarrow> length s = length rest + 3"
  by (induction s rule: hex_octet.induct) (auto split: if_splits option.splits)

lemma octets_shorter: "octets n s = Some (bs, rest) \<Longrightarrow> length rest \<le> length s"
proof (induction n arbitrary: s bs)
  case 0
  then show ?case by simp
next
  case (Suc n)
  from Suc.prems obtain b mid bs'
    where "hex_octet s = Some (b, mid)" "octets n mid = Some (bs', rest)"
    by (auto split: option.splits)
  with Suc.IH [of mid bs'] hex_octet_shorter [of s b mid] show ?case
    by simp
qed

lemma decode_escape_shorter: "decode_escape s = Some (t, rest) \<Longrightarrow> length rest < length s"
  by (auto simp: decode_escape_def Let_def split: option.splits if_splits
      dest!: hex_octet_shorter octets_shorter)

function decodeURIComponent :: "jsstring \<Rightarrow> js_error + jsstring" where
  "decodeURIComponent [] = Inr []"
| "decodeURIComponent (c # cs) =
     (if c \<noteq> 37 then and_then (decodeURIComponent cs) (\<lambda>r. Inr (c # r))
      else case decode_escape (c # cs) of
             None \<Rightarrow> Inl URIMalformed
           | Some (t, rest) \<Rightarrow> and_then (decodeURIComponent rest) (\<lambda>r. Inr (t @ r)))"
  by pat_completeness auto
termination
proof (relation "measure length")
  fix c :: code_unit and cs x t rest
  assume "decode_escape (c # cs) = Some x" and "(t, rest) = x"
  then show "(rest, c # cs) \<in> measure length"
    using decode_escape_shorter [of "c # cs" t rest] by simp
qed auto

declare decodeURIComponent.simps(2) [simp del]

subsection \<open>One escaped octet\<close>

lemma hex_value_hex_digit: "n < 16 \<Longrightarrow> hex_value (hex_digit n) = Some n"
  using unat_hex_digit [of n]
  by (auto simp: hex_value_def word_le_nat_alt)

lemma hex_octet_percent: "hex_octet (percent b @ r) = Some (unat b, r)"
proof -
  have "unat b < 256"
    by (rule unat_octet_less)
  then have "unat b div 16 < 16" "unat b mod 16 < 16"
    by auto
  then show ?thesis
    by (simp add: percent_def hex_value_hex_digit)
qed

lemma octets_percent:
  "octets (length bs) (concat (map percent bs) @ r) = Some (map unat bs, r)"
  by (induction bs) (simp_all add: hex_octet_percent)

subsection \<open>UTF-8 and UTF-16\<close>

lemma unat_utf8:
  assumes "cp < 0x110000"
  shows "map unat (utf8 cp) =
     (if cp < 0x80 then [cp]
      else if cp < 0x800 then [0xC0 + cp div 0x40, 0x80 + cp mod 0x40]
      else if cp < 0x10000 then
        [0xE0 + cp div 0x1000, 0x80 + cp div 0x40 mod 0x40, 0x80 + cp mod 0x40]
      else
        [0xF0 + cp div 0x40000, 0x80 + cp div 0x1000 mod 0x40,
         0x80 + cp div 0x40 mod 0x40, 0x80 + cp mod 0x40])"
  using assms by (auto simp: utf8_def unat_of_nat_octet simp del: of_nat_add of_nat_numeral)

lemma trail_bits_cont [simp]: "trail_bits (0x80 + n mod 0x40) = Some (n mod 0x40)"
  by (simp add: trail_bits_def)

lemma six_bits:
  fixes cp :: nat
  shows "cp div 0x40 * 0x40 + cp mod 0x40 = cp"
    and "cp div 0x1000 * 0x1000 + cp div 0x40 mod 0x40 * 0x40 + cp mod 0x40 = cp"
    and "cp div 0x40000 * 0x40000 + cp div 0x1000 mod 0x40 * 0x1000 + cp div 0x40 mod 0x40 * 0x40
           + cp mod 0x40 = cp"
proof -
  define q where "q = cp div 0x40"
  define p where "p = q div 0x40"
  have cp: "cp = q * 0x40 + cp mod 0x40" and q: "q = p * 0x40 + q mod 0x40"
    and p: "p = p div 0x40 * 0x40 + p mod 0x40"
    by (simp_all add: q_def p_def)
  have two: "cp div 0x1000 = p" and three: "cp div 0x40000 = p div 0x40"
    by (simp_all add: q_def p_def div_mult2_eq [symmetric])
  show "cp div 0x40 * 0x40 + cp mod 0x40 = cp"
    by simp
  from cp q show "cp div 0x1000 * 0x1000 + cp div 0x40 mod 0x40 * 0x40 + cp mod 0x40 = cp"
    unfolding two q_def [symmetric] by linarith
  from cp q p show "cp div 0x40000 * 0x40000 + cp div 0x1000 mod 0x40 * 0x1000
      + cp div 0x40 mod 0x40 * 0x40 + cp mod 0x40 = cp"
    unfolding two three q_def [symmetric] by linarith
qed

lemma utf8_value_utf8:
  assumes "0x80 \<le> cp" and "cp \<le> 0x10FFFF" and "\<not> (0xD800 \<le> cp \<and> cp \<le> 0xDFFF)"
  shows "utf8_value (map unat (utf8 cp)) = Some cp"
  using assms by (auto simp: unat_utf8 scalar_def six_bits)

lemma leading_ones_utf8:
  assumes "cp \<le> 0x10FFFF"
  shows "leading_ones (hd (map unat (utf8 cp))) = (if cp < 0x80 then 0 else length (utf8 cp))"
  using assms by (auto simp: unat_utf8 length_utf8 leading_ones_def)

lemma utf16_plain: "\<not> is_lead c \<Longrightarrow> \<not> is_trail c \<Longrightarrow> utf16 (unat c) = [c]"
  using unat_code_unit_less [of c] by (simp add: utf16_def)

lemma surrogate_pair_range:
  assumes "is_lead c" and "is_trail d"
  shows "0x10000 \<le> surrogate_pair c d" and "surrogate_pair c d \<le> 0x10FFFF"
  using assms by (auto simp: surrogate_pair_def is_lead_def is_trail_def word_le_nat_alt)

lemma utf16_surrogate_pair:
  assumes "is_lead c" and "is_trail d"
  shows "utf16 (surrogate_pair c d) = [c, d]"
proof -
  from assms have c: "0xD800 \<le> unat c" "unat c \<le> 0xDBFF" and d: "0xDC00 \<le> unat d" "unat d \<le> 0xDFFF"
    by (auto simp: is_lead_def is_trail_def word_le_nat_alt)
  define a b where ab: "a = unat c - 0xD800" "b = unat d - 0xDC00"
  with d have "b < 0x400" and "surrogate_pair c d - 0x10000 = a * 0x400 + b"
    by (simp_all add: surrogate_pair_def)
  then have "(surrogate_pair c d - 0x10000) div 0x400 = unat c - 0xD800"
    and "(surrogate_pair c d - 0x10000) mod 0x400 = unat d - 0xDC00"
    by (simp_all add: ab)
  with c d surrogate_pair_range [OF assms] show ?thesis
    by (simp add: utf16_def)
qed

subsection \<open>One escaped code point\<close>

lemma escape_Cons: "\<exists>cs. escape cp @ r = 37 # cs"
  by (simp add: escape_def utf8_def percent_def)

lemma decode_escape_escape:
  assumes "cp \<le> 0x10FFFF" and "\<not> (0xD800 \<le> cp \<and> cp \<le> 0xDFFF)"
  shows "decode_escape (escape cp @ r) = Some (utf16 cp, r)"
proof (cases "cp < 0x80")
  case True
  then have "utf8 cp = [of_nat cp]" and "unat (of_nat cp :: octet) = cp"
    by (simp_all add: utf8_def unat_of_nat_octet)
  with True show ?thesis
    by (simp add: decode_escape_def escape_def hex_octet_percent leading_ones_def utf16_def)
next
  case False
  then obtain b bs where bs: "utf8 cp = b # bs"
    using length_utf8 [of cp] by (cases "utf8 cp") (simp_all split: if_splits)
  with leading_ones_utf8 [OF assms(1)] False
  have n: "leading_ones (unat b) = Suc (length bs)" "length bs \<in> {1, 2, 3}"
    using length_utf8 [of cp] by (auto split: if_splits)
  from False assms bs have "utf8_value (unat b # map unat bs) = Some cp"
    using utf8_value_utf8 [of cp] by simp
  with bs n show ?thesis
    by (auto simp: decode_escape_def escape_def hex_octet_percent octets_percent)
qed

lemma decode_unreserved:
  "unreserved c \<Longrightarrow>
   decodeURIComponent (c # r) = and_then (decodeURIComponent r) (\<lambda>x. Inr (c # x))"
  by (auto simp: decodeURIComponent.simps(2) unreserved_unat)

lemma decode_escape_step:
  assumes "cp \<le> 0x10FFFF" and "\<not> (0xD800 \<le> cp \<and> cp \<le> 0xDFFF)"
  shows "decodeURIComponent (escape cp @ r) =
           and_then (decodeURIComponent r) (\<lambda>x. Inr (utf16 cp @ x))"
proof -
  from escape_Cons obtain cs where cs: "escape cp @ r = 37 # cs"
    by blast
  from decode_escape_escape [OF assms, of r] show ?thesis
    unfolding cs by (simp add: decodeURIComponent.simps(2))
qed

lemma decode_plain:
  assumes "\<not> is_lead c" and "\<not> is_trail c"
  shows "decodeURIComponent (escape (unat c) @ r) =
           and_then (decodeURIComponent r) (\<lambda>x. Inr (c # x))"
proof -
  from assms have "\<not> (0xD800 \<le> unat c \<and> unat c \<le> 0xDFFF)"
    by (auto simp: is_lead_def is_trail_def word_le_nat_alt)
  moreover have "unat c \<le> 0x10FFFF"
    using unat_code_unit_less [of c] by simp
  ultimately show ?thesis
    using assms by (simp add: decode_escape_step utf16_plain)
qed

lemma decode_pair:
  assumes "is_lead c" and "is_trail d"
  shows "decodeURIComponent (escape (surrogate_pair c d) @ r) =
           and_then (decodeURIComponent r) (\<lambda>x. Inr (c # d # x))"
  using surrogate_pair_range [OF assms] assms
  by (simp add: decode_escape_step utf16_surrogate_pair)

subsection \<open>Decoding undoes encoding\<close>

lemma decode_encode:
  "encodeURIComponent s = Inr t \<Longrightarrow> decodeURIComponent t = Inr s"
proof (induction s arbitrary: t rule: well_formed.induct)
  case 1
  then show ?case by simp
next
  case (2 c)
  then show ?case
    using decode_plain [of c "[]"] decode_unreserved [of c "[]"]
    by (auto simp: enc_simps split: if_splits)
next
  case (3 c d cs)
  then show ?case
    using decode_plain [of c] decode_unreserved [of c] decode_pair [of c d]
    by (auto simp: enc_simps and_then_eq_Inr_iff split: if_splits)
qed

subsection \<open>What the decoder returns is well formed\<close>

fun_cases utf8_valueE: "utf8_value bs = Some cp"

lemma scalar_Some: "scalar least cp = Some v \<Longrightarrow> v = cp \<and> cp \<le> 0x10FFFF \<and> \<not> (0xD800 \<le> cp \<and> cp \<le> 0xDFFF)"
  by (simp add: scalar_def split: if_splits)

lemma utf8_value_scalar:
  assumes "utf8_value bs = Some cp"
  shows "cp \<le> 0x10FFFF \<and> \<not> (0xD800 \<le> cp \<and> cp \<le> 0xDFFF)"
  using assms
  by (rule utf8_valueE) (auto simp: bind_eq_Some_conv eq_commute [of "Some cp"] dest!: scalar_Some)

lemma well_formed_plain:
  "\<not> is_lead c \<Longrightarrow> \<not> is_trail c \<Longrightarrow> well_formed (c # s) = well_formed s"
  by (cases s) simp_all

lemma well_formed_pair:
  "is_lead c \<Longrightarrow> is_trail d \<Longrightarrow> well_formed (c # d # s) = well_formed s"
  by simp

lemma utf16_well_formed:
  assumes "cp \<le> 0x10FFFF" and "\<not> (0xD800 \<le> cp \<and> cp \<le> 0xDFFF)"
  shows "well_formed (utf16 cp @ r) = well_formed r"
proof (cases "cp < 0x10000")
  case True
  then have "unat (of_nat cp :: code_unit) = cp"
    by (simp add: unat_of_nat_code_unit)
  with assms(2) have "\<not> is_lead (of_nat cp :: code_unit)" "\<not> is_trail (of_nat cp :: code_unit)"
    by (auto simp: is_lead_def is_trail_def word_le_nat_alt)
  with True show ?thesis
    by (simp add: utf16_def well_formed_plain)
next
  case False
  define hi lo where hl: "hi = 0xD800 + (cp - 0x10000) div 0x400" "lo = 0xDC00 + (cp - 0x10000) mod 0x400"
  with assms(1) False have "hi \<le> 0xDBFF" "0xD800 \<le> hi" "lo \<le> 0xDFFF" "0xDC00 \<le> lo"
    by simp_all
  then have "is_lead (of_nat hi :: code_unit)" "is_trail (of_nat lo :: code_unit)"
    by (simp_all add: is_lead_def is_trail_def word_le_nat_alt unat_of_nat_code_unit)
  with False show ?thesis
    by (simp add: utf16_def flip: hl)
qed

lemma hex_octet_rest: "hex_octet s = Some (b, rest) \<Longrightarrow> set rest \<subseteq> set s"
  by (induction s rule: hex_octet.induct) (auto split: if_splits option.splits)

lemma octets_rest: "octets n s = Some (bs, rest) \<Longrightarrow> set rest \<subseteq> set s"
proof (induction n arbitrary: s bs)
  case 0
  then show ?case by simp
next
  case (Suc n)
  from Suc.prems obtain b mid bs'
    where "hex_octet s = Some (b, mid)" "octets n mid = Some (bs', rest)"
    by (auto split: option.splits)
  with Suc.IH [of mid bs'] hex_octet_rest [of s b mid] show ?case
    by blast
qed

lemma decode_escape_well_formed:
  assumes "decode_escape s = Some (t, rest)"
  shows "well_formed (t @ r) = well_formed r" and "set rest \<subseteq> set s"
proof -
  from assms obtain b mid where b: "hex_octet s = Some (b, mid)"
    by (auto simp: decode_escape_def split: option.splits)
  show "well_formed (t @ r) = well_formed r"
  proof (cases "leading_ones b = 0")
    case True
    then have "b < 0x80"
      by (simp add: leading_ones_def split: if_splits)
    then have "unat (of_nat b :: code_unit) = b"
      by (simp add: unat_of_nat_code_unit)
    with \<open>b < 0x80\<close> have "\<not> is_lead (of_nat b :: code_unit)" "\<not> is_trail (of_nat b :: code_unit)"
      by (auto simp: is_lead_def is_trail_def word_le_nat_alt)
    with assms b True show ?thesis
      by (auto simp: decode_escape_def well_formed_plain)
  next
    case False
    with assms b obtain bs cp where "utf8_value (b # bs) = Some cp" "t = utf16 cp"
      by (auto simp: decode_escape_def Let_def split: option.splits if_splits)
    with utf8_value_scalar [of "b # bs" cp] show ?thesis
      by (simp add: utf16_well_formed)
  qed
  from assms b hex_octet_rest [OF b] show "set rest \<subseteq> set s"
    by (auto simp: decode_escape_def Let_def split: option.splits if_splits dest!: octets_rest)
qed

lemma decode_well_formed:
  assumes "decodeURIComponent p = Inr s" and "\<forall>c \<in> set p. \<not> is_lead c \<and> \<not> is_trail c"
  shows "well_formed s"
  using assms
proof (induction p arbitrary: s rule: decodeURIComponent.induct)
  case 1
  then show ?case by simp
next
  case (2 c cs)
  show ?case
  proof (cases "c = 37")
    case False
    with "2.prems" obtain r where r: "decodeURIComponent cs = Inr r" "s = c # r"
      by (auto simp: decodeURIComponent.simps(2) and_then_eq_Inr_iff)
    with "2.IH"(1) [OF False r(1)] "2.prems"(2) show ?thesis
      by (simp add: well_formed_plain)
  next
    case True
    with "2.prems"(1) obtain t rest r
      where esc: "decode_escape (c # cs) = Some (t, rest)"
        and r: "decodeURIComponent rest = Inr r" "s = t @ r"
      by (auto simp: decodeURIComponent.simps(2) and_then_eq_Inr_iff split: option.splits)
    from decode_escape_well_formed(2) [OF esc] "2.prems"(2)
    have "\<forall>c \<in> set rest. \<not> is_lead c \<and> \<not> is_trail c"
      by blast
    with "2.IH"(2) [OF _ esc refl r(1)] True have "well_formed r"
      by simp
    with decode_escape_well_formed(1) [OF esc, of r] r(2) show ?thesis
      by simp
  qed
qed

text \<open>
  C15. Escaping the identifier loses nothing: decoding the escaped identifier gives the
  identifier back, for every identifier the encoder accepts, and for the others the
  encoder has already thrown.
\<close>

theorem enc_roundtrip:
  "and_then (encodeURIComponent s) decodeURIComponent =
     (if well_formed s then Inr s else Inl URIMalformed)"
proof (cases "well_formed s")
  case True
  from enc_well_formed [OF this] obtain t where "encodeURIComponent s = Inr t"
    by blast
  with True decode_encode [OF this] show ?thesis
    by simp
next
  case False
  then show ?thesis
    by (simp add: enc_malformed)
qed

lemma enc_inj:
  assumes "encodeURIComponent s = Inr t" and "encodeURIComponent s' = Inr t"
  shows "s = s'"
  using decode_encode [OF assms(1)] decode_encode [OF assms(2)] by simp

subsection \<open>Closed instances\<close>

lemma dec_riot_id: "decodeURIComponent (lit ''Player%23NA1'') = Inr (lit ''Player#NA1'')"
  using enc_riot_id by (rule decode_encode)

lemma dec_astral: "decodeURIComponent (lit ''%F0%9F%98%80'') = Inr [0xD83D, 0xDE00]"
  using enc_astral by (rule decode_encode)

end
