(* ===== verification/Router.thy ===== *)
theory Router
  imports Uri_Decode
begin

text \<open>
  How Express brings a \<^verbatim>\<open>GET\<close> request to a handler registered with \<^verbatim>\<open>app.get(path, ...)\<close>
  (\<^verbatim>\<open>src/server.js\<close>, lines 26, 78 and 133), with the defaults of the application: routing
  is not case sensitive and not strict.

  \<^item> \<open>compile_route\<close> reads a registered path: it is cut at every \<^verbatim>\<open>/\<close>, and a piece that
    starts with \<^verbatim>\<open>:\<close> is a parameter.
  \<^item> \<open>match_pieces\<close> matches the pieces against the segments of a request path: a literal
    piece matches the same segment up to the case of ASCII letters, a parameter matches
    one segment that is not empty, and one \<^verbatim>\<open>/\<close> may follow the last piece.
  \<^item> \<open>route_params\<close> is the match of a whole path: \<open>None\<close> when the route does not match,
    otherwise the parameters, each decoded by \<^verbatim>\<open>decodeURIComponent\<close>, or the exception of
    the decoder, which Express answers with status 400.

  The path is the part of the request target before \<^verbatim>\<open>?\<close>; the query arrives parsed.
  Other methods, the answer to a path that no route matches and the error pages are
  not modelled.
\<close>

datatype piece = Literal jsstring | Parameter

fun split_at :: "code_unit \<Rightarrow> jsstring \<Rightarrow> jsstring list" where
  "split_at sep [] = [[]]"
| "split_at sep (c # cs) =
     (if c = sep then [] # split_at sep cs
      else case split_at sep cs of
             [] \<Rightarrow> [[c]]
           | seg # segs \<Rightarrow> (c # seg) # segs)"

definition ascii_lower :: "code_unit \<Rightarrow> code_unit" where
  "ascii_lower c = (if 65 \<le> c \<and> c \<le> 90 then c + 32 else c)"

definition compile_piece :: "jsstring \<Rightarrow> piece" where
  "compile_piece s = (case s of c # name \<Rightarrow> if c = 58 then Parameter else Literal s | [] \<Rightarrow> Literal s)"

definition compile_route :: "jsstring \<Rightarrow> piece list" where
  "compile_route path = map compile_piece (split_at 47 path)"

fun match_pieces :: "piece list \<Rightarrow> jsstring list \<Rightarrow> jsstring list option" where
  "match_pieces [] [] = Some []"
| "match_pieces [] [s] = (if s = [] then Some [] else None)"
| "match_pieces (Literal l # ps) (s # ss) =
     (if map ascii_lower s = map ascii_lower l then match_pieces ps ss else None)"
| "match_pieces (Parameter # ps) (s # ss) =
     (if s = [] then None else map_option ((#) s) (match_pieces ps ss))"
| "match_pieces ps ss = None"

fun decode_all :: "jsstring list \<Rightarrow> js_error + jsstring list" where
  "decode_all [] = Inr []"
| "decode_all (s # ss) =
     and_then (decodeURIComponent s) (\<lambda>v. and_then (decode_all ss) (\<lambda>vs. Inr (v # vs)))"

definition route_params :: "jsstring \<Rightarrow> jsstring \<Rightarrow> (js_error + jsstring list) option" where
  "route_params registered path =
     map_option decode_all (match_pieces (compile_route registered) (split_at 47 path))"

datatype 'a routed = Routed 'a | BadRequest | NotFound

subsection \<open>Segments\<close>

lemma split_at_not_Nil [simp]: "split_at sep s \<noteq> []"
  by (induction s) (auto split: list.split)

lemma split_at_none: "sep \<notin> set s \<Longrightarrow> split_at sep s = [s]"
  by (induction s) auto

lemma split_at_append:
  "sep \<notin> set a \<Longrightarrow> split_at sep (a @ sep # b) = a # split_at sep b"
  by (induction a) auto

lemma set_split_at: "seg \<in> set (split_at sep s) \<Longrightarrow> set seg \<subseteq> set s"
proof (induction s arbitrary: seg)
  case Nil
  then show ?case by simp
next
  case (Cons c cs)
  obtain x xs where x: "split_at sep cs = x # xs"
    by (cases "split_at sep cs") simp_all
  with Cons.prems have "seg = [] \<or> seg = c # x \<or> seg \<in> set (split_at sep cs)"
    by (auto split: if_splits)
  with Cons.IH [of seg] Cons.IH [of x] x show ?case
    by auto
qed

lemma split_at_no_sep: "seg \<in> set (split_at sep s) \<Longrightarrow> sep \<notin> set seg"
proof (induction s arbitrary: seg)
  case Nil
  then show ?case by simp
next
  case (Cons c cs)
  obtain x xs where x: "split_at sep cs = x # xs"
    by (cases "split_at sep cs") simp_all
  with Cons.prems have "seg = [] \<or> (c \<noteq> sep \<and> seg = c # x) \<or> seg \<in> set (split_at sep cs)"
    by (auto split: if_splits)
  with Cons.IH [of seg] Cons.IH [of x] x show ?case
    by auto
qed

subsection \<open>Matching\<close>

lemma match_pieces_segments:
  "match_pieces ps ss = Some raws \<Longrightarrow> set raws \<subseteq> set ss \<and> [] \<notin> set raws"
  by (induction ps ss arbitrary: raws rule: match_pieces.induct) (auto split: if_splits)

lemma match_pieces_count:
  "match_pieces ps ss = Some raws \<Longrightarrow> length raws = length (filter (\<lambda>p. p = Parameter) ps)"
  by (induction ps ss arbitrary: raws rule: match_pieces.induct) (auto split: if_splits)

lemma decode_all_eq_Inr_iff:
  "decode_all raws = Inr vs \<longleftrightarrow> list_all2 (\<lambda>r v. decodeURIComponent r = Inr v) raws vs"
proof (induction raws arbitrary: vs)
  case Nil
  then show ?case by auto
next
  case (Cons r raws)
  then show ?case
    by (cases vs) (auto simp: and_then_eq_Inr_iff)
qed

text \<open>
  A parameter that a route yields is the decoded form of one segment of the path, which
  is not empty and holds no \<^verbatim>\<open>/\<close>.
\<close>

lemma route_params_Inr:
  assumes "route_params registered path = Some (Inr vs)" and "v \<in> set vs"
  shows "\<exists>seg. decodeURIComponent seg = Inr v \<and> seg \<noteq> [] \<and> set seg \<subseteq> set path \<and> 47 \<notin> set seg"
proof -
  from assms(1) obtain raws
    where raws: "match_pieces (compile_route registered) (split_at 47 path) = Some raws"
      and "decode_all raws = Inr vs"
    by (auto simp: route_params_def)
  then have all: "list_all2 (\<lambda>r v. decodeURIComponent r = Inr v) raws vs"
    by (simp add: decode_all_eq_Inr_iff)
  from assms(2) obtain i where i: "i < length vs" "vs ! i = v"
    by (auto simp: in_set_conv_nth)
  define seg where "seg = raws ! i"
  from all i have seg: "seg \<in> set raws" "decodeURIComponent seg = Inr v"
    by (simp_all add: seg_def list_all2_conv_all_nth)
  with match_pieces_segments [OF raws] have "seg \<in> set (split_at 47 path)" "seg \<noteq> []"
    by auto
  with seg(2) set_split_at [of seg 47 path] split_at_no_sep [of seg 47 path] show ?thesis
    by blast
qed

lemma route_params_well_formed:
  assumes "route_params registered path = Some (Inr vs)"
    and "\<forall>c \<in> set path. \<not> is_lead c \<and> \<not> is_trail c" and "v \<in> set vs"
  shows "well_formed v"
proof -
  from route_params_Inr [OF assms(1,3)] obtain seg
    where "decodeURIComponent seg = Inr v" "set seg \<subseteq> set path"
    by blast
  with assms(2) show ?thesis
    by (intro decode_well_formed [of seg v]) auto
qed

text \<open>
  A route that ends in a parameter matches its literal part followed by one segment, and
  the parameter is that segment decoded.
\<close>

lemma match_pieces_literals:
  assumes "47 \<notin> set t" and "t \<noteq> []"
  shows "match_pieces (map Literal ls @ [Parameter]) (ls @ [t]) = Some [t]"
  using assms by (induction ls) simp_all

lemma decode_all_single:
  "decode_all [s] = and_then (decodeURIComponent s) (\<lambda>v. Inr [v])"
  by (cases "decodeURIComponent s") simp_all

end
