(* ===== verification/Js_Array.thy ===== *)
theory Js_Array
  imports Js_Value Js_Number
begin

text \<open>
  The array methods the handlers call, with callbacks that may throw.

  \<open>js_find\<close> is \<^verbatim>\<open>Array.prototype.find\<close>: the callback runs on the elements in order and
  the search stops at the first element it accepts, or at the first exception.
  \<open>call_find\<close> is the method call \<^verbatim>\<open>v.find(cb)\<close> on any value: only an array has the
  method; reading it from \<^verbatim>\<open>null\<close> or \<^verbatim>\<open>undefined\<close> throws, and on every other value
  the property is missing or not callable.

  \<open>js_slice\<close> is the index arithmetic \<^verbatim>\<open>Array.prototype.slice\<close> and
  \<^verbatim>\<open>String.prototype.slice\<close> share: both arguments are truncated to an integer or an
  infinity, a negative index counts from the end, and both are clamped to the length.
  \<open>call_slice\<close> is the method call on any value; arrays and strings have the method.

  \<open>js_map\<close> is \<^verbatim>\<open>Array.prototype.map\<close>: the callback runs on the elements in order, and
  the first exception ends the call. \<open>call_map\<close> is the method call on any value; only an
  array has the method.
\<close>

fun js_find :: "(jsval \<Rightarrow> js_error + bool) \<Rightarrow> jsval list \<Rightarrow> js_error + jsval" where
  "js_find p [] = Inr JUndefined"
| "js_find p (x # xs) = and_then (p x) (\<lambda>b. if b then Inr x else js_find p xs)"

definition call_find :: "jsval \<Rightarrow> (jsval \<Rightarrow> js_error + bool) \<Rightarrow> js_error + jsval" where
  "call_find v p =
     (case v of
        JArr xs \<Rightarrow> js_find p xs
      | JNull \<Rightarrow> Inl (ReadOfNull (lit ''find''))
      | JUndefined \<Rightarrow> Inl (ReadOfUndefined (lit ''find''))
      | _ \<Rightarrow> Inl (NotAFunction (lit ''find'')))"

definition relative_index :: "nat \<Rightarrow> ext_int \<Rightarrow> nat" where
  "relative_index len r =
     (case r of
        MinusInf \<Rightarrow> 0
      | Finite i \<Rightarrow> if i < 0 then nat (max (int len + i) 0) else min (nat i) len
      | PlusInf \<Rightarrow> len)"

definition js_slice :: "'a list \<Rightarrow> jsnum \<Rightarrow> jsnum \<Rightarrow> 'a list" where
  "js_slice xs start end =
     (let len = length xs;
          k = relative_index len (to_integer_or_infinity start);
          final = relative_index len (to_integer_or_infinity end)
      in take (final - k) (drop k xs))"

definition call_slice :: "jsval \<Rightarrow> jsnum \<Rightarrow> jsnum \<Rightarrow> js_error + jsval" where
  "call_slice v start end =
     (case v of
        JArr xs \<Rightarrow> Inr (JArr (js_slice xs start end))
      | JStr s \<Rightarrow> Inr (JStr (js_slice s start end))
      | JNull \<Rightarrow> Inl (ReadOfNull (lit ''slice''))
      | JUndefined \<Rightarrow> Inl (ReadOfUndefined (lit ''slice''))
      | _ \<Rightarrow> Inl (NotAFunction (lit ''slice'')))"

fun js_map :: "(jsval \<Rightarrow> js_error + jsval) \<Rightarrow> jsval list \<Rightarrow> js_error + jsval list" where
  "js_map f [] = Inr []"
| "js_map f (x # xs) = and_then (f x) (\<lambda>y. and_then (js_map f xs) (\<lambda>ys. Inr (y # ys)))"

definition call_map :: "jsval \<Rightarrow> (jsval \<Rightarrow> js_error + jsval) \<Rightarrow> js_error + jsval" where
  "call_map v f =
     (case v of
        JArr xs \<Rightarrow> and_then (js_map f xs) (\<lambda>ys. Inr (JArr ys))
      | JNull \<Rightarrow> Inl (ReadOfNull (lit ''map''))
      | JUndefined \<Rightarrow> Inl (ReadOfUndefined (lit ''map''))
      | _ \<Rightarrow> Inl (NotAFunction (lit ''map'')))"

lemmas array_defs [js_defs] =
  relative_index_def js_slice_def call_slice_def call_map_def call_find_def

subsection \<open>\<^verbatim>\<open>find\<close>\<close>

lemma js_find_eq:
  "js_find p xs =
     (case dropWhile (\<lambda>x. p x = Inr False) xs of
        [] \<Rightarrow> Inr JUndefined
      | x # _ \<Rightarrow> (case p x of Inl e \<Rightarrow> Inl e | Inr _ \<Rightarrow> Inr x))"
  by (induction xs) (auto split: sum.splits)

lemma js_find_total:
  "(\<And>x. x \<in> set xs \<Longrightarrow> p x = Inr (q x)) \<Longrightarrow>
   js_find p xs = Inr (case List.find q xs of None \<Rightarrow> JUndefined | Some x \<Rightarrow> x)"
  by (induction xs) auto

lemma js_find_Inr_cases:
  assumes "js_find p xs = Inr r"
  shows "(r = JUndefined \<and> (\<forall>x \<in> set xs. p x = Inr False)) \<or>
         (\<exists>ys zs. xs = ys @ r # zs \<and> p r = Inr True \<and> (\<forall>x \<in> set ys. p x = Inr False))"
  using assms
proof (induction xs)
  case Nil
  then show ?case by simp
next
  case (Cons x xs)
  from Cons.prems obtain b where b: "p x = Inr b"
    by (auto simp: and_then_eq_Inr_iff)
  show ?case
  proof (cases b)
    case True
    with b Cons.prems have "r = x" by simp
    with b True show ?thesis by (intro disjI2 exI [of _ "[]"] exI [of _ xs]) auto
  next
    case False
    with b Cons.prems have "js_find p xs = Inr r" by simp
    from Cons.IH [OF this] show ?thesis
    proof
      assume "r = JUndefined \<and> (\<forall>x \<in> set xs. p x = Inr False)"
      with b False show ?thesis by auto
    next
      assume "\<exists>ys zs. xs = ys @ r # zs \<and> p r = Inr True \<and> (\<forall>x \<in> set ys. p x = Inr False)"
      then obtain ys zs where "xs = ys @ r # zs" "p r = Inr True" "\<forall>x \<in> set ys. p x = Inr False"
        by blast
      with b False show ?thesis
        by (intro disjI2 exI [of _ "x # ys"] exI [of _ zs]) auto
    qed
  qed
qed

lemma js_find_Inl_cases:
  assumes "js_find p xs = Inl e"
  shows "\<exists>ys x zs. xs = ys @ x # zs \<and> p x = Inl e \<and> (\<forall>y \<in> set ys. p y = Inr False)"
  using assms
proof (induction xs)
  case Nil
  then show ?case by simp
next
  case (Cons x xs)
  show ?case
  proof (cases "p x")
    case (Inl e')
    with Cons.prems have "e' = e" by simp
    with Inl show ?thesis by (intro exI [of _ "[]"] exI [of _ x] exI [of _ xs]) auto
  next
    case (Inr b)
    with Cons.prems have nb: "\<not> b" and "js_find p xs = Inl e"
      by (auto split: if_splits)
    from Cons.IH [OF this(2)] obtain ys y zs
      where "xs = ys @ y # zs" "p y = Inl e" "\<forall>y \<in> set ys. p y = Inr False"
      by blast
    with Inr nb show ?thesis
      by (intro exI [of _ "x # ys"] exI [of _ y] exI [of _ zs]) auto
  qed
qed

lemma js_find_member_or_undefined:
  "js_find p xs = Inr r \<Longrightarrow> r = JUndefined \<or> r \<in> set xs"
  by (auto dest!: js_find_Inr_cases)

lemma call_find_simps [simp]:
  "call_find (JArr xs) p = js_find p xs"
  "call_find JNull p = Inl (ReadOfNull (lit ''find''))"
  "call_find JUndefined p = Inl (ReadOfUndefined (lit ''find''))"
  "call_find (JBool b) p = Inl (NotAFunction (lit ''find''))"
  "call_find (JNum n) p = Inl (NotAFunction (lit ''find''))"
  "call_find (JStr s) p = Inl (NotAFunction (lit ''find''))"
  "call_find (JObj kvs) p = Inl (NotAFunction (lit ''find''))"
  by (simp_all add: call_find_def)

subsection \<open>\<^verbatim>\<open>slice\<close>\<close>

lemma relative_index_le: "relative_index len r \<le> len"
  by (cases r) (auto simp: relative_index_def)

lemma relative_index_simps [simp]:
  "relative_index len MinusInf = 0"
  "relative_index len PlusInf = len"
  "relative_index len (Finite (int n)) = min n len"
  "0 < n \<Longrightarrow> relative_index len (Finite (- int n)) = len - n"
  by (auto simp: relative_index_def)

lemma js_slice_from_zero:
  "js_slice xs (Fin 0) end = take (relative_index (length xs) (to_integer_or_infinity end)) xs"
  using to_integer_or_infinity_simps(5) [of 0] relative_index_simps(3) [of "length xs" 0]
  by (simp add: js_slice_def)

lemma js_slice_nat [simp]: "js_slice xs (Fin 0) (Fin (of_nat n)) = take n xs"
  by (simp add: js_slice_from_zero min_def)

lemma js_slice_minus_nat [simp]:
  "0 < n \<Longrightarrow> js_slice xs (Fin 0) (Fin (- of_nat n)) = take (length xs - n) xs"
  by (simp add: js_slice_from_zero)

lemma js_slice_infinite [simp]:
  "js_slice xs (Fin 0) PosInf = xs"
  "js_slice xs (Fin 0) NegInf = []"
  "js_slice xs (Fin 0) NaN = []"
  using relative_index_simps(3) [of "length xs" 0] by (simp_all add: js_slice_from_zero)

text \<open>
  Among ends that are not negative a later end selects more: \<^verbatim>\<open>slice(0, a)\<close> is a prefix
  of \<^verbatim>\<open>slice(0, b)\<close> when \<open>a\<close> truncates to at most what \<open>b\<close> truncates to. A negative end
  counts from the end of the list and may select more than a positive one.
\<close>

lemma relative_index_mono:
  "Finite 0 \<le> r \<Longrightarrow> r \<le> r' \<Longrightarrow> relative_index len r \<le> relative_index len r'"
  by (cases r; cases r') (auto simp: relative_index_def)

lemma js_slice_mono:
  assumes "Finite 0 \<le> to_integer_or_infinity a"
    and "to_integer_or_infinity a \<le> to_integer_or_infinity b"
  shows "\<exists>ys. js_slice xs (Fin 0) b = js_slice xs (Fin 0) a @ ys"
proof -
  define n m where nm: "n = relative_index (length xs) (to_integer_or_infinity a)"
    "m = relative_index (length xs) (to_integer_or_infinity b)"
  with assms have "n \<le> m"
    by (simp add: relative_index_mono)
  then have "take m xs = take n xs @ take (m - n) (drop n xs)"
    using take_add [of n "m - n" xs] by simp
  then show ?thesis
    by (auto simp: js_slice_from_zero nm)
qed

lemma length_js_slice: "length (js_slice xs start end) \<le> length xs"
  by (simp add: js_slice_def Let_def)

lemma set_js_slice: "set (js_slice xs start end) \<subseteq> set xs"
  unfolding js_slice_def Let_def
  by (meson set_take_subset set_drop_subset subset_trans)

lemma call_slice_simps [simp]:
  "call_slice (JArr xs) a b = Inr (JArr (js_slice xs a b))"
  "call_slice (JStr s) a b = Inr (JStr (js_slice s a b))"
  "call_slice JNull a b = Inl (ReadOfNull (lit ''slice''))"
  "call_slice JUndefined a b = Inl (ReadOfUndefined (lit ''slice''))"
  "call_slice (JBool c) a b = Inl (NotAFunction (lit ''slice''))"
  "call_slice (JNum n) a b = Inl (NotAFunction (lit ''slice''))"
  "call_slice (JObj kvs) a b = Inl (NotAFunction (lit ''slice''))"
  by (simp_all add: call_slice_def)

subsection \<open>\<^verbatim>\<open>map\<close>\<close>

lemma js_map_total: "(\<And>x. x \<in> set xs \<Longrightarrow> f x = Inr (g x)) \<Longrightarrow> js_map f xs = Inr (map g xs)"
  by (induction xs) auto

lemma js_map_eq_Inr_iff: "js_map f xs = Inr ys \<longleftrightarrow> list_all2 (\<lambda>x y. f x = Inr y) xs ys"
proof (induction xs arbitrary: ys)
  case Nil
  then show ?case by auto
next
  case (Cons x xs)
  then show ?case
    by (cases ys) (auto simp: and_then_eq_Inr_iff)
qed

lemma js_map_length: "js_map f xs = Inr ys \<Longrightarrow> length ys = length xs"
  by (simp add: js_map_eq_Inr_iff list_all2_lengthD)

lemma js_map_append:
  "js_map f (xs @ ys) =
     and_then (js_map f xs) (\<lambda>us. and_then (js_map f ys) (\<lambda>vs. Inr (us @ vs)))"
  by (induction xs) (auto simp: and_then_def split: sum.splits)

lemma js_map_eq_Inl_iff:
  "js_map f xs = Inl e \<longleftrightarrow>
     (\<exists>ys x zs. xs = ys @ x # zs \<and> f x = Inl e \<and> (\<forall>y \<in> set ys. \<exists>v. f y = Inr v))"
proof
  assume "js_map f xs = Inl e"
  then show "\<exists>ys x zs. xs = ys @ x # zs \<and> f x = Inl e \<and> (\<forall>y \<in> set ys. \<exists>v. f y = Inr v)"
  proof (induction xs)
    case Nil
    then show ?case by simp
  next
    case (Cons a xs)
    show ?case
    proof (cases "f a")
      case (Inl e')
      with Cons.prems show ?thesis
        by (intro exI [of _ "[]"] exI [of _ a] exI [of _ xs]) simp
    next
      case (Inr v)
      with Cons.prems have "js_map f xs = Inl e"
        by (auto simp: and_then_eq_Inl_iff)
      from Cons.IH [OF this] obtain ys x zs
        where "xs = ys @ x # zs" "f x = Inl e" "\<forall>y \<in> set ys. \<exists>v. f y = Inr v"
        by blast
      with Inr show ?thesis
        by (intro exI [of _ "a # ys"] exI [of _ x] exI [of _ zs]) simp
    qed
  qed
next
  assume "\<exists>ys x zs. xs = ys @ x # zs \<and> f x = Inl e \<and> (\<forall>y \<in> set ys. \<exists>v. f y = Inr v)"
  then obtain ys x zs
    where xs: "xs = ys @ x # zs" and x: "f x = Inl e" and ys: "\<forall>y \<in> set ys. \<exists>v. f y = Inr v"
    by blast
  from ys have "js_map f ys = Inr (map (\<lambda>y. projr (f y)) ys)"
    by (intro js_map_total) auto
  with xs x show "js_map f xs = Inl e"
    by (simp add: js_map_append)
qed

lemma call_map_simps [simp]:
  "call_map (JArr xs) f = and_then (js_map f xs) (\<lambda>ys. Inr (JArr ys))"
  "call_map JNull f = Inl (ReadOfNull (lit ''map''))"
  "call_map JUndefined f = Inl (ReadOfUndefined (lit ''map''))"
  "call_map (JBool b) f = Inl (NotAFunction (lit ''map''))"
  "call_map (JNum n) f = Inl (NotAFunction (lit ''map''))"
  "call_map (JStr s) f = Inl (NotAFunction (lit ''map''))"
  "call_map (JObj kvs) f = Inl (NotAFunction (lit ''map''))"
  by (simp_all add: call_map_def)

end
