(* ===== verification/Schema.thy ===== *)
theory Schema
  imports Js_Array
begin

text \<open>
  Shapes of values: the types of the payloads the program reads and of the bodies it
  sends (\<^verbatim>\<open>spec.md\<close>, sections 3 and 6), and the typing rules of the operators of
  \<open>Js_Value\<close> and \<open>Js_Array\<close>.

  \<^item> \<open>shape\<close>: \<^verbatim>\<open>string\<close>, \<^verbatim>\<open>number\<close>, \<^verbatim>\<open>bool\<close>, \<^verbatim>\<open>null\<close>, a missing member (\<open>Absent\<close>), a
    union, a list, an object with at least the listed members (\<open>Object\<close>) and an object
    with the listed members and no other (\<open>Sealed\<close>). A number is a finite number, as
    in JSON.
  \<^item> \<open>conforms\<close> decides whether a value has a shape; \<open>maybe a\<close> is \<open>a\<close>, \<^verbatim>\<open>null\<close> or
    missing.
  \<^item> \<open>sendable\<close> holds of the shapes that \<^verbatim>\<open>JSON.stringify\<close> preserves: no list may hold
    a missing element, which would be written as \<^verbatim>\<open>null\<close>.

  The lemmas are the typing rules of a property read, of \<^verbatim>\<open>?.\<close>, \<^verbatim>\<open>||\<close>, \<^verbatim>\<open>find\<close>, \<^verbatim>\<open>slice\<close>
  and \<^verbatim>\<open>map\<close>, and the preservation of a sendable shape by \<open>stringify\<close>.
\<close>

datatype shape =
    Anything
  | Absent
  | Null
  | Boolean
  | Number
  | Text
  | Either shape shape
  | ListOf shape
  | Object "(jsstring \<times> shape) list"
  | Sealed "(jsstring \<times> shape) list"

fun conforms :: "shape \<Rightarrow> jsval \<Rightarrow> bool" where
  "conforms Anything v = True"
| "conforms Absent v = (v = JUndefined)"
| "conforms Null v = (v = JNull)"
| "conforms Boolean v = (case v of JBool b \<Rightarrow> True | _ \<Rightarrow> False)"
| "conforms Number v = (case v of JNum (Fin q) \<Rightarrow> True | _ \<Rightarrow> False)"
| "conforms Text v = (case v of JStr s \<Rightarrow> True | _ \<Rightarrow> False)"
| "conforms (Either a b) v = (conforms a v \<or> conforms b v)"
| "conforms (ListOf a) v = (case v of JArr xs \<Rightarrow> list_all (conforms a) xs | _ \<Rightarrow> False)"
| "conforms (Object fs) v =
     (case v of
        JObj kvs \<Rightarrow> list_all (\<lambda>(k, a). conforms a (member v k)) fs
      | _ \<Rightarrow> False)"
| "conforms (Sealed fs) v =
     (case v of
        JObj kvs \<Rightarrow>
          list_all (\<lambda>(k, a). conforms a (member v k)) fs \<and>
          list_all (\<lambda>k. k \<in> set (map fst fs)) (map fst kvs)
      | _ \<Rightarrow> False)"

abbreviation maybe :: "shape \<Rightarrow> shape" where
  "maybe a \<equiv> Either a (Either Null Absent)"

fun sendable :: "shape \<Rightarrow> bool" where
  "sendable (Either a b) = (sendable a \<and> sendable b)"
| "sendable (ListOf a) = (sendable a \<and> \<not> conforms a JUndefined)"
| "sendable (Object fs) = list_all (\<lambda>(k, a). sendable a) fs"
| "sendable (Sealed fs) = list_all (\<lambda>(k, a). sendable a) fs"
| "sendable a = True"

subsection \<open>Reading a shape\<close>

lemma conforms_maybe:
  "conforms (maybe a) v \<longleftrightarrow> conforms a v \<or> nullish v"
  by (auto simp: nullish_def)

lemma conforms_Boolean_iff: "conforms Boolean v \<longleftrightarrow> (\<exists>b. v = JBool b)"
  by (cases v) simp_all

lemma conforms_Number_iff: "conforms Number v \<longleftrightarrow> (\<exists>q. v = JNum (Fin q))"
  by (cases v) (simp_all split: jsnum.split)

lemma conforms_Text_iff: "conforms Text v \<longleftrightarrow> (\<exists>s. v = JStr s)"
  by (cases v) simp_all

lemma conforms_ListOf_iff:
  "conforms (ListOf a) v \<longleftrightarrow> (\<exists>xs. v = JArr xs \<and> (\<forall>x \<in> set xs. conforms a x))"
  by (cases v) (simp_all add: list_all_iff)

lemma conforms_Object_iff:
  "conforms (Object fs) v \<longleftrightarrow>
     (\<exists>kvs. v = JObj kvs) \<and> (\<forall>(k, a) \<in> set fs. conforms a (member v k))"
  by (cases v) (simp_all add: list_all_iff)

lemma conforms_Sealed_iff:
  "conforms (Sealed fs) v \<longleftrightarrow>
     (\<exists>kvs. v = JObj kvs \<and> fst ` set kvs \<subseteq> fst ` set fs) \<and>
     (\<forall>(k, a) \<in> set fs. conforms a (member v k))"
  by (cases v) (auto simp: list_all_iff)

declare conforms.simps(4-6,8-10) [simp del]

lemma conforms_atoms [simp]:
  "conforms Boolean (JBool b)" "conforms Number (JNum (Fin q))" "conforms Text (JStr s)"
  "\<not> conforms Boolean JUndefined" "\<not> conforms Boolean JNull"
  "\<not> conforms Number JUndefined" "\<not> conforms Number JNull"
  "\<not> conforms Text JUndefined" "\<not> conforms Text JNull"
  "\<not> conforms (ListOf a) JUndefined" "\<not> conforms (ListOf a) JNull"
  "\<not> conforms (Object fs) JUndefined" "\<not> conforms (Object fs) JNull"
  "\<not> conforms (Sealed fs) JUndefined" "\<not> conforms (Sealed fs) JNull"
  by (simp_all add: conforms.simps(4-6,8-10))

lemma conforms_JArr [simp]: "conforms (ListOf a) (JArr xs) \<longleftrightarrow> list_all (conforms a) xs"
  by (simp add: conforms.simps(8))

lemma conforms_JObj [simp]:
  "conforms (Object fs) (JObj kvs) \<longleftrightarrow> list_all (\<lambda>(k, a). conforms a (member (JObj kvs) k)) fs"
  "conforms (Sealed fs) (JObj kvs) \<longleftrightarrow>
     list_all (\<lambda>(k, a). conforms a (member (JObj kvs) k)) fs \<and>
     list_all (\<lambda>k. k \<in> set (map fst fs)) (map fst kvs)"
  by (simp_all add: conforms.simps(4-6,8-10))

lemma conforms_Sealed_Object: "conforms (Sealed fs) v \<Longrightarrow> conforms (Object fs) v"
  by (auto simp: conforms_Sealed_iff conforms_Object_iff)

lemma conforms_not_nullish:
  "conforms a v \<Longrightarrow> \<not> conforms a JUndefined \<Longrightarrow> \<not> conforms a JNull \<Longrightarrow> \<not> nullish v"
  by (auto simp: nullish_def)

lemma Object_not_nullish [simp]: "conforms (Object fs) v \<Longrightarrow> \<not> nullish v"
  by (auto simp: conforms_Object_iff)

lemma ListOf_not_nullish [simp]: "conforms (ListOf a) v \<Longrightarrow> \<not> nullish v"
  by (auto simp: conforms_ListOf_iff)

subsection \<open>Typing rules\<close>

text \<open>
  A property read \<^verbatim>\<open>v.k\<close> on an object with a member \<open>k\<close> of shape \<open>a\<close> returns a value
  of shape \<open>a\<close> and does not throw; \<^verbatim>\<open>v?.k\<close> reads the same member and yields
  \<^verbatim>\<open>undefined\<close> when \<open>v\<close> is \<^verbatim>\<open>null\<close> or missing.
\<close>

lemma member_Object:
  "conforms (Object fs) v \<Longrightarrow> (k, a) \<in> set fs \<Longrightarrow> conforms a (member v k)"
  by (auto simp: conforms_Object_iff)

lemma get_prop_Object:
  "conforms (Object fs) v \<Longrightarrow> (k, a) \<in> set fs \<Longrightarrow>
   \<exists>w. get_prop v k = Inr w \<and> conforms a w"
  by (simp add: get_prop_not_nullish member_Object)

lemma member_maybe_Object:
  assumes "conforms (maybe (Object fs)) v" and "(k, a) \<in> set fs" and "conforms a JUndefined"
  shows "conforms a (member v k)"
proof (cases "nullish v")
  case True
  with assms(3) show ?thesis by simp
next
  case False
  with assms(1) have "conforms (Object fs) v" by (auto simp: nullish_def)
  from this assms(2) show ?thesis by (rule member_Object)
qed

lemma opt_prop_maybe_Object:
  "conforms (maybe (Object fs)) v \<Longrightarrow> (k, a) \<in> set fs \<Longrightarrow> conforms a JUndefined \<Longrightarrow>
   conforms a (opt_prop v k)"
  by (simp only: opt_prop_member member_maybe_Object)

text \<open>
  An index into a list of \<open>a\<close> yields an \<open>a\<close> or nothing; \<^verbatim>\<open>length\<close> yields a number.
\<close>

lemma member_ListOf_index:
  "conforms (ListOf a) v \<Longrightarrow> index_of_key k = Some i \<Longrightarrow>
   conforms (Either a Absent) (member v k)"
  by (auto simp: conforms_ListOf_iff)

text \<open>
  \<^verbatim>\<open>v || d\<close> has the shape of \<open>d\<close> when \<open>v\<close> may be missing: a \<^verbatim>\<open>null\<close> or a missing \<open>v\<close> is
  falsy and gives way to the default.
\<close>

lemma js_or_maybe:
  "conforms (maybe a) v \<Longrightarrow> conforms a d \<Longrightarrow> conforms a (js_or v d)"
  by (auto simp: js_or_def dest: nullish_not_truthy)

lemma js_or_same: "conforms a v \<Longrightarrow> conforms a d \<Longrightarrow> conforms a (js_or v d)"
  by (simp add: js_or_def)

lemma conforms_empty_Object:
  "conforms (Object fs) (JObj []) \<longleftrightarrow> (\<forall>(k, a) \<in> set fs. conforms a JUndefined)"
  by (simp add: list_all_iff)

text \<open>
  \<^verbatim>\<open>find\<close>, \<^verbatim>\<open>slice\<close> and \<^verbatim>\<open>map\<close> on a list of \<open>a\<close>: none throws when the callback does not,
  \<^verbatim>\<open>find\<close> yields an element or nothing, \<^verbatim>\<open>slice\<close> a list of \<open>a\<close>, and \<^verbatim>\<open>map\<close> a list of the
  shape of the callback's results.
\<close>

lemma call_find_ListOf:
  assumes "conforms (ListOf a) v" and "\<And>x. conforms a x \<Longrightarrow> \<exists>b. p x = Inr b"
  shows "\<exists>w. call_find v p = Inr w \<and> conforms (Either a Absent) w"
proof -
  from assms(1) obtain xs where v: "v = JArr xs" and xs: "\<forall>x \<in> set xs. conforms a x"
    by (auto simp: conforms_ListOf_iff)
  from xs assms(2) have "\<forall>x \<in> set xs. p x = Inr (projr (p x))"
    by (metis sum.sel(2))
  then have "js_find p xs =
      Inr (case List.find (\<lambda>x. projr (p x)) xs of None \<Rightarrow> JUndefined | Some x \<Rightarrow> x)"
    by (intro js_find_total) simp
  with v xs show ?thesis
    by (auto simp: call_find_def find_Some_iff split: option.split)
qed

lemma call_slice_ListOf:
  assumes "conforms (ListOf a) v"
  shows "\<exists>w. call_slice v start end = Inr w \<and> conforms (ListOf a) w"
proof -
  from assms obtain xs where v: "v = JArr xs" and xs: "\<forall>x \<in> set xs. conforms a x"
    by (auto simp: conforms_ListOf_iff)
  from xs set_js_slice [of xs start "end"] have "\<forall>x \<in> set (js_slice xs start end). conforms a x"
    by blast
  with v show ?thesis
    by (simp add: call_slice_def list_all_iff)
qed

lemma call_map_ListOf:
  assumes "conforms (ListOf a) v" and "\<And>x. conforms a x \<Longrightarrow> \<exists>y. f x = Inr y \<and> conforms b y"
  shows "\<exists>w. call_map v f = Inr w \<and> conforms (ListOf b) w"
proof -
  from assms(1) obtain xs where v: "v = JArr xs" and xs: "\<forall>x \<in> set xs. conforms a x"
    by (auto simp: conforms_ListOf_iff)
  from xs assms(2) have each: "\<forall>x \<in> set xs. f x = Inr (projr (f x)) \<and> conforms b (projr (f x))"
    by (metis sum.sel(2))
  then have "js_map f xs = Inr (map (\<lambda>x. projr (f x)) xs)"
    by (intro js_map_total) simp
  with v each show ?thesis
    by (simp add: call_map_def conforms_ListOf_iff)
qed

subsection \<open>What \<^verbatim>\<open>res.json\<close> sends has the shape of what it is given\<close>

lemma member_stringify:
  assumes "distinct (map fst kvs)"
  shows "member (JObj (keep_defined stringify kvs)) k =
         (case stringify (member (JObj kvs) k) of None \<Rightarrow> JUndefined | Some y \<Rightarrow> y)"
  using assms by (auto simp: map_of_keep_defined split: option.splits bind_splits)

lemma distinct_keys_member_JObj:
  "distinct_keys (JObj kvs) \<Longrightarrow> distinct_keys (member (JObj kvs) k)"
  by (rule distinct_keys_member)

lemma stringify_member_conforms:
  assumes "distinct_keys (JObj kvs)" and "conforms a (member (JObj kvs) k)"
    and "\<And>v w. distinct_keys v \<Longrightarrow> conforms a v \<Longrightarrow> stringify v = Some w \<Longrightarrow> conforms a w"
  shows "conforms a (member (JObj (keep_defined stringify kvs)) k)"
proof (cases "stringify (member (JObj kvs) k)")
  case None
  with assms(1,2) show ?thesis
    by (simp add: member_stringify del: member.simps)
next
  case (Some y)
  from assms(3) [OF distinct_keys_member_JObj [OF assms(1)] assms(2) Some] assms(1) Some
  show ?thesis
    by (simp add: member_stringify del: member.simps)
qed

lemma stringify_fields_conform:
  assumes "distinct_keys (JObj kvs)"
    and "list_all (\<lambda>(k, a). conforms a (member (JObj kvs) k)) fs"
    and "list_all (\<lambda>(k, a). sendable a) fs"
    and "\<And>x a v w. x \<in> set fs \<Longrightarrow> a \<in> Basic_BNFs.snds x \<Longrightarrow> sendable a \<Longrightarrow>
           distinct_keys v \<Longrightarrow> conforms a v \<Longrightarrow> stringify v = Some w \<Longrightarrow> conforms a w"
  shows "list_all (\<lambda>(k, a). conforms a (member (JObj (keep_defined stringify kvs)) k)) fs"
  unfolding list_all_iff
proof (intro ballI, clarify)
  fix k a
  assume field: "(k, a) \<in> set fs"
  with assms(2,3) have member: "conforms a (member (JObj kvs) k)" and a: "sendable a"
    by (auto simp: list_all_iff)
  from assms(1) member show "conforms a (member (JObj (keep_defined stringify kvs)) k)"
    by (rule stringify_member_conforms) (rule assms(4) [OF field _ a], simp)
qed

lemma stringify_elements_conform:
  assumes "list_all distinct_keys xs" and "list_all (conforms a) xs"
    and "\<not> conforms a JUndefined"
    and "\<And>v w. distinct_keys v \<Longrightarrow> conforms a v \<Longrightarrow> stringify v = Some w \<Longrightarrow> conforms a w"
  shows "list_all (conforms a) (map (\<lambda>x. case stringify x of None \<Rightarrow> JNull | Some y \<Rightarrow> y) xs)"
  unfolding list_all_iff
proof (intro ballI, clarsimp)
  fix x
  assume "x \<in> set xs"
  with assms(1,2,3) have x: "distinct_keys x" "conforms a x" "x \<noteq> JUndefined"
    by (auto simp: list_all_iff)
  then obtain y where "stringify x = Some y"
    by (cases "stringify x") simp_all
  with assms(4) [OF x(1,2)] show "conforms a (case stringify x of None \<Rightarrow> JNull | Some y \<Rightarrow> y)"
    by simp
qed

lemma keys_keep_defined:
  assumes "list_all (\<lambda>k. k \<in> fst ` set fs) (map fst kvs)"
  shows "list_all (\<lambda>k. k \<in> fst ` set fs) (map fst (keep_defined h kvs))"
proof -
  from assms have "fst ` set kvs \<subseteq> fst ` set fs"
    by (auto simp: list_all_iff)
  with fst_set_keep_defined [of h kvs] have "fst ` set (keep_defined h kvs) \<subseteq> fst ` set fs"
    by (rule order_trans)
  then show ?thesis
    by (auto simp: list_all_iff)
qed

text \<open>
  \<^verbatim>\<open>JSON.stringify\<close> preserves every sendable shape: what \<^verbatim>\<open>res.json\<close> writes for a value
  of shape \<open>a\<close> has shape \<open>a\<close>. A missing member stays missing, a member that is present
  keeps its shape, and no member is added.
\<close>

lemma stringify_conforms:
  assumes "sendable a" and "distinct_keys v" and "conforms a v" and "stringify v = Some w"
  shows "conforms a w"
  using assms
proof (induction a arbitrary: v w)
  case (ListOf a)
  from ListOf.prems(3) obtain xs where v: "v = JArr xs"
    by (auto simp: conforms_ListOf_iff)
  from ListOf.prems(1) have a: "sendable a" "\<not> conforms a JUndefined"
    by simp_all
  have "list_all (conforms a) (map (\<lambda>x. case stringify x of None \<Rightarrow> JNull | Some y \<Rightarrow> y) xs)"
  proof (rule stringify_elements_conform)
    from ListOf.prems(2,3) v show "list_all distinct_keys xs" "list_all (conforms a) xs"
      by simp_all
  qed (rule a(2), rule ListOf.IH [OF a(1)])
  with v ListOf.prems(4) show ?case
    by auto
next
  case (Object fs)
  from Object.prems(3) obtain kvs where v: "v = JObj kvs"
    by (auto simp: conforms_Object_iff)
  have "list_all (\<lambda>(k, a). conforms a (member (JObj (keep_defined stringify kvs)) k)) fs"
  proof (rule stringify_fields_conform)
    from Object.prems v show "distinct_keys (JObj kvs)"
      "list_all (\<lambda>(k, a). conforms a (member (JObj kvs) k)) fs"
      "list_all (\<lambda>(k, a). sendable a) fs"
      by simp_all
  qed (rule Object.IH)
  with v Object.prems(4) show ?case
    by auto
next
  case (Sealed fs)
  from Sealed.prems(3) obtain kvs where v: "v = JObj kvs"
    by (auto simp: conforms_Sealed_iff)
  have "list_all (\<lambda>(k, a). conforms a (member (JObj (keep_defined stringify kvs)) k)) fs"
  proof (rule stringify_fields_conform)
    from Sealed.prems v show "distinct_keys (JObj kvs)"
      "list_all (\<lambda>(k, a). conforms a (member (JObj kvs) k)) fs"
      "list_all (\<lambda>(k, a). sendable a) fs"
      by simp_all
  qed (rule Sealed.IH)
  with v Sealed.prems(3,4) show ?case
    by (auto simp: keys_keep_defined)
qed (auto simp: conforms_Boolean_iff conforms_Number_iff conforms_Text_iff)

end
