(* ===== verification/Upstream.thy ===== *)
theory Upstream
  imports Js_Value Uri
begin

text \<open>
  The environment of a handler and the part both handlers share
  (\<^verbatim>\<open>src/server.js\<close>, lines 16 to 23, 34 to 45 and 68 to 74).

  \<^item> \<open>runtime\<close>: the two environment variables the program reads, and the text the
    JavaScript engine gives to its built-in exceptions (\<open>describe\<close>); the program copies
    that text into the body of a 500 answer and never inspects it.
  \<^item> \<open>fetch_result\<close>: what \<^verbatim>\<open>await fetch(url, {headers})\<close> yields. A resolved response
    carries its status and the outcome of reading its body as text and as JSON; each
    read may reject. A \<open>fetcher\<close> maps the URL and the headers to that result, so a
    handler is a function of the upstream's behaviour.
  \<^item> \<open>effect\<close>: the observable calls of the program besides its answers, in order:
    console output, the outbound request, and the call that opens the port.
  \<^item> \<open>http_response\<close>: the status and the JSON body \<^verbatim>\<open>res.status(s).json(v)\<close> sends.
  \<^item> \<open>call_tracker\<close> is the block from \<^verbatim>\<open>fetch\<close> to \<^verbatim>\<open>response.json()\<close>: it yields the
    parsed payload, or the answer that forwards an upstream error, or the exception.
    \<open>catching\<close> is the \<^verbatim>\<open>catch\<close> block.
\<close>

record runtime =
  trn_api_key :: "jsstring option"
  port_var :: "jsstring option"
  describe :: "js_error \<Rightarrow> jsstring"

record upstream_response =
  up_status :: nat
  up_text :: "js_error + jsstring"
  up_json :: "js_error + jsval"

datatype fetch_result = FetchRejected js_error | FetchResolved upstream_response

type_synonym fetcher = "jsstring \<Rightarrow> jsval \<Rightarrow> fetch_result"

record http_response =
  res_status :: nat
  res_body :: "jsval option"

datatype log_arg = LogText jsstring | LogError js_error

datatype effect =
    ConsoleLog jsstring
  | ConsoleError jsstring log_arg
  | Fetch jsstring jsval
  | Listen jsval

datatype fetched = Payload jsval | Reply http_response

type_synonym 'a action = "effect list \<times> (js_error + 'a)"

definition TRACKER_API_BASE :: jsstring where
  "TRACKER_API_BASE = lit ''https://api.tracker.gg/api/v2/valorant/standard''"

definition env_var :: "jsstring option \<Rightarrow> jsval" where
  "env_var x = (case x of None \<Rightarrow> JUndefined | Some s \<Rightarrow> JStr s)"

definition getHeaders :: "runtime \<Rightarrow> jsval" where
  "getHeaders rt =
     JObj [(lit ''TRN-Api-Key'', env_var (trn_api_key rt)),
           (lit ''Accept'', JStr (lit ''application/json'')),
           (lit ''User-Agent'', JStr (lit ''valorant-tracker-app/1.0''))]"

fun show_nat :: "nat \<Rightarrow> jsstring" where
  "show_nat n =
     (if n < 10 then [digit_char n]
      else show_nat (n div 10) @ [digit_char (n mod 10)])"

definition response_ok :: "upstream_response \<Rightarrow> bool" where
  "response_ok r \<longleftrightarrow> 200 \<le> up_status r \<and> up_status r < 300"

definition res_json :: "nat \<Rightarrow> jsval \<Rightarrow> http_response" where
  "res_json st v = \<lparr>res_status = st, res_body = stringify v\<rparr>"

definition error_message :: "runtime \<Rightarrow> js_error \<Rightarrow> jsstring" where
  "error_message rt e = (case e of Rejected m \<Rightarrow> m | _ \<Rightarrow> describe rt e)"

definition upstream_error :: "nat \<Rightarrow> jsstring \<Rightarrow> http_response" where
  "upstream_error st errorText =
     res_json st
       (JObj [(lit ''error'', JStr (lit ''Tracker API error: '' @ show_nat st)),
              (lit ''details'', JStr errorText)])"

definition internal_error :: "runtime \<Rightarrow> js_error \<Rightarrow> http_response" where
  "internal_error rt e =
     res_json 500
       (JObj [(lit ''error'', JStr (lit ''Internal server error'')),
              (lit ''message'', JStr (error_message rt e))])"

definition call_tracker :: "runtime \<Rightarrow> fetcher \<Rightarrow> jsstring \<Rightarrow> fetched action" where
  "call_tracker rt fetch url =
     (let sent = Fetch url (getHeaders rt) in
      case fetch url (getHeaders rt) of
        FetchRejected e \<Rightarrow> ([sent], Inl e)
      | FetchResolved response \<Rightarrow>
          if \<not> response_ok response then
            (case up_text response of
               Inl e \<Rightarrow> ([sent], Inl e)
             | Inr errorText \<Rightarrow>
                 ([sent,
                   ConsoleError (lit ''Tracker API error: '' @ show_nat (up_status response))
                     (LogText errorText)],
                  Inr (Reply (upstream_error (up_status response) errorText))))
          else
            (case up_json response of
               Inl e \<Rightarrow> ([sent], Inl e)
             | Inr data \<Rightarrow> ([sent], Inr (Payload data))))"

definition catching :: "runtime \<Rightarrow> jsstring \<Rightarrow> http_response action \<Rightarrow> http_response \<times> effect list" where
  "catching rt label act =
     (case snd act of
        Inl e \<Rightarrow> (internal_error rt e, fst act @ [ConsoleError label (LogError e)])
      | Inr response \<Rightarrow> (response, fst act))"

fun fetches :: "effect list \<Rightarrow> (jsstring \<times> jsval) list" where
  "fetches [] = []"
| "fetches (Fetch url hs # fx) = (url, hs) # fetches fx"
| "fetches (_ # fx) = fetches fx"

declare show_nat.simps [simp del]

lemmas upstream_defs [handler_defs] =
  TRACKER_API_BASE_def env_var_def getHeaders_def response_ok_def res_json_def
  error_message_def upstream_error_def internal_error_def call_tracker_def catching_def

subsection \<open>Decimal text of a status code\<close>

lemma show_nat_small: "n < 10 \<Longrightarrow> show_nat n = [digit_char n]"
  by (subst show_nat.simps) simp

lemma show_nat_large:
  "10 \<le> n \<Longrightarrow> show_nat n = show_nat (n div 10) @ [digit_char (n mod 10)]"
  by (subst show_nat.simps) simp

lemma is_digit_digit_char: "d < 10 \<Longrightarrow> is_digit (digit_char d)"
  by (simp add: is_digit_def word_le_nat_alt unat_digit_char)

lemma show_nat_digits: "list_all is_digit (show_nat n)"
proof (induction n rule: show_nat.induct)
  case (1 n)
  show ?case
  proof (cases "n < 10")
    case True
    then show ?thesis by (simp add: show_nat_small is_digit_digit_char)
  next
    case False
    with "1.IH" show ?thesis by (simp add: show_nat_large is_digit_digit_char)
  qed
qed

lemma show_nat_not_Nil [simp]: "show_nat n \<noteq> []"
  by (subst show_nat.simps) simp

lemma dec_value_snoc: "dec_value (s @ [c]) = 10 * dec_value s + (unat c - 48)"
  by (simp add: dec_value_def)

text \<open>
  The decimal text of a status code reads back as the same number, so the text in
  \<^verbatim>\<open>"Tracker API error: <status>"\<close> determines the status.
\<close>

lemma dec_value_show_nat: "dec_value (show_nat n) = n"
proof (induction n rule: show_nat.induct)
  case (1 n)
  show ?case
  proof (cases "n < 10")
    case True
    then show ?thesis by (simp add: show_nat_small dec_value_def unat_digit_char)
  next
    case False
    with "1.IH" show ?thesis by (simp add: show_nat_large dec_value_snoc unat_digit_char)
  qed
qed

lemma show_nat_inj: "show_nat m = show_nat n \<Longrightarrow> m = n"
  by (metis dec_value_show_nat)

lemma hd_show_nat: "0 < n \<Longrightarrow> hd (show_nat n) \<noteq> 48"
proof (induction n rule: show_nat.induct)
  case (1 n)
  show ?case
  proof (cases "n < 10")
    case True
    with "1.prems" have "unat (digit_char n) \<noteq> unat (48 :: code_unit)"
      by (simp add: unat_digit_char)
    then have "digit_char n \<noteq> 48"
      by auto
    with True show ?thesis by (simp add: show_nat_small)
  next
    case False
    with "1.IH" show ?thesis by (simp add: show_nat_large)
  qed
qed

lemma index_of_key_show_nat: "index_of_key (show_nat n) = Some n"
proof (cases "n = 0")
  case True
  then show ?thesis
    by (simp add: index_of_key_def show_nat_small is_digit_digit_char dec_value_def unat_digit_char)
next
  case False
  then show ?thesis
    by (simp add: index_of_key_def show_nat_digits dec_value_show_nat hd_show_nat)
qed

lemma show_nat_404: "show_nat 404 = lit ''404''"
  by (simp add: show_nat.simps lit_def digit_char_def)

subsection \<open>The answers\<close>

lemma res_status_res_json [simp]: "res_status (res_json st v) = st"
  by (simp add: res_json_def)

lemma res_body_res_json [simp]: "res_body (res_json st v) = stringify v"
  by (simp add: res_json_def)

lemma upstream_error_body:
  "res_body (upstream_error st t) =
     Some (JObj [(lit ''error'', JStr (lit ''Tracker API error: '' @ show_nat st)),
                 (lit ''details'', JStr t)])"
  by (simp add: upstream_error_def)

lemma upstream_error_status [simp]: "res_status (upstream_error st t) = st"
  by (simp add: upstream_error_def)

lemma internal_error_body:
  "res_body (internal_error rt e) =
     Some (JObj [(lit ''error'', JStr (lit ''Internal server error'')),
                 (lit ''message'', JStr (error_message rt e))])"
  by (simp add: internal_error_def)

lemma internal_error_status [simp]: "res_status (internal_error rt e) = 500"
  by (simp add: internal_error_def)

lemma error_message_Rejected [simp]: "error_message rt (Rejected m) = m"
  by (simp add: error_message_def)

subsection \<open>The upstream call, branch by branch\<close>

lemma call_tracker_rejected:
  "fetch url (getHeaders rt) = FetchRejected e \<Longrightarrow>
   call_tracker rt fetch url = ([Fetch url (getHeaders rt)], Inl e)"
  by (simp add: call_tracker_def)

lemma call_tracker_not_ok:
  "fetch url (getHeaders rt) = FetchResolved r \<Longrightarrow> \<not> response_ok r \<Longrightarrow>
   up_text r = Inr t \<Longrightarrow>
   call_tracker rt fetch url =
     ([Fetch url (getHeaders rt),
       ConsoleError (lit ''Tracker API error: '' @ show_nat (up_status r)) (LogText t)],
      Inr (Reply (upstream_error (up_status r) t)))"
  by (simp add: call_tracker_def)

lemma call_tracker_not_ok_rejected:
  "fetch url (getHeaders rt) = FetchResolved r \<Longrightarrow> \<not> response_ok r \<Longrightarrow>
   up_text r = Inl e \<Longrightarrow>
   call_tracker rt fetch url = ([Fetch url (getHeaders rt)], Inl e)"
  by (simp add: call_tracker_def)

lemma call_tracker_ok:
  "fetch url (getHeaders rt) = FetchResolved r \<Longrightarrow> response_ok r \<Longrightarrow>
   call_tracker rt fetch url =
     ([Fetch url (getHeaders rt)],
      case up_json r of Inl e \<Rightarrow> Inl e | Inr data \<Rightarrow> Inr (Payload data))"
  by (simp add: call_tracker_def split: sum.split)

lemma fetches_call_tracker [simp]:
  "fetches (fst (call_tracker rt fetch url)) = [(url, getHeaders rt)]"
  by (simp add: call_tracker_def Let_def split: fetch_result.split sum.split)

lemma call_tracker_Reply:
  "snd (call_tracker rt fetch url) = Inr (Reply resp) \<Longrightarrow>
   \<exists>r t. fetch url (getHeaders rt) = FetchResolved r \<and> \<not> response_ok r \<and>
         up_text r = Inr t \<and> resp = upstream_error (up_status r) t"
  by (auto simp: call_tracker_def Let_def split: fetch_result.splits sum.splits if_splits)

lemma call_tracker_Payload:
  "snd (call_tracker rt fetch url) = Inr (Payload data) \<Longrightarrow>
   \<exists>r. fetch url (getHeaders rt) = FetchResolved r \<and> response_ok r \<and> up_json r = Inr data"
  by (auto simp: call_tracker_def Let_def split: fetch_result.splits sum.splits if_splits)

subsection \<open>The catch block\<close>

lemma catching_Inr [simp]: "catching rt label (fx, Inr resp) = (resp, fx)"
  by (simp add: catching_def)

lemma catching_Inl [simp]:
  "catching rt label (fx, Inl e) = (internal_error rt e, fx @ [ConsoleError label (LogError e)])"
  by (simp add: catching_def)

lemma fetches_append [simp]: "fetches (fx @ gx) = fetches fx @ fetches gx"
  by (induction fx rule: fetches.induct) simp_all

lemma fetches_catching [simp]: "fetches (snd (catching rt label act)) = fetches (fst act)"
  by (cases act; cases "snd act") (auto simp: catching_def)

subsection \<open>Closed instances\<close>

text \<open>
  A runtime and three upstreams for the closed instances of the handlers' theorems: one
  that answers every request with a given status, body text and payload, one that cannot
  be reached, and one that answers 204 with an empty body.
\<close>

definition demo_runtime :: runtime where
  "demo_runtime =
     \<lparr>trn_api_key = Some (lit ''secret''), port_var = None,
      describe = (\<lambda>e. lit ''engine text'')\<rparr>"

definition reply_with :: "nat \<Rightarrow> jsstring \<Rightarrow> jsval \<Rightarrow> fetcher" where
  "reply_with st body payload url hs =
     FetchResolved \<lparr>up_status = st, up_text = Inr body, up_json = Inr payload\<rparr>"

definition network_down :: fetcher where
  "network_down url hs = FetchRejected (Rejected (lit ''connect ECONNREFUSED''))"

definition no_content :: fetcher where
  "no_content url hs =
     FetchResolved \<lparr>up_status = 204, up_text = Inr [],
       up_json = Inl (Rejected (lit ''Unexpected end of JSON input''))\<rparr>"

end
