(* ===== verification/Proxy_Service.thy ===== *)
theory Proxy_Service
  imports Upstream
begin

text \<open>
  What the proxy promises for a route that forwards one query, as \<^verbatim>\<open>spec.md\<close> states it
  (sections 4.1 and 7), and the lemma that a handler of the shape both routes have
  keeps the promise.

  \<^item> \<open>outcome\<close>: the three results of a forwarded query: an internal error (the identifier
    cannot be escaped, the request fails, a body cannot be read, the payload cannot be
    reshaped), an upstream error (a status outside 200 to 299 with its body text), or
    the reshaped payload.
  \<^item> \<open>settle\<close> decides the outcome from what the upstream did; \<open>proxy_outcome\<close> from the
    identifier.
  \<^item> \<open>render\<close> is the answer an outcome is sent as, \<open>proxy_trace\<close> the effects that lead
    to it, and \<open>proxy\<close> both.
  \<^item> \<open>forward\<close> is the body both handlers of \<^verbatim>\<open>src/server.js\<close> share, with the URL, the
    log line and the formatter as parameters; \<open>forward_refines\<close> shows that it implements
    \<open>proxy\<close>.
\<close>

datatype outcome = InternalError js_error | UpstreamError nat jsstring | Served jsval

definition settle :: "fetch_result \<Rightarrow> (jsval \<Rightarrow> js_error + jsval) \<Rightarrow> outcome" where
  "settle result view =
     (case result of
        FetchRejected e \<Rightarrow> InternalError e
      | FetchResolved r \<Rightarrow>
          if response_ok r then
            (case up_json r of
               Inl e \<Rightarrow> InternalError e
             | Inr data \<Rightarrow> (case view data of Inl e \<Rightarrow> InternalError e | Inr v \<Rightarrow> Served v))
          else
            (case up_text r of
               Inl e \<Rightarrow> InternalError e
             | Inr t \<Rightarrow> UpstreamError (up_status r) t))"

definition proxy_outcome ::
  "runtime \<Rightarrow> fetcher \<Rightarrow> (jsstring \<Rightarrow> jsstring) \<Rightarrow> (jsval \<Rightarrow> js_error + jsval) \<Rightarrow> jsstring
   \<Rightarrow> outcome" where
  "proxy_outcome rt fetch url_of view identifier =
     (case encodeURIComponent identifier of
        Inl e \<Rightarrow> InternalError e
      | Inr encodedId \<Rightarrow> settle (fetch (url_of encodedId) (getHeaders rt)) view)"

definition render :: "runtime \<Rightarrow> outcome \<Rightarrow> http_response" where
  "render rt out =
     (case out of
        InternalError e \<Rightarrow> internal_error rt e
      | UpstreamError st t \<Rightarrow> upstream_error st t
      | Served v \<Rightarrow> res_json 200 v)"

definition outcome_log :: "jsstring \<Rightarrow> outcome \<Rightarrow> effect list" where
  "outcome_log label out =
     (case out of
        InternalError e \<Rightarrow> [ConsoleError label (LogError e)]
      | UpstreamError st t \<Rightarrow> [ConsoleError (lit ''Tracker API error: '' @ show_nat st) (LogText t)]
      | Served v \<Rightarrow> [])"

definition proxy_trace ::
  "runtime \<Rightarrow> jsstring \<Rightarrow> jsstring \<Rightarrow> (jsstring \<Rightarrow> jsstring) \<Rightarrow> jsstring \<Rightarrow> outcome
   \<Rightarrow> effect list" where
  "proxy_trace rt announce label url_of identifier out =
     (case encodeURIComponent identifier of
        Inl e \<Rightarrow> []
      | Inr encodedId \<Rightarrow>
          [ConsoleLog (announce @ url_of encodedId),
           Fetch (url_of encodedId) (getHeaders rt)])
     @ outcome_log label out"

definition proxy ::
  "runtime \<Rightarrow> fetcher \<Rightarrow> jsstring \<Rightarrow> jsstring \<Rightarrow> (jsstring \<Rightarrow> jsstring)
   \<Rightarrow> (jsval \<Rightarrow> js_error + jsval) \<Rightarrow> jsstring \<Rightarrow> http_response \<times> effect list" where
  "proxy rt fetch announce label url_of view identifier =
     (let out = proxy_outcome rt fetch url_of view identifier
      in (render rt out, proxy_trace rt announce label url_of identifier out))"

definition forward ::
  "runtime \<Rightarrow> fetcher \<Rightarrow> jsstring \<Rightarrow> (jsstring \<Rightarrow> jsstring)
   \<Rightarrow> (jsval \<Rightarrow> js_error + jsval) \<Rightarrow> jsstring \<Rightarrow> http_response action" where
  "forward rt fetch announce url_of view identifier =
     (case encodeURIComponent identifier of
        Inl e \<Rightarrow> ([], Inl e)
      | Inr encodedId \<Rightarrow>
          let url = url_of encodedId;
              called = call_tracker rt fetch url
          in (ConsoleLog (announce @ url) # fst called,
              and_then (snd called) (\<lambda>got.
                case got of
                  Reply response \<Rightarrow> Inr response
                | Payload data \<Rightarrow> and_then (view data) (\<lambda>v. Inr (res_json 200 v)))))"

lemmas proxy_defs =
  settle_def proxy_outcome_def render_def outcome_log_def proxy_trace_def proxy_def

subsection \<open>The handlers' body implements the promise\<close>

lemma forward_refines:
  "catching rt label (forward rt fetch announce url_of view identifier) =
     proxy rt fetch announce label url_of view identifier"
proof (cases "encodeURIComponent identifier")
  case (Inl e)
  then show ?thesis
    by (simp add: forward_def proxy_defs Let_def)
next
  case (Inr encodedId)
  show ?thesis
  proof (cases "fetch (url_of encodedId) (getHeaders rt)")
    case (FetchRejected e)
    with Inr show ?thesis
      by (simp add: forward_def proxy_defs call_tracker_rejected Let_def)
  next
    case (FetchResolved r)
    with Inr show ?thesis
      by (cases "response_ok r"; cases "up_text r"; cases "up_json r")
        (auto simp: forward_def proxy_defs call_tracker_ok call_tracker_not_ok
          call_tracker_not_ok_rejected and_then_def Let_def split: sum.splits)
  qed
qed

lemma fst_proxy [simp]:
  "fst (proxy rt fetch announce label url_of view identifier) =
     render rt (proxy_outcome rt fetch url_of view identifier)"
  by (simp add: proxy_def Let_def)

lemma snd_proxy [simp]:
  "snd (proxy rt fetch announce label url_of view identifier) =
     proxy_trace rt announce label url_of identifier
       (proxy_outcome rt fetch url_of view identifier)"
  by (simp add: proxy_def Let_def)

subsection \<open>What every answer of the proxy has\<close>

lemma settle_upstream_error:
  "settle result view = UpstreamError st t \<Longrightarrow> st < 200 \<or> 300 \<le> st"
  by (auto simp: settle_def response_ok_def split: fetch_result.splits sum.splits if_splits)

lemma proxy_outcome_upstream_error:
  "proxy_outcome rt fetch url_of view identifier = UpstreamError st t \<Longrightarrow>
   \<exists>encodedId r. encodeURIComponent identifier = Inr encodedId \<and>
     fetch (url_of encodedId) (getHeaders rt) = FetchResolved r \<and> \<not> response_ok r \<and>
     up_status r = st \<and> up_text r = Inr t"
  by (auto simp: proxy_outcome_def settle_def split: fetch_result.splits sum.splits if_splits)

lemma proxy_outcome_served:
  "proxy_outcome rt fetch url_of view identifier = Served v \<Longrightarrow>
   \<exists>encodedId r data. encodeURIComponent identifier = Inr encodedId \<and>
     fetch (url_of encodedId) (getHeaders rt) = FetchResolved r \<and> response_ok r \<and>
     up_json r = Inr data \<and> view data = Inr v"
  by (auto simp: proxy_outcome_def settle_def split: fetch_result.splits sum.splits if_splits)

lemma res_status_render:
  "res_status (render rt out) =
     (case out of InternalError e \<Rightarrow> 500 | UpstreamError st t \<Rightarrow> st | Served v \<Rightarrow> 200)"
  by (simp add: render_def split: outcome.split)

lemma render_body_json:
  assumes "\<And>v. out = Served v \<Longrightarrow> distinct_keys v \<and> v \<noteq> JUndefined"
  shows "\<exists>b. res_body (render rt out) = Some b \<and> json_value b"
proof (cases out)
  case (Served v)
  with assms have "distinct_keys v" "v \<noteq> JUndefined"
    by simp_all
  then obtain b where "stringify v = Some b" "json_value b"
    by (cases "stringify v") (auto dest: json_value_stringify)
  with Served show ?thesis
    by (simp add: render_def)
qed (simp_all add: render_def upstream_error_body internal_error_body)

lemma fetches_outcome_log [simp]: "fetches (outcome_log label out) = []"
  by (simp add: outcome_log_def split: outcome.split)

lemma fetches_proxy_trace:
  "fetches (proxy_trace rt announce label url_of identifier out) =
     (case encodeURIComponent identifier of
        Inl e \<Rightarrow> []
      | Inr encodedId \<Rightarrow> [(url_of encodedId, getHeaders rt)])"
  by (simp add: proxy_trace_def split: sum.split)

lemma proxy_body_json:
  assumes "\<And>url hs r d. fetch url hs = FetchResolved r \<Longrightarrow> up_json r = Inr d \<Longrightarrow> distinct_keys d"
    and "\<And>d v. distinct_keys d \<Longrightarrow> view d = Inr v \<Longrightarrow> distinct_keys v \<and> v \<noteq> JUndefined"
  shows "\<exists>b. res_body (fst (proxy rt fetch announce label url_of view identifier)) = Some b \<and>
           json_value b"
proof -
  have "distinct_keys v \<and> v \<noteq> JUndefined"
    if "proxy_outcome rt fetch url_of view identifier = Served v" for v
  proof -
    from proxy_outcome_served [OF that] obtain url r data
      where r: "fetch url (getHeaders rt) = FetchResolved r" "up_json r = Inr data"
        and v: "view data = Inr v"
      by blast
    from r have "distinct_keys data"
      by (rule assms(1))
    then show ?thesis
      using v by (rule assms(2))
  qed
  then show ?thesis
    by (simp add: render_body_json)
qed

end
