(* ===== verification/Event_Loop.thy ===== *)
theory Event_Loop
  imports Proxy_Service
begin

text \<open>
  Requests in flight (\<^verbatim>\<open>spec.md\<close>, section 5; \<^verbatim>\<open>src/server.js\<close>, lines 27 to 74 and 79 to
  129, read at their \<^verbatim>\<open>await\<close>s).

  A handler runs until its next \<^verbatim>\<open>await\<close> and is resumed when what it waits for has
  settled; between two of its steps the steps of other requests may run.

  \<^item> \<open>job\<close>: what distinguishes one call of a forwarding handler from another: the two
    texts it logs, the URL and the formatter of its route, and the identifier.
  \<^item> \<open>phase\<close>: where a call is: received, waiting for \<^verbatim>\<open>fetch\<close>, waiting for
    \<^verbatim>\<open>response.text()\<close> or \<^verbatim>\<open>response.json()\<close>, or answered.
  \<^item> \<open>advance\<close>: one step of a call, from one \<^verbatim>\<open>await\<close> to the next, with the effects of
    that step; \<open>caught\<close> is the \<^verbatim>\<open>catch\<close> block.
  \<^item> \<open>loop\<close>: the calls in flight and the log of all effects, each tagged with the index
    of its call. \<open>accept\<close> adds a call, \<open>resume_task\<close> advances one; \<open>step\<close> is the
    relation of both and \<open>reachable\<close> its closure from the empty loop. The upstream is
    one \<open>fetcher\<close> per call (\<open>net i\<close>), so it may answer two calls differently.
  \<^item> \<open>run\<close> advances one call alone; \<open>history\<close> lists the states it goes through.
  \<^item> \<open>drain\<close> resumes the first pending call until none is left or its fuel is used;
    \<open>work\<close> is the number of steps the calls in flight still need.

  Any pending call may take the next step, also between the arrival of a request and the
  first step of its handler: the relation has every interleaving of the program.

  The lemmas show that a step only adds calls and appends to the log, that a call run
  alone is the handler of \<open>Proxy_Service\<close>, that in every
  reachable state each call is at a state of its own history whatever the other calls
  did (\<open>well_tagged\<close>), that an answered call has the answer and the effects of the
  handler, that the work left decreases with every step of a call, and that \<open>drain\<close>
  with fuel \<open>work\<close> answers every call.
\<close>

record job =
  job_announce :: jsstring
  job_label :: jsstring
  job_url :: "jsstring \<Rightarrow> jsstring"
  job_view :: "jsval \<Rightarrow> js_error + jsval"
  job_identifier :: jsstring

datatype phase =
    Received
  | AwaitFetch jsstring
  | AwaitText upstream_response
  | AwaitJson upstream_response
  | Answered http_response

record loop =
  tasks :: "(job \<times> phase) list"
  log :: "(nat \<times> effect) list"

definition caught :: "runtime \<Rightarrow> job \<Rightarrow> js_error \<Rightarrow> phase \<times> effect list" where
  "caught rt j e = (Answered (internal_error rt e), [ConsoleError (job_label j) (LogError e)])"

fun advance :: "runtime \<Rightarrow> fetcher \<Rightarrow> job \<Rightarrow> phase \<Rightarrow> phase \<times> effect list" where
  "advance rt fetch j Received =
     (case encodeURIComponent (job_identifier j) of
        Inl e \<Rightarrow> caught rt j e
      | Inr encodedId \<Rightarrow>
          (let url = job_url j encodedId
           in (AwaitFetch url, [ConsoleLog (job_announce j @ url), Fetch url (getHeaders rt)])))"
| "advance rt fetch j (AwaitFetch url) =
     (case fetch url (getHeaders rt) of
        FetchRejected e \<Rightarrow> caught rt j e
      | FetchResolved response \<Rightarrow>
          (if \<not> response_ok response then AwaitText response else AwaitJson response, []))"
| "advance rt fetch j (AwaitText response) =
     (case up_text response of
        Inl e \<Rightarrow> caught rt j e
      | Inr errorText \<Rightarrow>
          (Answered (upstream_error (up_status response) errorText),
           [ConsoleError (lit ''Tracker API error: '' @ show_nat (up_status response))
              (LogText errorText)]))"
| "advance rt fetch j (AwaitJson response) =
     (case up_json response of
        Inl e \<Rightarrow> caught rt j e
      | Inr data \<Rightarrow>
          (case job_view j data of
             Inl e \<Rightarrow> caught rt j e
           | Inr v \<Rightarrow> (Answered (res_json 200 v), [])))"
| "advance rt fetch j (Answered response) = (Answered response, [])"

fun pending :: "phase \<Rightarrow> bool" where
  "pending (Answered response) = False"
| "pending p = True"

fun remaining :: "phase \<Rightarrow> nat" where
  "remaining Received = 3"
| "remaining (AwaitFetch url) = 2"
| "remaining (AwaitText response) = 1"
| "remaining (AwaitJson response) = 1"
| "remaining (Answered response) = 0"

definition accept :: "job \<Rightarrow> loop \<Rightarrow> loop" where
  "accept j s = s\<lparr>tasks := tasks s @ [(j, Received)]\<rparr>"

definition resume_task :: "runtime \<Rightarrow> (nat \<Rightarrow> fetcher) \<Rightarrow> nat \<Rightarrow> loop \<Rightarrow> loop" where
  "resume_task rt net i s =
     (let (j, p) = tasks s ! i;
          (p', fx) = advance rt (net i) j p
      in \<lparr>tasks = (tasks s)[i := (j, p')], log = log s @ map (Pair i) fx\<rparr>)"

inductive step :: "runtime \<Rightarrow> (nat \<Rightarrow> fetcher) \<Rightarrow> loop \<Rightarrow> loop \<Rightarrow> bool" for rt net where
  arrive: "step rt net s (accept j s)"
| resume: "i < length (tasks s) \<Longrightarrow> pending (snd (tasks s ! i)) \<Longrightarrow>
           step rt net s (resume_task rt net i s)"

inductive reachable :: "runtime \<Rightarrow> (nat \<Rightarrow> fetcher) \<Rightarrow> loop \<Rightarrow> bool" for rt net where
  idle: "reachable rt net \<lparr>tasks = [], log = []\<rparr>"
| after: "reachable rt net s \<Longrightarrow> step rt net s t \<Longrightarrow> reachable rt net t"

fun run :: "nat \<Rightarrow> runtime \<Rightarrow> fetcher \<Rightarrow> job \<Rightarrow> phase \<times> effect list" where
  "run 0 rt fetch j = (Received, [])"
| "run (Suc n) rt fetch j =
     (let (p, fx) = run n rt fetch j;
          (p', gx) = advance rt fetch j p
      in (p', fx @ gx))"

definition history :: "runtime \<Rightarrow> fetcher \<Rightarrow> job \<Rightarrow> (phase \<times> effect list) list" where
  "history rt fetch j = map (\<lambda>n. run n rt fetch j) [0..<4]"

definition effects_of :: "nat \<Rightarrow> (nat \<times> effect) list \<Rightarrow> effect list" where
  "effects_of i lg = map snd (filter (\<lambda>(k, e). k = i) lg)"

definition handler :: "runtime \<Rightarrow> fetcher \<Rightarrow> job \<Rightarrow> http_response \<times> effect list" where
  "handler rt fetch j =
     catching rt (job_label j)
       (forward rt fetch (job_announce j) (job_url j) (job_view j) (job_identifier j))"

definition first_pending :: "loop \<Rightarrow> nat option" where
  "first_pending s =
     (case filter (\<lambda>i. pending (snd (tasks s ! i))) [0..<length (tasks s)] of
        [] \<Rightarrow> None
      | i # _ \<Rightarrow> Some i)"

fun drain :: "nat \<Rightarrow> runtime \<Rightarrow> (nat \<Rightarrow> fetcher) \<Rightarrow> loop \<Rightarrow> loop" where
  "drain 0 rt net s = s"
| "drain (Suc n) rt net s =
     (case first_pending s of
        None \<Rightarrow> s
      | Some i \<Rightarrow> drain n rt net (resume_task rt net i s))"

definition work :: "loop \<Rightarrow> nat" where
  "work s = sum_list (map (\<lambda>(j, p). remaining p) (tasks s))"

definition well_tagged :: "runtime \<Rightarrow> (nat \<Rightarrow> fetcher) \<Rightarrow> loop \<Rightarrow> bool" where
  "well_tagged rt net s \<longleftrightarrow>
     list_all (\<lambda>(k, e). k < length (tasks s)) (log s) \<and>
     list_all (\<lambda>i. (snd (tasks s ! i), effects_of i (log s)) \<in> set (history rt (net i) (fst (tasks s ! i))))
       [0..<length (tasks s)]"

inductive_cases step_cases: "step rt net s t"

fun_cases remaining_zeroE: "remaining p = 0"

lemmas loop_defs = accept_def resume_task_def effects_of_def caught_def

subsection \<open>One call alone\<close>

lemma handler_proxy:
  "handler rt fetch j =
     proxy rt fetch (job_announce j) (job_label j) (job_url j) (job_view j) (job_identifier j)"
  by (simp add: handler_def forward_refines)

lemma run_Suc:
  "run (Suc n) rt fetch j =
     (fst (advance rt fetch j (fst (run n rt fetch j))),
      snd (run n rt fetch j) @ snd (advance rt fetch j (fst (run n rt fetch j))))"
  by (simp add: case_prod_unfold Let_def)

declare run.simps(2) [simp del]

lemma run_stable_Suc:
  "\<not> pending (fst (run n rt fetch j)) \<Longrightarrow> run (Suc n) rt fetch j = run n rt fetch j"
  by (cases "fst (run n rt fetch j)") (simp_all add: run_Suc prod_eq_iff)

lemma run_stable:
  "\<not> pending (fst (run n rt fetch j)) \<Longrightarrow> run (n + k) rt fetch j = run n rt fetch j"
  by (induction k) (simp_all add: run_stable_Suc)

lemma advance_remaining:
  "pending p \<Longrightarrow> remaining (fst (advance rt fetch j p)) < remaining p"
  by (cases p) (auto simp: caught_def Let_def split: sum.split fetch_result.split)

lemma remaining_run: "remaining (fst (run n rt fetch j)) \<le> 3 - n"
proof (induction n)
  case 0
  then show ?case by simp
next
  case (Suc n)
  show ?case
  proof (cases "pending (fst (run n rt fetch j))")
    case True
    from advance_remaining [OF this, of rt fetch j] Suc show ?thesis
      by (simp add: run_Suc)
  next
    case False
    then have "remaining (fst (run n rt fetch j)) = 0"
      by (cases "fst (run n rt fetch j)") simp_all
    with False show ?thesis
      by (simp add: run_stable_Suc)
  qed
qed

lemma run_3_answered: "\<not> pending (fst (run 3 rt fetch j))"
  using remaining_run [of 3 rt fetch j] by (cases "fst (run 3 rt fetch j)") simp_all

lemma run_1:
  "run (Suc 0) rt fetch j = advance rt fetch j Received"
  by (simp add: run_Suc)

lemma run_1_encoded:
  assumes "encodeURIComponent (job_identifier j) = Inr encodedId"
  shows "run (Suc 0) rt fetch j =
           (AwaitFetch (job_url j encodedId),
            [ConsoleLog (job_announce j @ job_url j encodedId),
             Fetch (job_url j encodedId) (getHeaders rt)])"
  using assms by (simp add: run_1 Let_def)

lemma run_3_malformed:
  assumes "encodeURIComponent (job_identifier j) = Inl e"
  shows "run 3 rt fetch j = (Answered (fst (handler rt fetch j)), snd (handler rt fetch j))"
proof -
  from assms have "run (Suc 0) rt fetch j = caught rt j e"
    by (simp add: run_1)
  then have "run (Suc 0 + 2) rt fetch j = caught rt j e"
    by (subst run_stable) (simp_all add: caught_def)
  with assms show ?thesis
    by (simp add: handler_def forward_def caught_def numeral_3_eq_3)
qed

lemma run_3_rejected:
  assumes "encodeURIComponent (job_identifier j) = Inr encodedId"
    and "fetch (job_url j encodedId) (getHeaders rt) = FetchRejected e"
  shows "run 3 rt fetch j = (Answered (fst (handler rt fetch j)), snd (handler rt fetch j))"
proof -
  let ?done = "(Answered (internal_error rt e),
      [ConsoleLog (job_announce j @ job_url j encodedId),
       Fetch (job_url j encodedId) (getHeaders rt), ConsoleError (job_label j) (LogError e)])"
  from assms have "run (Suc (Suc 0)) rt fetch j = ?done"
    by (simp add: run_Suc [of "Suc 0"] run_1_encoded caught_def)
  then have "run (Suc (Suc 0) + 1) rt fetch j = ?done"
    by (subst run_stable) simp_all
  with assms show ?thesis
    by (simp add: handler_def forward_def call_tracker_rejected numeral_3_eq_3 Let_def)
qed

lemma run_3_resolved:
  assumes "encodeURIComponent (job_identifier j) = Inr encodedId"
    and "fetch (job_url j encodedId) (getHeaders rt) = FetchResolved r"
  shows "run 3 rt fetch j = (Answered (fst (handler rt fetch j)), snd (handler rt fetch j))"
proof -
  from assms have two: "run (Suc (Suc 0)) rt fetch j =
      (if \<not> response_ok r then AwaitText r else AwaitJson r,
       [ConsoleLog (job_announce j @ job_url j encodedId),
        Fetch (job_url j encodedId) (getHeaders rt)])"
    by (simp add: run_Suc [of "Suc 0"] run_1_encoded)
  from assms show ?thesis
    by (cases "response_ok r"; cases "up_text r"; cases "up_json r")
      (auto simp: run_Suc [of "Suc (Suc 0)"] two numeral_3_eq_3 handler_def forward_def
        caught_def call_tracker_ok call_tracker_not_ok call_tracker_not_ok_rejected
        and_then_def Let_def split: sum.splits)
qed

lemma run_3:
  "run 3 rt fetch j = (Answered (fst (handler rt fetch j)), snd (handler rt fetch j))"
proof (cases "encodeURIComponent (job_identifier j)")
  case (Inl e)
  then show ?thesis by (rule run_3_malformed)
next
  case (Inr encodedId)
  then show ?thesis
    by (cases "fetch (job_url j encodedId) (getHeaders rt)")
      (simp_all only: run_3_rejected run_3_resolved)
qed

text \<open>
  C17. A call that is advanced three times or more from its reception, with nothing in
  between, is answered, and its answer and its effects are those of the handler as a
  whole: the steps between the \<^verbatim>\<open>await\<close>s compose to the \<^verbatim>\<open>try\<close> block and its \<^verbatim>\<open>catch\<close>,
  and an answered call does nothing more.
\<close>

theorem run_handler:
  "run (3 + k) rt fetch j = (Answered (fst (handler rt fetch j)), snd (handler rt fetch j))"
  by (subst run_stable) (simp_all add: run_3)

lemma history_run: "n \<le> 3 \<Longrightarrow> run n rt fetch j \<in> set (history rt fetch j)"
  by (simp add: history_def)

lemma history_start: "(Received, []) \<in> set (history rt fetch j)"
  using history_run [of 0 rt fetch j] by simp

lemma history_cases:
  assumes "x \<in> set (history rt fetch j)"
  shows "\<exists>n \<le> 3. x = run n rt fetch j"
proof -
  from assms obtain n where "n < 4" "x = run n rt fetch j"
    by (auto simp: history_def)
  then show ?thesis
    by (intro exI [of _ n]) simp
qed

lemma history_step:
  assumes "(p, fx) \<in> set (history rt fetch j)" and "pending p"
  shows "(fst (advance rt fetch j p), fx @ snd (advance rt fetch j p)) \<in> set (history rt fetch j)"
proof -
  from history_cases [OF assms(1)] obtain n where n: "n \<le> 3" "(p, fx) = run n rt fetch j"
    by blast
  with assms(2) run_3_answered [of rt fetch j] have "n \<noteq> 3"
    by (metis fst_conv)
  with n(1) have "Suc n \<le> 3"
    by simp
  have "run (Suc n) rt fetch j = (fst (advance rt fetch j p), fx @ snd (advance rt fetch j p))"
    using n(2) [symmetric] by (simp add: run_Suc [of n])
  with history_run [OF \<open>Suc n \<le> 3\<close>, of rt fetch j] show ?thesis
    by simp
qed

lemma history_answered:
  assumes "(Answered response, fx) \<in> set (history rt fetch j)"
  shows "(response, fx) = handler rt fetch j"
proof -
  from history_cases [OF assms] obtain n where n: "n \<le> 3" "(Answered response, fx) = run n rt fetch j"
    by blast
  then have "\<not> pending (fst (run n rt fetch j))"
    by (metis fst_conv pending.simps(1))
  from run_stable [OF this, of "3 - n"] n have "run 3 rt fetch j = (Answered response, fx)"
    by simp
  then show ?thesis
    by (simp add: run_3 prod_eq_iff)
qed

subsection \<open>Calls in flight\<close>

lemma effects_of_append [simp]: "effects_of i (lg @ lg') = effects_of i lg @ effects_of i lg'"
  by (simp add: effects_of_def)

lemma effects_of_tagged [simp]:
  "effects_of i (map (Pair k) fx) = (if k = i then fx else [])"
  by (simp add: effects_of_def filter_map comp_def)

lemma effects_of_absent:
  "list_all (\<lambda>(k, e). k < n) lg \<Longrightarrow> effects_of n lg = []"
  by (induction lg) (auto simp: effects_of_def)

lemma well_tagged_iff:
  "well_tagged rt net s \<longleftrightarrow>
     (\<forall>(k, e) \<in> set (log s). k < length (tasks s)) \<and>
     (\<forall>i < length (tasks s).
        (snd (tasks s ! i), effects_of i (log s)) \<in> set (history rt (net i) (fst (tasks s ! i))))"
  by (auto simp: well_tagged_def list_all_iff)

lemma tasks_accept [simp]: "tasks (accept j s) = tasks s @ [(j, Received)]"
  by (simp add: accept_def)

lemma log_accept [simp]: "log (accept j s) = log s"
  by (simp add: accept_def)

lemma tasks_resume_task:
  "tasks (resume_task rt net i s) =
     (tasks s)[i := (fst (tasks s ! i), fst (advance rt (net i) (fst (tasks s ! i)) (snd (tasks s ! i))))]"
  by (simp add: resume_task_def case_prod_unfold Let_def)

lemma log_resume_task [simp]:
  "log (resume_task rt net i s) =
     log s @ map (Pair i) (snd (advance rt (net i) (fst (tasks s ! i)) (snd (tasks s ! i))))"
  by (simp add: resume_task_def case_prod_unfold Let_def)

text \<open>
  A step never removes a call and never rewrites the log: calls are added at the end,
  effects are appended.
\<close>

lemma step_tasks_grow: "step rt net s t \<Longrightarrow> length (tasks s) \<le> length (tasks t)"
  by (erule step_cases) (simp_all add: tasks_resume_task)

lemma step_log_extends: "step rt net s t \<Longrightarrow> \<exists>fx. log t = log s @ fx"
  by (erule step_cases) simp_all

lemma well_tagged_idle: "well_tagged rt net \<lparr>tasks = [], log = []\<rparr>"
  by (simp add: well_tagged_def)

lemma well_tagged_accept:
  assumes "well_tagged rt net s"
  shows "well_tagged rt net (accept j s)"
proof -
  from assms have "effects_of (length (tasks s)) (log s) = []"
    by (simp add: well_tagged_def effects_of_absent)
  with assms show ?thesis
    by (auto simp: well_tagged_iff nth_append less_Suc_eq history_start)
qed

lemma well_tagged_resume:
  assumes "well_tagged rt net s" and "i < length (tasks s)" and "pending (snd (tasks s ! i))"
  shows "well_tagged rt net (resume_task rt net i s)"
proof -
  from assms(1,2) have
    "(snd (tasks s ! i), effects_of i (log s)) \<in> set (history rt (net i) (fst (tasks s ! i)))"
    by (simp add: well_tagged_iff)
  from history_step [OF this assms(3)] assms(1,2) show ?thesis
    by (auto simp: well_tagged_iff tasks_resume_task nth_list_update)
qed

lemma reachable_well_tagged: "reachable rt net s \<Longrightarrow> well_tagged rt net s"
proof (induction rule: reachable.induct)
  case idle
  show ?case by (rule well_tagged_idle)
next
  case (after s t)
  from after.hyps(2) after.IH show ?case
    by cases (simp_all add: well_tagged_accept well_tagged_resume)
qed

text \<open>
  Requests do not interfere: in every state the loop can reach, a call that is answered
  has exactly the answer of its handler run alone, and the effects logged for it are
  the effects of that handler, in their order.
\<close>

lemma answered_handler:
  assumes "reachable rt net s" and "i < length (tasks s)"
    and "tasks s ! i = (j, Answered response)"
  shows "(response, effects_of i (log s)) = handler rt (net i) j"
proof -
  from assms(1) have "well_tagged rt net s"
    by (rule reachable_well_tagged)
  with assms(2,3) have "(Answered response, effects_of i (log s)) \<in> set (history rt (net i) j)"
    by (auto simp: well_tagged_iff)
  then show ?thesis
    by (rule history_answered)
qed

subsection \<open>Every call is answered\<close>

lemma work_accept: "work (accept j s) = work s + 3"
  by (simp add: work_def)

lemma sum_list_map_update:
  fixes f :: "'a \<Rightarrow> nat"
  shows "i < length xs \<Longrightarrow> f x < f (xs ! i) \<Longrightarrow>
    sum_list (map f (xs[i := x])) < sum_list (map f xs)"
proof (induction xs arbitrary: i)
  case Nil
  then show ?case by simp
next
  case (Cons a xs)
  then show ?case
    by (cases i) auto
qed

lemma resume_decreases_work_aux:
  assumes "i < length (tasks s) \<and> pending (snd (tasks s ! i))"
  shows "work (resume_task rt net i s) < work s"
proof -
  have "remaining (fst (advance rt (net i) (fst (tasks s ! i)) (snd (tasks s ! i))))
      < remaining (snd (tasks s ! i))"
    using assms by (intro advance_remaining) simp
  with assms show ?thesis
    unfolding work_def tasks_resume_task
    by (intro sum_list_map_update) (simp_all add: case_prod_unfold)
qed

text \<open>
  C18. Every step of a call brings the loop closer to rest: the work left, three steps
  for a call just received and none for an answered one, decreases strictly. A call is
  never resumed for ever.
\<close>

theorem resume_decreases_work:
  assumes "i < length (tasks s)" and "pending (snd (tasks s ! i))"
  shows "work (resume_task rt net i s) < work s"
  using assms by (intro resume_decreases_work_aux) simp

lemma first_pending_None:
  "first_pending s = None \<Longrightarrow> \<forall>i < length (tasks s). \<not> pending (snd (tasks s ! i))"
  by (auto simp: first_pending_def filter_empty_conv split: list.splits)

lemma first_pending_Some:
  assumes "first_pending s = Some i"
  shows "i < length (tasks s) \<and> pending (snd (tasks s ! i))"
proof -
  from assms obtain rest
    where "filter (\<lambda>i. pending (snd (tasks s ! i))) [0..<length (tasks s)] = i # rest"
    by (auto simp: first_pending_def split: list.splits)
  then have "i \<in> set (filter (\<lambda>i. pending (snd (tasks s ! i))) [0..<length (tasks s)])"
    by simp
  then show ?thesis
    by simp
qed

lemma work_0: "work s = 0 \<Longrightarrow> first_pending s = None"
proof (rule ccontr)
  assume "work s = 0" and "first_pending s \<noteq> None"
  then obtain i where i: "i < length (tasks s)" "pending (snd (tasks s ! i))"
    by (auto dest: first_pending_Some)
  from \<open>work s = 0\<close> i(1) have "remaining (snd (tasks s ! i)) = 0"
    by (auto simp: work_def case_prod_unfold)
  then show False
  proof (rule remaining_zeroE)
    fix response
    assume "snd (tasks s ! i) = Answered response"
    with i(2) show False by simp
  qed
qed

lemma jobs_resume_task [simp]:
  "map fst (tasks (resume_task rt net i s)) = map fst (tasks s)"
  by (cases "i < length (tasks s)")
    (simp_all add: tasks_resume_task map_update list_update_same_conv list_update_beyond)

lemma step_jobs_extend: "step rt net s t \<Longrightarrow> \<exists>js. map fst (tasks t) = map fst (tasks s) @ js"
  by (erule step_cases) simp_all

lemma drain_rest: "work s \<le> n \<Longrightarrow> first_pending (drain n rt net s) = None"
proof (induction n arbitrary: s)
  case 0
  then show ?case by (simp add: work_0)
next
  case (Suc n)
  show ?case
  proof (cases "first_pending s")
    case None
    then show ?thesis by simp
  next
    case (Some i)
    from first_pending_Some [OF this] have "work (resume_task rt net i s) < work s"
      by (simp add: resume_decreases_work_aux)
    with Suc.prems have "work (resume_task rt net i s) \<le> n"
      by simp
    with Some show ?thesis
      by (simp add: Suc.IH)
  qed
qed

lemma jobs_drain: "map fst (tasks (drain n rt net s)) = map fst (tasks s)"
  by (induction n arbitrary: s) (simp_all split: option.split)

lemma reachable_drain: "reachable rt net s \<Longrightarrow> reachable rt net (drain n rt net s)"
proof (induction n arbitrary: s)
  case 0
  then show ?case by simp
next
  case (Suc n)
  show ?case
  proof (cases "first_pending s")
    case None
    with Suc.prems show ?thesis by simp
  next
    case (Some i)
    from first_pending_Some [OF this] have "step rt net s (resume_task rt net i s)"
      by (simp add: step.resume)
    with Suc.prems have "reachable rt net (resume_task rt net i s)"
      by (rule reachable.after)
    with Some show ?thesis
      by (simp add: Suc.IH)
  qed
qed

text \<open>
  C14. Once no more requests arrive, every request in flight is answered: resuming the
  calls that wait, at most three times each, brings the loop to a state it can reach in
  which every call has the answer and the logged effects of its handler.
\<close>

theorem drain_answers_all:
  assumes "reachable rt net s" and "work s \<le> n" and "i < length (tasks s)"
  shows "\<exists>response.
           tasks (drain n rt net s) ! i = (fst (tasks s ! i), Answered response) \<and>
           (response, effects_of i (log (drain n rt net s))) = handler rt (net i) (fst (tasks s ! i))"
proof -
  let ?t = "drain n rt net s"
  have jobs: "map fst (tasks ?t) = map fst (tasks s)"
    by (rule jobs_drain)
  then have len: "length (tasks ?t) = length (tasks s)"
    by (rule map_eq_imp_length_eq)
  with assms(3) jobs have job: "fst (tasks ?t ! i) = fst (tasks s ! i)"
    by (metis nth_map)
  from assms(2) have "first_pending ?t = None"
    by (rule drain_rest)
  with assms(3) len have "\<not> pending (snd (tasks ?t ! i))"
    by (auto dest: first_pending_None)
  then obtain response where "snd (tasks ?t ! i) = Answered response"
    by (cases "snd (tasks ?t ! i)") simp_all
  with job have task: "tasks ?t ! i = (fst (tasks s ! i), Answered response)"
    by (simp add: prod_eq_iff)
  from assms(1) have "reachable rt net ?t"
    by (rule reachable_drain)
  from answered_handler [OF this _ task] assms(3) len task show ?thesis
    by auto
qed

subsection \<open>Closed instances\<close>

definition demo_job :: "jsstring \<Rightarrow> job" where
  "demo_job identifier =
     \<lparr>job_announce = lit ''Fetching profile: '', job_label = lit ''Profile fetch error:'',
      job_url = (\<lambda>encodedId. TRACKER_API_BASE @ lit ''/profile/riot/'' @ encodedId),
      job_view = Inr, job_identifier = identifier\<rparr>"

definition two_calls :: loop where
  "two_calls =
     accept (demo_job (lit ''Player#NA1'')) (accept (demo_job [0x41, 0xD83D]) \<lparr>tasks = [], log = []\<rparr>)"

lemma reachable_two_calls: "reachable rt net two_calls"
  unfolding two_calls_def
  by (intro reachable.after [OF _ step.arrive] reachable.idle)

lemma tasks_two_calls:
  "tasks two_calls = [(demo_job [0x41, 0xD83D], Received), (demo_job (lit ''Player#NA1''), Received)]"
  by (simp add: two_calls_def)

lemma work_two_calls: "work two_calls = 6"
  by (simp add: two_calls_def work_accept work_def)

theorem resume_decreases_work_witness:
  "work (resume_task demo_runtime (\<lambda>i. network_down) 1 two_calls) < 6"
  using resume_decreases_work [of 1 two_calls demo_runtime "\<lambda>i. network_down"]
  by (simp add: tasks_two_calls work_two_calls)

theorem drain_answers_all_witness:
  "\<exists>response.
     tasks (drain 6 demo_runtime (\<lambda>i. network_down) two_calls) ! 1 =
       (demo_job (lit ''Player#NA1''), Answered response) \<and>
     (response, effects_of 1 (log (drain 6 demo_runtime (\<lambda>i. network_down) two_calls))) =
       handler demo_runtime network_down (demo_job (lit ''Player#NA1''))"
  using drain_answers_all [OF reachable_two_calls, of 6 1 demo_runtime "\<lambda>i. network_down"]
  by (simp add: tasks_two_calls work_two_calls)

end
