(* ===== verification/Profile.thy ===== *)
theory Profile
  imports Proxy_Service Js_Array
begin

text \<open>
  The profile route, \<^verbatim>\<open>app.get('/api/profile/:identifier', ...)\<close>
  (\<^verbatim>\<open>src/server.js\<close>, lines 26 to 75).

  \<^item> \<open>format_profile\<close> is the block that reshapes the payload (lines 48 to 64), with
    \<open>is_competitive\<close> the callback of \<^verbatim>\<open>find\<close>, \<open>profile_account\<close> and \<open>profile_rank\<close> the
    two object literals. Every \<^verbatim>\<open>.\<close> of the source is a \<open>get_prop\<close>, every \<^verbatim>\<open>?.\<close> an
    \<open>opt_prop\<close>, every \<^verbatim>\<open>||\<close> a \<open>js_or\<close> (\<open>or_else\<close> where the right operand is a read).
  \<^item> \<open>profile_body\<close> is the \<^verbatim>\<open>try\<close> block and \<open>get_profile\<close> the whole handler: the answer
    and the effects in order.
  \<^item> \<open>account_view\<close>, \<open>rank_view\<close> and \<open>payload_part\<close> are the reference form of the
    formatter, without exceptions; \<open>competitive\<close> is the test of the callback as a
    predicate.

  The lemmas show what the handler answers on every branch (upstream error, success,
  identifier that cannot be encoded, exception while formatting), which requests it
  performs, and that its body is always a JSON value.
\<close>

definition or_else :: "jsval \<Rightarrow> (js_error + jsval) \<Rightarrow> js_error + jsval" where
  "or_else a rb = (if truthy a then Inr a else rb)"

definition is_competitive :: "jsval \<Rightarrow> js_error + bool" where
  "is_competitive s =
     and_then (get_prop s (lit ''type'')) (\<lambda>t. Inr (is_string t (lit ''competitive'')))"

definition profile_account :: "jsval \<Rightarrow> jsval \<Rightarrow> jsstring \<Rightarrow> js_error + jsval" where
  "profile_account platformInfo metadata identifier =
     and_then (get_prop platformInfo (lit ''platformUserHandle'')) (\<lambda>handle.
     and_then (get_prop metadata (lit ''level'')) (\<lambda>level.
     and_then (get_prop metadata (lit ''bannerImageUrl'')) (\<lambda>banner.
     and_then (or_else banner (get_prop metadata (lit ''avatarUrl''))) (\<lambda>card.
       Inr (JObj [(lit ''name'', js_or handle (JStr identifier)),
                  (lit ''level'', js_or level (JStr (lit ''N/A''))),
                  (lit ''card'', card)])))))"

definition profile_rank :: "jsval \<Rightarrow> js_error + jsval" where
  "profile_rank competitiveSegment =
     (if truthy competitiveSegment then
        and_then (get_prop competitiveSegment (lit ''metadata'')) (\<lambda>m1.
        and_then (get_prop competitiveSegment (lit ''stats'')) (\<lambda>stats.
        and_then (get_prop competitiveSegment (lit ''metadata'')) (\<lambda>m2.
          Inr (JObj [(lit ''name'', js_or (opt_prop m1 (lit ''tierName'')) (JStr (lit ''Unranked''))),
                     (lit ''rating'',
                        js_or (opt_prop (opt_prop stats (lit ''rating'')) (lit ''value''))
                          (JNum (Fin 0))),
                     (lit ''rankImg'', opt_prop m2 (lit ''imageUrl''))]))))
      else Inr JNull)"

definition format_profile :: "jsval \<Rightarrow> jsstring \<Rightarrow> js_error + jsval" where
  "format_profile data identifier =
     and_then (get_prop data (lit ''data'')) (\<lambda>d1.
     let platformInfo = js_or (opt_prop d1 (lit ''platformInfo'')) (JObj []) in
     and_then (get_prop data (lit ''data'')) (\<lambda>d2.
     let metadata = js_or (opt_prop d2 (lit ''metadata'')) (JObj []) in
     and_then (get_prop data (lit ''data'')) (\<lambda>d3.
     let segments = js_or (opt_prop d3 (lit ''segments'')) (JArr []) in
     and_then (call_find segments is_competitive) (\<lambda>competitiveSegment.
     and_then (profile_account platformInfo metadata identifier) (\<lambda>account.
     and_then (profile_rank competitiveSegment) (\<lambda>rank.
       Inr (JObj [(lit ''account'', account), (lit ''rank'', rank)])))))))"

definition profile_url :: "jsstring \<Rightarrow> jsstring" where
  "profile_url encodedId = TRACKER_API_BASE @ lit ''/profile/riot/'' @ encodedId"

definition profile_body :: "runtime \<Rightarrow> fetcher \<Rightarrow> jsstring \<Rightarrow> http_response action" where
  "profile_body rt fetch identifier =
     (case encodeURIComponent identifier of
        Inl e \<Rightarrow> ([], Inl e)
      | Inr encodedId \<Rightarrow>
          let url = profile_url encodedId;
              called = call_tracker rt fetch url
          in (ConsoleLog (lit ''Fetching profile: '' @ url) # fst called,
              and_then (snd called) (\<lambda>got.
                case got of
                  Reply response \<Rightarrow> Inr response
                | Payload data \<Rightarrow>
                    and_then (format_profile data identifier) (\<lambda>profile.
                      Inr (res_json 200 profile)))))"

definition get_profile :: "runtime \<Rightarrow> fetcher \<Rightarrow> jsstring \<Rightarrow> http_response \<times> effect list" where
  "get_profile rt fetch identifier =
     catching rt (lit ''Profile fetch error:'') (profile_body rt fetch identifier)"

definition account_view :: "jsval \<Rightarrow> jsval \<Rightarrow> jsstring \<Rightarrow> jsval" where
  "account_view platformInfo metadata identifier =
     JObj [(lit ''name'', js_or (member platformInfo (lit ''platformUserHandle'')) (JStr identifier)),
           (lit ''level'', js_or (member metadata (lit ''level'')) (JStr (lit ''N/A''))),
           (lit ''card'',
              js_or (member metadata (lit ''bannerImageUrl'')) (member metadata (lit ''avatarUrl'')))]"

definition rank_view :: "jsval \<Rightarrow> jsval" where
  "rank_view seg =
     (if truthy seg then
        JObj [(lit ''name'',
                 js_or (member (member seg (lit ''metadata'')) (lit ''tierName''))
                   (JStr (lit ''Unranked''))),
              (lit ''rating'',
                 js_or (member (member (member seg (lit ''stats'')) (lit ''rating'')) (lit ''value''))
                   (JNum (Fin 0))),
              (lit ''rankImg'', member (member seg (lit ''metadata'')) (lit ''imageUrl''))]
      else JNull)"

definition payload_part :: "jsval \<Rightarrow> string \<Rightarrow> jsval \<Rightarrow> jsval" where
  "payload_part data k dflt = js_or (member (member data (lit ''data'')) (lit k)) dflt"

definition account_of :: "jsval \<Rightarrow> jsstring \<Rightarrow> jsval" where
  "account_of data identifier =
     account_view (payload_part data ''platformInfo'' (JObj []))
       (payload_part data ''metadata'' (JObj [])) identifier"

definition competitive :: "jsval \<Rightarrow> bool" where
  "competitive s \<longleftrightarrow> member s (lit ''type'') = JStr (lit ''competitive'')"

lemmas profile_defs [handler_defs] =
  or_else_def is_competitive_def profile_account_def profile_rank_def format_profile_def
  profile_url_def profile_body_def get_profile_def

subsection \<open>The stages without their exception plumbing\<close>

lemma is_competitive_eq:
  "is_competitive s =
     (if s = JNull then Inl (ReadOfNull (lit ''type''))
      else if s = JUndefined then Inl (ReadOfUndefined (lit ''type''))
      else Inr (competitive s))"
  by (cases s) (simp_all add: is_competitive_def competitive_def is_string_def)

lemma is_competitive_not_nullish [simp]:
  "\<not> nullish s \<Longrightarrow> is_competitive s = Inr (competitive s)"
  by (auto simp: is_competitive_eq nullish_def)

lemma profile_account_eq:
  "\<not> nullish platformInfo \<Longrightarrow> \<not> nullish metadata \<Longrightarrow>
   profile_account platformInfo metadata identifier =
     Inr (account_view platformInfo metadata identifier)"
  by (simp add: profile_account_def account_view_def or_else_def get_prop_not_nullish js_or_def)

lemma profile_rank_eq: "profile_rank seg = Inr (rank_view seg)"
  by (simp add: profile_rank_def rank_view_def get_prop_not_nullish truthy_not_nullish
      opt_prop_member)

text \<open>
  The formatter, written with every property read and every short circuit of the
  source, equals its reference form: it throws only where \<^verbatim>\<open>data.data\<close> or the search for
  the competitive segment throws, and otherwise returns the account view and the rank
  view. The reads on \<^verbatim>\<open>platformInfo\<close>, \<^verbatim>\<open>metadata\<close> and the found segment never throw.
\<close>

lemma format_profile_eq:
  "format_profile data identifier =
     and_then (get_prop data (lit ''data'')) (\<lambda>d.
     and_then (call_find (payload_part data ''segments'' (JArr [])) is_competitive) (\<lambda>seg.
       Inr (JObj [(lit ''account'', account_of data identifier),
                  (lit ''rank'', rank_view seg)])))"
proof (cases "nullish data")
  case True
  then show ?thesis
    by (auto simp: nullish_def format_profile_def)
next
  case False
  then show ?thesis
    by (simp add: format_profile_def payload_part_def account_of_def get_prop_not_nullish
        opt_prop_member profile_account_eq profile_rank_eq)
qed

subsection \<open>Finding the competitive segment\<close>

lemma competitive_obj: "competitive s \<Longrightarrow> \<exists>kvs. s = JObj kvs"
  by (cases s) (auto simp: competitive_def index_of_key_def lit_def is_digit_def split: if_splits)

lemma competitive_truthy: "competitive s \<Longrightarrow> truthy s"
  by (auto dest: competitive_obj)

lemma is_competitive_competitive [simp]: "competitive s \<Longrightarrow> is_competitive s = Inr True"
  by (auto simp: is_competitive_eq competitive_def)

lemma find_competitive_none:
  "\<forall>s \<in> set xs. \<not> nullish s \<and> \<not> competitive s \<Longrightarrow>
   js_find is_competitive xs = Inr JUndefined"
  by (induction xs) auto

lemma find_competitive_first:
  "\<forall>y \<in> set ys. \<not> nullish y \<and> \<not> competitive y \<Longrightarrow> competitive s \<Longrightarrow>
   js_find is_competitive (ys @ s # zs) = Inr s"
  by (induction ys) auto

lemma find_competitive_null:
  "\<forall>y \<in> set ys. \<not> nullish y \<and> \<not> competitive y \<Longrightarrow>
   js_find is_competitive (ys @ JNull # zs) = Inl (ReadOfNull (lit ''type''))"
  by (induction ys) (auto simp: is_competitive_eq)

lemma find_competitive_throws_iff:
  assumes "list_all parsed xs"
  shows "(\<exists>e. js_find is_competitive xs = Inl e) \<longleftrightarrow>
         JNull \<in> set (takeWhile (\<lambda>s. \<not> competitive s) xs)"
  using assms
proof (induction xs)
  case Nil
  then show ?case by simp
next
  case (Cons x xs)
  then have "x \<noteq> JUndefined" by auto
  with Cons show ?case
    by (cases "x = JNull") (auto simp: is_competitive_eq competitive_def)
qed

subsection \<open>The formatted profile\<close>

lemma format_profile_found:
  "\<not> nullish data \<Longrightarrow>
   call_find (payload_part data ''segments'' (JArr [])) is_competitive = Inr seg \<Longrightarrow>
   format_profile data identifier =
     Inr (JObj [(lit ''account'', account_of data identifier), (lit ''rank'', rank_view seg)])"
  by (simp add: format_profile_eq get_prop_not_nullish)

text \<open>
  C4. When the payload has segments and none of them is of type \<^verbatim>\<open>competitive\<close>, the
  profile is the account view with \<^verbatim>\<open>rank: null\<close>.
\<close>

theorem format_profile_unranked:
  assumes "\<not> nullish data"
    and "payload_part data ''segments'' (JArr []) = JArr xs"
    and "\<forall>s \<in> set xs. \<not> nullish s \<and> \<not> competitive s"
  shows "format_profile data identifier =
           Inr (JObj [(lit ''account'', account_of data identifier), (lit ''rank'', JNull)])"
proof -
  from assms(2,3) have "call_find (payload_part data ''segments'' (JArr [])) is_competitive
      = Inr JUndefined"
    by (simp add: find_competitive_none)
  with assms(1) show ?thesis
    by (simp add: format_profile_found rank_view_def)
qed

text \<open>
  C3. When a segment of type \<^verbatim>\<open>competitive\<close> exists, the rank is built from the first
  one: its tier name or \<^verbatim>\<open>'Unranked'\<close>, its \<^verbatim>\<open>stats.rating.value\<close> or 0 when that is
  missing or falsy, and its image URL.
\<close>

theorem format_profile_ranked:
  assumes "\<not> nullish data"
    and "payload_part data ''segments'' (JArr []) = JArr (ys @ s # zs)"
    and "\<forall>y \<in> set ys. \<not> nullish y \<and> \<not> competitive y"
    and "competitive s"
  shows "format_profile data identifier =
           Inr (JObj [(lit ''account'', account_of data identifier),
                      (lit ''rank'',
                         JObj [(lit ''name'',
                                  js_or (member (member s (lit ''metadata'')) (lit ''tierName''))
                                    (JStr (lit ''Unranked''))),
                               (lit ''rating'',
                                  js_or (member (member (member s (lit ''stats'')) (lit ''rating''))
                                           (lit ''value''))
                                    (JNum (Fin 0))),
                               (lit ''rankImg'',
                                  member (member s (lit ''metadata'')) (lit ''imageUrl''))])])"
proof -
  from assms(2-4) have "call_find (payload_part data ''segments'' (JArr [])) is_competitive = Inr s"
    by (simp add: find_competitive_first)
  with assms(1) have "format_profile data identifier =
      Inr (JObj [(lit ''account'', account_of data identifier), (lit ''rank'', rank_view s)])"
    by (rule format_profile_found)
  with assms(4) show ?thesis
    by (simp add: rank_view_def competitive_truthy)
qed

lemma parsed_payload_part:
  "parsed data \<Longrightarrow> parsed dflt \<Longrightarrow> parsed (payload_part data k dflt)"
proof -
  assume pd: "parsed data" and dd: "parsed dflt"
  let ?v = "member (member data (lit ''data'')) (lit k)"
  show ?thesis
  proof (cases "truthy ?v")
    case True
    then have "?v \<noteq> JUndefined" and "member data (lit ''data'') \<noteq> JUndefined"
      by auto
    with pd have "parsed ?v"
      by (simp add: parsed_member)
    with True show ?thesis by (simp add: payload_part_def)
  next
    case False
    with dd show ?thesis by (simp add: payload_part_def)
  qed
qed

text \<open>
  C25. On a payload that \<^verbatim>\<open>JSON.parse\<close> returned, formatting throws in exactly three cases:
  the payload is \<^verbatim>\<open>null\<close>; \<^verbatim>\<open>data.segments\<close> is truthy and not an array; or the array has
  a \<^verbatim>\<open>null\<close> element before its first competitive segment.
\<close>

theorem format_profile_throws_iff:
  assumes "parsed data"
  shows "(\<exists>e. format_profile data identifier = Inl e) \<longleftrightarrow>
           data = JNull \<or>
           (case payload_part data ''segments'' (JArr []) of
              JArr xs \<Rightarrow> JNull \<in> set (takeWhile (\<lambda>s. \<not> competitive s) xs)
            | _ \<Rightarrow> True)"
proof (cases "data = JNull")
  case True
  then show ?thesis by (simp add: format_profile_eq)
next
  case False
  with assms have nn: "\<not> nullish data"
    by (auto simp: nullish_def)
  from assms have ps: "parsed (payload_part data ''segments'' (JArr []))"
    by (simp add: parsed_payload_part)
  have nf: "\<not> nullish (payload_part data ''segments'' (JArr []))"
    by (simp add: payload_part_def)
  have "(\<exists>e. format_profile data identifier = Inl e) \<longleftrightarrow>
        (\<exists>e. call_find (payload_part data ''segments'' (JArr [])) is_competitive = Inl e)"
    using nn by (auto simp: format_profile_eq get_prop_not_nullish and_then_eq_Inl_iff)
  also have "\<dots> \<longleftrightarrow>
      (case payload_part data ''segments'' (JArr []) of
         JArr xs \<Rightarrow> JNull \<in> set (takeWhile (\<lambda>s. \<not> competitive s) xs)
       | _ \<Rightarrow> True)"
    using ps nf
    by (cases "payload_part data ''segments'' (JArr [])")
      (simp_all add: find_competitive_throws_iff)
  finally show ?thesis using False by simp
qed

subsection \<open>The handler, branch by branch\<close>

lemma profile_body_encoded:
  "encodeURIComponent identifier = Inr encodedId \<Longrightarrow>
   profile_body rt fetch identifier =
     (ConsoleLog (lit ''Fetching profile: '' @ profile_url encodedId)
        # fst (call_tracker rt fetch (profile_url encodedId)),
      and_then (snd (call_tracker rt fetch (profile_url encodedId))) (\<lambda>got.
        case got of
          Reply response \<Rightarrow> Inr response
        | Payload data \<Rightarrow>
            and_then (format_profile data identifier) (\<lambda>profile. Inr (res_json 200 profile))))"
  by (simp add: profile_body_def Let_def)

lemma profile_body_malformed:
  "encodeURIComponent identifier = Inl e \<Longrightarrow> profile_body rt fetch identifier = ([], Inl e)"
  by (simp add: profile_body_def)

text \<open>
  C2. When the upstream answers with a status outside 200 to 299, the profile handler
  answers with the same status and the body
  \<^verbatim>\<open>{error: "Tracker API error: <status>", details: <upstream body text>}\<close>, after logging
  the URL, performing the one request and logging the upstream error.
\<close>

theorem get_profile_upstream_error:
  assumes "encodeURIComponent identifier = Inr encodedId"
    and "fetch (profile_url encodedId) (getHeaders rt) = FetchResolved r"
    and "\<not> response_ok r"
    and "up_text r = Inr errorText"
  shows "get_profile rt fetch identifier =
           (\<lparr>res_status = up_status r,
             res_body = Some (JObj [(lit ''error'',
                                      JStr (lit ''Tracker API error: '' @ show_nat (up_status r))),
                                   (lit ''details'', JStr errorText)])\<rparr>,
            [ConsoleLog (lit ''Fetching profile: '' @ profile_url encodedId),
             Fetch (profile_url encodedId) (getHeaders rt),
             ConsoleError (lit ''Tracker API error: '' @ show_nat (up_status r))
               (LogText errorText)])"
  using assms
  by (simp add: get_profile_def profile_body_def Let_def call_tracker_not_ok upstream_error_def
      res_json_def)

text \<open>
  C30. When the upstream answers with a status in 200 to 299 and a body that parses to a
  payload the formatter accepts, the handler answers 200 with the formatted profile as
  \<^verbatim>\<open>JSON.stringify\<close> writes it, and its only effects are the log line and the request.
\<close>

theorem get_profile_success:
  assumes "encodeURIComponent identifier = Inr encodedId"
    and "fetch (profile_url encodedId) (getHeaders rt) = FetchResolved r"
    and "response_ok r"
    and "up_json r = Inr data"
    and "format_profile data identifier = Inr profile"
  shows "get_profile rt fetch identifier =
           (\<lparr>res_status = 200, res_body = stringify profile\<rparr>,
            [ConsoleLog (lit ''Fetching profile: '' @ profile_url encodedId),
             Fetch (profile_url encodedId) (getHeaders rt)])"
  using assms
  by (simp add: get_profile_def profile_body_encoded call_tracker_ok res_json_def)

text \<open>
  C33. When the request itself fails (\<^verbatim>\<open>fetch\<close> rejects), the handler answers 500 with
  \<^verbatim>\<open>{error: "Internal server error", message: <the rejection's message>}\<close> and logs the
  error after the request.
\<close>

theorem get_profile_network_failure:
  assumes "encodeURIComponent identifier = Inr encodedId"
    and "fetch (profile_url encodedId) (getHeaders rt) = FetchRejected (Rejected m)"
  shows "get_profile rt fetch identifier =
           (\<lparr>res_status = 500,
             res_body = Some (JObj [(lit ''error'', JStr (lit ''Internal server error'')),
                                   (lit ''message'', JStr m)])\<rparr>,
            [ConsoleLog (lit ''Fetching profile: '' @ profile_url encodedId),
             Fetch (profile_url encodedId) (getHeaders rt),
             ConsoleError (lit ''Profile fetch error:'') (LogError (Rejected m))])"
  using assms
  by (simp add: get_profile_def profile_body_encoded call_tracker_rejected internal_error_def
      res_json_def)

text \<open>
  C34. When the upstream answers with a status in 200 to 299 but its body is not JSON
  (an empty 204 answer, an HTML page), \<^verbatim>\<open>response.json()\<close> rejects and the handler answers
  500 with the parser's message: an upstream success is not always a 200.
\<close>

theorem get_profile_unparsable:
  assumes "encodeURIComponent identifier = Inr encodedId"
    and "fetch (profile_url encodedId) (getHeaders rt) = FetchResolved r"
    and "response_ok r"
    and "up_json r = Inl (Rejected m)"
  shows "get_profile rt fetch identifier =
           (\<lparr>res_status = 500,
             res_body = Some (JObj [(lit ''error'', JStr (lit ''Internal server error'')),
                                   (lit ''message'', JStr m)])\<rparr>,
            [ConsoleLog (lit ''Fetching profile: '' @ profile_url encodedId),
             Fetch (profile_url encodedId) (getHeaders rt),
             ConsoleError (lit ''Profile fetch error:'') (LogError (Rejected m))])"
  using assms
  by (simp add: get_profile_def profile_body_encoded call_tracker_ok internal_error_def
      res_json_def)

text \<open>
  An identifier with a lone surrogate makes \<^verbatim>\<open>encodeURIComponent\<close> throw: the handler
  answers 500 and performs no request at all.
\<close>

lemma get_profile_malformed_identifier:
  assumes "\<not> well_formed identifier"
  shows "get_profile rt fetch identifier =
           (internal_error rt URIMalformed,
            [ConsoleError (lit ''Profile fetch error:'') (LogError URIMalformed)])"
proof -
  from assms have "encodeURIComponent identifier = Inl URIMalformed"
    by (rule enc_malformed)
  then show ?thesis
    by (simp add: get_profile_def profile_body_malformed)
qed

text \<open>
  C32. The profile handler performs at most one outbound request: none when the identifier
  cannot be encoded, and otherwise exactly one, to the profile URL of the encoded
  identifier with the headers of \<^verbatim>\<open>getHeaders\<close>.
\<close>

theorem get_profile_fetches:
  "fetches (snd (get_profile rt fetch identifier)) =
     (case encodeURIComponent identifier of
        Inl e \<Rightarrow> []
      | Inr encodedId \<Rightarrow> [(profile_url encodedId, getHeaders rt)])"
  by (cases "encodeURIComponent identifier")
    (simp_all add: get_profile_def profile_body_malformed profile_body_encoded)

lemma profile_body_forward:
  "profile_body rt fetch identifier =
     forward rt fetch (lit ''Fetching profile: '') profile_url
       (\<lambda>data. format_profile data identifier) identifier"
  by (simp add: profile_body_def forward_def Let_def)

lemma get_profile_proxy:
  "get_profile rt fetch identifier =
     proxy rt fetch (lit ''Fetching profile: '') (lit ''Profile fetch error:'') profile_url
       (\<lambda>data. format_profile data identifier) identifier"
  by (simp add: get_profile_def profile_body_forward forward_refines)

lemma get_profile_thrown:
  "snd (profile_body rt fetch identifier) = Inl e \<Longrightarrow>
   fst (get_profile rt fetch identifier) = internal_error rt e"
  by (cases "profile_body rt fetch identifier") (simp add: get_profile_def)

lemma get_profile_answered:
  "snd (profile_body rt fetch identifier) = Inr resp \<Longrightarrow>
   fst (get_profile rt fetch identifier) = resp"
  by (cases "profile_body rt fetch identifier") (simp add: get_profile_def)

lemma profile_body_answer_cases:
  assumes "snd (profile_body rt fetch identifier) = Inr resp"
  shows "(\<exists>encodedId r t. encodeURIComponent identifier = Inr encodedId \<and>
            fetch (profile_url encodedId) (getHeaders rt) = FetchResolved r \<and>
            \<not> response_ok r \<and> up_text r = Inr t \<and> resp = upstream_error (up_status r) t) \<or>
         (\<exists>encodedId r data profile. encodeURIComponent identifier = Inr encodedId \<and>
            fetch (profile_url encodedId) (getHeaders rt) = FetchResolved r \<and>
            response_ok r \<and> up_json r = Inr data \<and>
            format_profile data identifier = Inr profile \<and> resp = res_json 200 profile)"
proof (cases "encodeURIComponent identifier")
  case (Inl e)
  with assms show ?thesis by (simp add: profile_body_malformed)
next
  case (Inr encodedId)
  with assms obtain got
    where got: "snd (call_tracker rt fetch (profile_url encodedId)) = Inr got"
      and resp: "(case got of Reply response \<Rightarrow> Inr response
                  | Payload data \<Rightarrow> and_then (format_profile data identifier)
                      (\<lambda>profile. Inr (res_json 200 profile))) = Inr resp"
    by (auto simp: profile_body_encoded and_then_eq_Inr_iff)
  show ?thesis
  proof (cases got)
    case (Reply response)
    with got resp Inr show ?thesis
      by (auto dest!: call_tracker_Reply)
  next
    case (Payload data)
    with resp obtain profile where "format_profile data identifier = Inr profile"
      and "resp = res_json 200 profile"
      by (auto simp: and_then_eq_Inr_iff)
    with got Payload Inr show ?thesis
      by (auto dest!: call_tracker_Payload)
  qed
qed

text \<open>
  The status of the profile handler's answer is 200, or 500, or the status of an
  upstream answer outside 200 to 299 to the request for the profile URL. An upstream
  status from 201 to 299 is never passed on.
\<close>

lemma get_profile_status:
  "res_status (fst (get_profile rt fetch identifier)) = 200 \<or>
   res_status (fst (get_profile rt fetch identifier)) = 500 \<or>
   (\<exists>encodedId r. encodeURIComponent identifier = Inr encodedId \<and>
      fetch (profile_url encodedId) (getHeaders rt) = FetchResolved r \<and>
      (up_status r < 200 \<or> 300 \<le> up_status r) \<and>
      res_status (fst (get_profile rt fetch identifier)) = up_status r)"
proof (cases "snd (profile_body rt fetch identifier)")
  case (Inl e)
  then show ?thesis by (simp add: get_profile_thrown)
next
  case (Inr resp)
  then have "fst (get_profile rt fetch identifier) = resp"
    by (rule get_profile_answered)
  with profile_body_answer_cases [OF Inr] show ?thesis
    by (auto simp: response_ok_def)
qed

subsection \<open>The body is a JSON value\<close>

lemma distinct_keys_payload_part:
  "distinct_keys data \<Longrightarrow> distinct_keys dflt \<Longrightarrow> distinct_keys (payload_part data k dflt)"
  by (simp add: payload_part_def distinct_keys_js_or distinct_keys_member)

lemma distinct_keys_account_view:
  "distinct_keys platformInfo \<Longrightarrow> distinct_keys metadata \<Longrightarrow>
   distinct_keys (account_view platformInfo metadata identifier)"
  by (simp add: account_view_def distinct_keys_js_or distinct_keys_member)

lemma distinct_keys_rank_view: "distinct_keys seg \<Longrightarrow> distinct_keys (rank_view seg)"
  by (simp add: rank_view_def distinct_keys_js_or distinct_keys_member)

lemma distinct_keys_call_find:
  "distinct_keys v \<Longrightarrow> call_find v p = Inr seg \<Longrightarrow> distinct_keys seg"
  by (cases v) (auto simp: list_all_iff dest!: js_find_member_or_undefined)

lemma distinct_keys_format_profile:
  assumes "distinct_keys data" and "format_profile data identifier = Inr profile"
  shows "distinct_keys profile \<and> profile \<noteq> JUndefined"
proof -
  from assms(2) obtain seg
    where seg: "call_find (payload_part data ''segments'' (JArr [])) is_competitive = Inr seg"
      and profile: "profile = JObj [(lit ''account'', account_of data identifier),
                                    (lit ''rank'', rank_view seg)]"
    by (auto simp: format_profile_eq and_then_eq_Inr_iff)
  from assms(1) have "distinct_keys (payload_part data ''segments'' (JArr []))"
    by (simp add: distinct_keys_payload_part)
  then have "distinct_keys seg"
    using seg by (rule distinct_keys_call_find)
  with assms(1) profile show ?thesis
    by (simp add: account_of_def distinct_keys_account_view distinct_keys_payload_part
        distinct_keys_rank_view)
qed

lemma json_value_upstream_error:
  "\<exists>b. res_body (upstream_error st t) = Some b \<and> json_value b"
  by (simp add: upstream_error_body)

lemma json_value_internal_error:
  "\<exists>b. res_body (internal_error rt e) = Some b \<and> json_value b"
  by (simp add: internal_error_body)

text \<open>
  Whatever the upstream does, the profile handler answers with a body, and the body
  is a value of the JSON data model: no \<^verbatim>\<open>undefined\<close>, no non-finite number, no object
  with a repeated key. The only assumption is that parsed payloads are objects as
  JavaScript holds them (keys distinct).
\<close>

lemma get_profile_body_json:
  assumes "\<And>url hs r d. fetch url hs = FetchResolved r \<Longrightarrow> up_json r = Inr d \<Longrightarrow> distinct_keys d"
  shows "\<exists>b. res_body (fst (get_profile rt fetch identifier)) = Some b \<and> json_value b"
proof (cases "snd (profile_body rt fetch identifier)")
  case (Inl e)
  then show ?thesis
    by (simp add: get_profile_thrown json_value_internal_error)
next
  case (Inr resp)
  then have fst: "fst (get_profile rt fetch identifier) = resp"
    by (rule get_profile_answered)
  from profile_body_answer_cases [OF Inr] show ?thesis
  proof (elim disjE exE conjE)
    fix encodedId t and r :: upstream_response
    assume "resp = upstream_error (up_status r) t"
    with fst show ?thesis by (simp add: json_value_upstream_error)
  next
    fix encodedId r data profile
    assume "fetch (profile_url encodedId) (getHeaders rt) = FetchResolved r"
      and "up_json r = Inr data"
      and fp: "format_profile data identifier = Inr profile"
      and resp: "resp = res_json 200 profile"
    then have "distinct_keys data" by (auto dest: assms)
    from distinct_keys_format_profile [OF this fp] obtain b
      where "stringify profile = Some b" and "json_value b"
      by (cases "stringify profile") (auto dest: json_value_stringify)
    with fst resp show ?thesis by simp
  qed
qed

text \<open>
  C39. When the payload's metadata has neither \<^verbatim>\<open>bannerImageUrl\<close> nor \<^verbatim>\<open>avatarUrl\<close>, the
  account object that is sent has no \<^verbatim>\<open>card\<close> member at all: \<^verbatim>\<open>JSON.stringify\<close> drops the
  member whose value is \<^verbatim>\<open>undefined\<close>; it does not write \<^verbatim>\<open>null\<close>.
\<close>

theorem profile_card_omitted:
  assumes "profile_account platformInfo metadata identifier = Inr account"
    and "member metadata (lit ''bannerImageUrl'') = JUndefined"
    and "member metadata (lit ''avatarUrl'') = JUndefined"
  shows "\<exists>name level. stringify account =
           Some (JObj [(lit ''name'', name), (lit ''level'', level)])"
proof -
  from assms(1) have nn: "\<not> nullish platformInfo" "\<not> nullish metadata"
    by (auto simp: profile_account_def and_then_eq_Inr_iff get_prop_eq_Inr_iff)
  with assms(1) have account: "account = account_view platformInfo metadata identifier"
    by (simp add: profile_account_eq)
  have "stringify (js_or a (JStr d)) \<noteq> None" for a d
    by (cases "truthy a") auto
  then obtain name level
    where "stringify (js_or (member platformInfo (lit ''platformUserHandle'')) (JStr identifier))
             = Some name"
      and "stringify (js_or (member metadata (lit ''level'')) (JStr (lit ''N/A''))) = Some level"
    by (meson option.exhaust)
  with account assms(2,3) show ?thesis
    by (simp add: account_view_def)
qed

subsection \<open>Closed instances\<close>

definition ranked_payload :: jsval where
  "ranked_payload =
     JObj [(lit ''data'', JObj [
       (lit ''platformInfo'', JObj [(lit ''platformUserHandle'', JStr (lit ''Player#NA1''))]),
       (lit ''metadata'', JObj [(lit ''level'', JNum (Fin 42)),
                               (lit ''avatarUrl'', JStr (lit ''https://img/a.png''))]),
       (lit ''segments'', JArr [
          JObj [(lit ''type'', JStr (lit ''unrated''))],
          JObj [(lit ''type'', JStr (lit ''competitive'')),
                (lit ''metadata'', JObj [(lit ''tierName'', JStr (lit ''Gold 2''))]),
                (lit ''stats'', JObj [(lit ''rating'', JObj [(lit ''value'', JNum (Fin 57))])])]])])]"

definition unranked_payload :: jsval where
  "unranked_payload =
     JObj [(lit ''data'', JObj [
       (lit ''metadata'', JObj [(lit ''level'', JNum (Fin 42))]),
       (lit ''segments'', JArr [JObj [(lit ''type'', JStr (lit ''unrated''))]])])]"

definition null_segment_payload :: jsval where
  "null_segment_payload = JObj [(lit ''data'', JObj [(lit ''segments'', JArr [JNull])])]"

lemmas demo_defs = demo_runtime_def ranked_payload_def unranked_payload_def
  null_segment_payload_def reply_with_def payload_part_def account_of_def account_view_def
  competitive_def

lemma demo_url:
  "profile_url (lit ''Player%23NA1'') =
     lit ''https://api.tracker.gg/api/v2/valorant/standard/profile/riot/Player%23NA1''"
  by (simp add: profile_url_def TRACKER_API_BASE_def flip: lit_append)

theorem get_profile_upstream_error_witness:
  "get_profile demo_runtime (reply_with 404 (lit ''no such player'') JNull) (lit ''Player#NA1'') =
     (\<lparr>res_status = 404,
       res_body = Some (JObj [(lit ''error'', JStr (lit ''Tracker API error: 404'')),
                             (lit ''details'', JStr (lit ''no such player''))])\<rparr>,
      [ConsoleLog (lit ''Fetching profile: '' @ profile_url (lit ''Player%23NA1'')),
       Fetch (profile_url (lit ''Player%23NA1'')) (getHeaders demo_runtime),
       ConsoleError (lit ''Tracker API error: 404'') (LogText (lit ''no such player''))])"
  using get_profile_upstream_error [OF enc_riot_id, of "reply_with 404 (lit ''no such player'') JNull"
      demo_runtime "\<lparr>up_status = 404, up_text = Inr (lit ''no such player''), up_json = Inr JNull\<rparr>"
      "lit ''no such player''"]
  by (simp add: reply_with_def response_ok_def show_nat_404 flip: lit_append)

lemma format_unranked_payload:
  "format_profile unranked_payload (lit ''Player#NA1'') =
     Inr (JObj [(lit ''account'',
                   JObj [(lit ''name'', JStr (lit ''Player#NA1'')),
                         (lit ''level'', JNum (Fin 42)),
                         (lit ''card'', JUndefined)]),
                (lit ''rank'', JNull)])"
  by (simp add: format_profile_eq demo_defs rank_view_def)

theorem format_profile_unranked_witness:
  "format_profile unranked_payload (lit ''Player#NA1'') =
     Inr (JObj [(lit ''account'',
                   JObj [(lit ''name'', JStr (lit ''Player#NA1'')),
                         (lit ''level'', JNum (Fin 42)),
                         (lit ''card'', JUndefined)]),
                (lit ''rank'', JNull)])"
  using format_profile_unranked [of unranked_payload
      "[JObj [(lit ''type'', JStr (lit ''unrated''))]]" "lit ''Player#NA1''"]
  by (simp add: demo_defs)

theorem format_profile_ranked_witness:
  "format_profile ranked_payload (lit ''Player#NA1'') =
     Inr (JObj [(lit ''account'',
                   JObj [(lit ''name'', JStr (lit ''Player#NA1'')),
                         (lit ''level'', JNum (Fin 42)),
                         (lit ''card'', JStr (lit ''https://img/a.png''))]),
                (lit ''rank'',
                   JObj [(lit ''name'', JStr (lit ''Gold 2'')),
                         (lit ''rating'', JNum (Fin 57)),
                         (lit ''rankImg'', JUndefined)])])"
  using format_profile_ranked [of ranked_payload
      "[JObj [(lit ''type'', JStr (lit ''unrated''))]]"
      "JObj [(lit ''type'', JStr (lit ''competitive'')),
             (lit ''metadata'', JObj [(lit ''tierName'', JStr (lit ''Gold 2''))]),
             (lit ''stats'', JObj [(lit ''rating'', JObj [(lit ''value'', JNum (Fin 57))])])]"
      "[]" "lit ''Player#NA1''"]
  by (simp add: demo_defs)

theorem format_profile_throws_iff_witness:
  "(\<exists>e. format_profile null_segment_payload (lit ''Player#NA1'') = Inl e)"
  using format_profile_throws_iff [of null_segment_payload "lit ''Player#NA1''"]
  by (simp add: demo_defs)

theorem get_profile_success_witness:
  "get_profile demo_runtime (reply_with 200 [] unranked_payload) (lit ''Player#NA1'') =
     (\<lparr>res_status = 200,
       res_body = Some (JObj [(lit ''account'',
                                JObj [(lit ''name'', JStr (lit ''Player#NA1'')),
                                      (lit ''level'', JNum (Fin 42))]),
                             (lit ''rank'', JNull)])\<rparr>,
      [ConsoleLog (lit ''Fetching profile: '' @ profile_url (lit ''Player%23NA1'')),
       Fetch (profile_url (lit ''Player%23NA1'')) (getHeaders demo_runtime)])"
  using get_profile_success [OF enc_riot_id _ _ _ format_unranked_payload,
      of "reply_with 200 [] unranked_payload" demo_runtime
      "\<lparr>up_status = 200, up_text = Inr [], up_json = Inr unranked_payload\<rparr>"]
  by (simp add: reply_with_def response_ok_def)

theorem get_profile_network_failure_witness:
  "get_profile demo_runtime network_down (lit ''Player#NA1'') =
     (\<lparr>res_status = 500,
       res_body = Some (JObj [(lit ''error'', JStr (lit ''Internal server error'')),
                             (lit ''message'', JStr (lit ''connect ECONNREFUSED''))])\<rparr>,
      [ConsoleLog (lit ''Fetching profile: '' @ profile_url (lit ''Player%23NA1'')),
       Fetch (profile_url (lit ''Player%23NA1'')) (getHeaders demo_runtime),
       ConsoleError (lit ''Profile fetch error:'')
         (LogError (Rejected (lit ''connect ECONNREFUSED'')))])"
  using get_profile_network_failure [OF enc_riot_id, of network_down demo_runtime
      "lit ''connect ECONNREFUSED''"]
  by (simp add: network_down_def)

theorem get_profile_unparsable_witness:
  "get_profile demo_runtime no_content (lit ''Player#NA1'') =
     (\<lparr>res_status = 500,
       res_body = Some (JObj [(lit ''error'', JStr (lit ''Internal server error'')),
                             (lit ''message'', JStr (lit ''Unexpected end of JSON input''))])\<rparr>,
      [ConsoleLog (lit ''Fetching profile: '' @ profile_url (lit ''Player%23NA1'')),
       Fetch (profile_url (lit ''Player%23NA1'')) (getHeaders demo_runtime),
       ConsoleError (lit ''Profile fetch error:'')
         (LogError (Rejected (lit ''Unexpected end of JSON input'')))])"
  using get_profile_unparsable [OF enc_riot_id, of no_content demo_runtime
      "\<lparr>up_status = 204, up_text = Inr [],
        up_json = Inl (Rejected (lit ''Unexpected end of JSON input''))\<rparr>"
      "lit ''Unexpected end of JSON input''"]
  by (simp add: no_content_def response_ok_def)

theorem profile_card_omitted_witness:
  "stringify (JObj [(lit ''name'', JStr (lit ''Player#NA1'')), (lit ''level'', JNum (Fin 42)),
                    (lit ''card'', JUndefined)]) =
     Some (JObj [(lit ''name'', JStr (lit ''Player#NA1'')), (lit ''level'', JNum (Fin 42))]) \<and>
   profile_account (JObj []) (JObj [(lit ''level'', JNum (Fin 42))]) (lit ''Player#NA1'') =
     Inr (JObj [(lit ''name'', JStr (lit ''Player#NA1'')), (lit ''level'', JNum (Fin 42)),
                (lit ''card'', JUndefined)])"
proof -
  have a: "profile_account (JObj []) (JObj [(lit ''level'', JNum (Fin 42))]) (lit ''Player#NA1'') =
     Inr (JObj [(lit ''name'', JStr (lit ''Player#NA1'')), (lit ''level'', JNum (Fin 42)),
                (lit ''card'', JUndefined)])"
    by (simp add: profile_account_def or_else_def)
  from profile_card_omitted [OF a] a show ?thesis by simp
qed

lemma get_profile_malformed_identifier_witness:
  "get_profile demo_runtime (reply_with 200 [] unranked_payload) [0x41, 0xD83D] =
     (\<lparr>res_status = 500,
       res_body = Some (JObj [(lit ''error'', JStr (lit ''Internal server error'')),
                             (lit ''message'', JStr (lit ''engine text''))])\<rparr>,
      [ConsoleError (lit ''Profile fetch error:'') (LogError URIMalformed)])"
  using get_profile_malformed_identifier [of "[0x41, 0xD83D]" demo_runtime
      "reply_with 200 [] unranked_payload"]
  by (simp add: is_lead_def is_trail_def internal_error_def res_json_def error_message_def
      demo_runtime_def)

end
