(* ===== verification/Matches.thy ===== *)
theory Matches
  imports Proxy_Service Js_Array
begin

text \<open>
  The matches route, \<^verbatim>\<open>app.get('/api/matches/:identifier', ...)\<close>
  (\<^verbatim>\<open>src/server.js\<close>, lines 78 to 130).

  \<^item> \<open>query_value\<close> is what \<^verbatim>\<open>req.query.limit\<close> can hold when the query gives \<^verbatim>\<open>limit\<close>: a
    string, an array (\<^verbatim>\<open>limit\<close> given more than once, or as \<^verbatim>\<open>limit[]\<close>) or an object
    (\<^verbatim>\<open>limit[k]\<close>), with strings at the leaves. \<open>limit_value\<close> is \<^verbatim>\<open>req.query.limit || 20\<close>
    (\<open>query_truthy\<close> is \<^verbatim>\<open>ToBoolean\<close>), \<open>to_number\<close> the conversion \<^verbatim>\<open>slice\<close> applies to its
    argument (\<open>query_text\<close> is \<^verbatim>\<open>ToString\<close>, with \<open>join_text\<close> the \<^verbatim>\<open>join\<close> of an array), and
    \<open>limit_number\<close> their composition.
  \<^item> \<open>format_match\<close> is the callback of \<^verbatim>\<open>map\<close> (lines 102 to 119) and \<open>format_matches\<close> the
    block from \<^verbatim>\<open>data.data?.matches\<close> to the answer's object (lines 99 to 121).
  \<^item> \<open>matches_body\<close> is the \<^verbatim>\<open>try\<close> block and \<open>get_matches\<close> the whole handler.
  \<^item> \<open>match_view\<close> and \<open>stat_value\<close> are the reference form of the callback, without
    exceptions.

  The lemmas show how many matches the handler returns for every kind of limit (a
  decimal, none, an empty one, a negative one, one given twice or with brackets), that
  it keeps their order, that a larger limit extends the answer, and what the handler
  answers on every branch.
\<close>

datatype query_value =
    QStr jsstring
  | QArr "query_value list"
  | QObj "(jsstring \<times> query_value) list"

datatype limit_arg = Query query_value | Count jsnum

fun query_truthy :: "query_value \<Rightarrow> bool" where
  "query_truthy (QStr s) = (s \<noteq> [])"
| "query_truthy v = True"

fun join_text :: "jsstring list \<Rightarrow> jsstring" where
  "join_text [] = []"
| "join_text [s] = s"
| "join_text (s # t # ts) = s @ 44 # join_text (t # ts)"

fun query_text :: "query_value \<Rightarrow> jsstring" where
  "query_text (QStr s) = s"
| "query_text (QArr vs) = join_text (map query_text vs)"
| "query_text (QObj kvs) = lit ''[object Object]''"

definition limit_value :: "query_value option \<Rightarrow> limit_arg" where
  "limit_value q =
     (case q of
        None \<Rightarrow> Count (Fin 20)
      | Some v \<Rightarrow> if query_truthy v then Query v else Count (Fin 20))"

definition to_number :: "limit_arg \<Rightarrow> jsnum" where
  "to_number a = (case a of Query v \<Rightarrow> string_to_number (query_text v) | Count n \<Rightarrow> n)"

definition limit_number :: "query_value option \<Rightarrow> jsnum" where
  "limit_number q = to_number (limit_value q)"

definition format_match :: "jsval \<Rightarrow> js_error + jsval" where
  "format_match match =
     and_then (get_prop match (lit ''segments'')) (\<lambda>segs.
     let segment = opt_prop segs (lit ''0'');
         stats = js_or (opt_prop segment (lit ''stats'')) (JObj []);
         metadata = js_or (opt_prop segment (lit ''metadata'')) (JObj []) in
     and_then (get_prop metadata (lit ''hasWon'')) (\<lambda>hasWon.
     and_then (get_prop metadata (lit ''mapName'')) (\<lambda>mapName.
     and_then (get_prop metadata (lit ''agentName'')) (\<lambda>agentName.
     and_then (get_prop stats (lit ''kills'')) (\<lambda>kills.
     and_then (get_prop stats (lit ''deaths'')) (\<lambda>deaths.
     and_then (get_prop stats (lit ''assists'')) (\<lambda>assists.
     and_then (get_prop stats (lit ''score'')) (\<lambda>score.
     and_then (get_prop stats (lit ''headshots'')) (\<lambda>headshots.
     and_then (get_prop stats (lit ''kDRatio'')) (\<lambda>kDRatio.
     and_then (get_prop match (lit ''metadata'')) (\<lambda>matchMetadata.
       Inr (JObj [(lit ''won'', js_or hasWon (JBool False)),
                  (lit ''map'', js_or mapName (JStr (lit ''Unknown''))),
                  (lit ''agent'', js_or agentName (JStr (lit ''Unknown''))),
                  (lit ''kills'', js_or (opt_prop kills (lit ''value'')) (JNum (Fin 0))),
                  (lit ''deaths'', js_or (opt_prop deaths (lit ''value'')) (JNum (Fin 0))),
                  (lit ''assists'', js_or (opt_prop assists (lit ''value'')) (JNum (Fin 0))),
                  (lit ''score'', js_or (opt_prop score (lit ''value'')) (JNum (Fin 0))),
                  (lit ''headshots'', js_or (opt_prop headshots (lit ''value'')) (JNum (Fin 0))),
                  (lit ''kd'', js_or (opt_prop kDRatio (lit ''value'')) (JNum (Fin 0))),
                  (lit ''timestamp'', opt_prop matchMetadata (lit ''timestamp''))]))))))))))))"

definition format_matches :: "jsval \<Rightarrow> jsnum \<Rightarrow> js_error + jsval" where
  "format_matches data limit =
     and_then (get_prop data (lit ''data'')) (\<lambda>d.
     and_then (call_slice (js_or (opt_prop d (lit ''matches'')) (JArr [])) (Fin 0) limit) (\<lambda>matches.
     and_then (call_map matches format_match) (\<lambda>formattedMatches.
       Inr (JObj [(lit ''matches'', formattedMatches)]))))"

definition matches_url :: "jsstring \<Rightarrow> jsstring" where
  "matches_url encodedId = TRACKER_API_BASE @ lit ''/matches/riot/'' @ encodedId"

definition matches_body ::
  "runtime \<Rightarrow> fetcher \<Rightarrow> jsstring \<Rightarrow> query_value option \<Rightarrow> http_response action" where
  "matches_body rt fetch identifier q =
     (let limit = limit_number q in
      case encodeURIComponent identifier of
        Inl e \<Rightarrow> ([], Inl e)
      | Inr encodedId \<Rightarrow>
          let url = matches_url encodedId;
              called = call_tracker rt fetch url
          in (ConsoleLog (lit ''Fetching matches: '' @ url) # fst called,
              and_then (snd called) (\<lambda>got.
                case got of
                  Reply response \<Rightarrow> Inr response
                | Payload data \<Rightarrow>
                    and_then (format_matches data limit) (\<lambda>answer.
                      Inr (res_json 200 answer)))))"

definition get_matches ::
  "runtime \<Rightarrow> fetcher \<Rightarrow> jsstring \<Rightarrow> query_value option \<Rightarrow> http_response \<times> effect list" where
  "get_matches rt fetch identifier q =
     catching rt (lit ''Matches fetch error:'') (matches_body rt fetch identifier q)"

definition stat_value :: "jsval \<Rightarrow> string \<Rightarrow> jsval" where
  "stat_value stats k = js_or (member (member stats (lit k)) (lit ''value'')) (JNum (Fin 0))"

definition first_segment :: "jsval \<Rightarrow> jsval" where
  "first_segment match = member (member match (lit ''segments'')) (lit ''0'')"

definition upstream_matches :: "jsval \<Rightarrow> jsval" where
  "upstream_matches data = js_or (member (member data (lit ''data'')) (lit ''matches'')) (JArr [])"

definition match_view :: "jsval \<Rightarrow> jsval" where
  "match_view match =
     (let stats = js_or (member (first_segment match) (lit ''stats'')) (JObj []);
          metadata = js_or (member (first_segment match) (lit ''metadata'')) (JObj [])
      in JObj [(lit ''won'', js_or (member metadata (lit ''hasWon'')) (JBool False)),
               (lit ''map'', js_or (member metadata (lit ''mapName'')) (JStr (lit ''Unknown''))),
               (lit ''agent'', js_or (member metadata (lit ''agentName'')) (JStr (lit ''Unknown''))),
               (lit ''kills'', stat_value stats ''kills''),
               (lit ''deaths'', stat_value stats ''deaths''),
               (lit ''assists'', stat_value stats ''assists''),
               (lit ''score'', stat_value stats ''score''),
               (lit ''headshots'', stat_value stats ''headshots''),
               (lit ''kd'', stat_value stats ''kDRatio''),
               (lit ''timestamp'', member (member match (lit ''metadata'')) (lit ''timestamp''))])"

lemmas matches_defs [handler_defs] =
  limit_value_def to_number_def limit_number_def format_match_def format_matches_def
  matches_url_def matches_body_def get_matches_def

subsection \<open>The limit\<close>

lemma limit_number_absent [simp]: "limit_number None = Fin 20"
  by (simp add: limit_number_def limit_value_def to_number_def)

lemma limit_number_empty [simp]: "limit_number (Some (QStr [])) = Fin 20"
  by (simp add: limit_number_def limit_value_def to_number_def)

lemma limit_number_given:
  "s \<noteq> [] \<Longrightarrow> limit_number (Some (QStr s)) = string_to_number s"
  by (simp add: limit_number_def limit_value_def to_number_def)

lemma limit_number_array:
  "limit_number (Some (QArr vs)) = string_to_number (join_text (map query_text vs))"
  by (simp add: limit_number_def limit_value_def to_number_def)

lemma limit_number_single: "limit_number (Some (QArr [v])) = string_to_number (query_text v)"
  by (simp add: limit_number_array)

lemma comma_not_numeric: "\<not> numeric_char 44"
  by (simp add: numeric_char_def is_space_def is_digit_def lit_def)

lemma limit_number_repeated: "limit_number (Some (QArr (v # w # vs))) = NaN"
  unfolding limit_number_array
  by (rule string_to_number_NaN [of 44]) (simp_all add: comma_not_numeric)

lemma limit_number_object: "limit_number (Some (QObj kvs)) = NaN"
proof -
  have "\<not> numeric_char 91"
    by (simp add: numeric_char_def is_space_def is_digit_def lit_def)
  then have "string_to_number (lit ''[object Object]'') = NaN"
    by (intro string_to_number_NaN [of 91]) (simp_all add: lit_def)
  then show ?thesis
    by (simp add: limit_number_def limit_value_def to_number_def)
qed

lemma string_to_number_show_nat_round:
  "string_to_number (show_nat n) = round_double (of_nat n)"
  by (simp add: string_to_number_digits show_nat_digits dec_value_show_nat)

text \<open>
  The decimal text of a number below \<open>2\<^sup>5\<^sup>3\<close>, as a template literal writes it,
  converts back to the same number: \<^verbatim>\<open>Number(String(n)) === n\<close>.
\<close>

lemma string_to_number_show_nat:
  "n < 2 ^ 53 \<Longrightarrow> string_to_number (show_nat n) = Fin (of_nat n)"
  by (simp add: string_to_number_show_nat_round round_double_nat)

lemma limit_number_show_nat:
  "n < 2 ^ 53 \<Longrightarrow> limit_number (Some (QStr (show_nat n))) = Fin (of_nat n)"
  by (simp add: limit_number_given string_to_number_show_nat_round round_double_nat)

lemma limit_number_minus_show_nat:
  "n < 2 ^ 53 \<Longrightarrow> limit_number (Some (QStr (45 # show_nat n))) = Fin (- of_nat n)"
  using round_double_int [of "- int n"]
  by (simp add: limit_number_given string_to_number_minus_digits show_nat_digits
      dec_value_show_nat)

subsection \<open>One match\<close>

lemma format_match_not_nullish:
  "\<not> nullish match \<Longrightarrow> format_match match = Inr (match_view match)"
  by (simp add: format_match_def match_view_def stat_value_def first_segment_def Let_def
      get_prop_not_nullish opt_prop_member)

text \<open>
  C9. The callback of \<^verbatim>\<open>map\<close>, written with every property read and every short circuit of
  the source, throws exactly on an entry that is \<^verbatim>\<open>null\<close> or \<^verbatim>\<open>undefined\<close> and otherwise
  returns the reference view of the entry: the reads on \<^verbatim>\<open>stats\<close> and \<^verbatim>\<open>metadata\<close> never
  throw, whatever the entry is.
\<close>

theorem format_match_eq:
  "format_match match =
     (if match = JNull then Inl (ReadOfNull (lit ''segments''))
      else if match = JUndefined then Inl (ReadOfUndefined (lit ''segments''))
      else Inr (match_view match))"
proof (cases "nullish match")
  case True
  then show ?thesis
    by (auto simp: nullish_def format_match_def)
next
  case False
  then have "format_match match = Inr (match_view match)"
    by (simp add: format_match_def match_view_def stat_value_def first_segment_def Let_def
        get_prop_not_nullish opt_prop_member)
  with False show ?thesis
    by auto
qed

lemma js_map_format_match:
  "\<forall>m \<in> set ms. \<not> nullish m \<Longrightarrow> js_map format_match ms = Inr (map match_view ms)"
  by (intro js_map_total) (simp add: format_match_not_nullish)

lemma js_map_format_match_null:
  assumes "\<forall>m \<in> set ms. \<not> nullish m"
  shows "js_map format_match (ms @ JNull # rest) = Inl (ReadOfNull (lit ''segments''))"
proof -
  have "format_match JNull = Inl (ReadOfNull (lit ''segments''))"
    by (simp add: format_match_def)
  with assms show ?thesis
    by (simp add: js_map_append js_map_format_match)
qed

lemma format_match_nullish: "nullish match \<Longrightarrow> \<exists>e. format_match match = Inl e"
  by (auto simp: nullish_def format_match_def)

lemma format_match_eq_Inr_iff:
  "format_match match = Inr v \<longleftrightarrow> \<not> nullish match \<and> v = match_view match"
proof (cases "nullish match")
  case True
  with format_match_nullish [OF True] show ?thesis by auto
next
  case False
  with format_match_not_nullish [OF False] show ?thesis by auto
qed

lemma js_map_format_match_Inr:
  "js_map format_match ms = Inr vs \<Longrightarrow> vs = map match_view ms \<and> (\<forall>m \<in> set ms. \<not> nullish m)"
proof (induction ms arbitrary: vs)
  case Nil
  then show ?case by simp
next
  case (Cons m ms)
  from Cons.prems obtain v ws
    where "format_match m = Inr v" "js_map format_match ms = Inr ws" "vs = v # ws"
    by (auto simp: and_then_eq_Inr_iff)
  with Cons.IH [of ws] show ?case
    by (simp add: format_match_eq_Inr_iff)
qed

subsection \<open>The list of matches\<close>

lemma upstream_matches_not_nullish [simp]: "\<not> nullish (upstream_matches data)"
  by (simp add: upstream_matches_def)

lemma format_matches_eq:
  "format_matches data limit =
     and_then (get_prop data (lit ''data'')) (\<lambda>d.
     and_then (call_slice (upstream_matches data) (Fin 0) limit) (\<lambda>matches.
     and_then (call_map matches format_match) (\<lambda>formattedMatches.
       Inr (JObj [(lit ''matches'', formattedMatches)]))))"
proof (cases "nullish data")
  case True
  then show ?thesis
    by (auto simp: nullish_def format_matches_def)
next
  case False
  then show ?thesis
    by (simp add: format_matches_def upstream_matches_def get_prop_not_nullish opt_prop_member)
qed

lemma format_matches_array:
  assumes "\<not> nullish data" and "upstream_matches data = JArr ms"
  shows "format_matches data limit =
           and_then (js_map format_match (js_slice ms (Fin 0) limit)) (\<lambda>vs.
             Inr (JObj [(lit ''matches'', JArr vs)]))"
  using assms by (simp add: format_matches_eq get_prop_not_nullish and_then_assoc)

lemma format_matches_selected:
  assumes "\<not> nullish data" and "upstream_matches data = JArr ms"
    and "\<forall>m \<in> set (js_slice ms (Fin 0) limit). \<not> nullish m"
  shows "format_matches data limit =
           Inr (JObj [(lit ''matches'', JArr (map match_view (js_slice ms (Fin 0) limit)))])"
  using assms by (simp add: format_matches_array js_map_format_match)

lemma format_matches_Inr:
  assumes "format_matches data limit = Inr answer"
  shows "\<exists>ms. \<not> nullish data \<and> upstream_matches data = JArr ms \<and>
           (\<forall>m \<in> set (js_slice ms (Fin 0) limit). \<not> nullish m) \<and>
           answer = JObj [(lit ''matches'', JArr (map match_view (js_slice ms (Fin 0) limit)))]"
proof -
  from assms have nn: "\<not> nullish data"
    by (auto simp: format_matches_eq and_then_eq_Inr_iff get_prop_eq_Inr_iff)
  from assms obtain sel vs
    where sel: "call_slice (upstream_matches data) (Fin 0) limit = Inr sel"
      and vs: "call_map sel format_match = Inr vs"
      and answer: "answer = JObj [(lit ''matches'', vs)]"
    by (auto simp: format_matches_eq and_then_eq_Inr_iff)
  from sel vs obtain ms where ms: "upstream_matches data = JArr ms"
    by (cases "upstream_matches data") auto
  with sel vs obtain ws where "js_map format_match (js_slice ms (Fin 0) limit) = Inr ws"
    and "vs = JArr ws"
    by (auto simp: and_then_eq_Inr_iff)
  with nn ms answer show ?thesis
    by (auto dest: js_map_format_match_Inr)
qed

text \<open>
  C16. Whatever the limit is, when the handler formats the payload without throwing, the
  list it returns is the formatted image of a prefix of the upstream list: entries are
  neither reordered nor skipped, and their number is at most the number of upstream
  entries.
\<close>

theorem format_matches_prefix:
  assumes "format_matches data limit = Inr answer"
  shows "\<exists>ms k. upstream_matches data = JArr ms \<and> k \<le> length ms \<and>
           answer = JObj [(lit ''matches'', JArr (map match_view (take k ms)))]"
proof -
  from format_matches_Inr [OF assms] obtain ms
    where "upstream_matches data = JArr ms"
      and "answer = JObj [(lit ''matches'', JArr (map match_view (js_slice ms (Fin 0) limit)))]"
    by blast
  then show ?thesis
    using relative_index_le [of "length ms" "to_integer_or_infinity limit"]
    by (auto simp: js_slice_from_zero)
qed

text \<open>
  C5. With \<^verbatim>\<open>?limit=n\<close> for a decimal number \<open>n\<close> below \<open>2\<^sup>5\<^sup>3\<close>, the handler formats the
  first \<open>n\<close> entries of the upstream list, in the upstream order, and no more; entries
  after the first \<open>n\<close> are not even inspected.
\<close>

theorem format_matches_limit:
  assumes "\<not> nullish data" and "upstream_matches data = JArr ms" and "n < 2 ^ 53"
    and "\<forall>m \<in> set (take n ms). \<not> nullish m"
  shows "format_matches data (limit_number (Some (QStr (show_nat n)))) =
           Inr (JObj [(lit ''matches'', JArr (map match_view (take n ms)))])"
  using assms unfolding upstream_matches_def
  by (simp add: format_matches_def get_prop_not_nullish opt_prop_member limit_number_show_nat
      js_map_format_match)

text \<open>
  C24. Without a \<^verbatim>\<open>limit\<close> in the query, and with an empty one (\<^verbatim>\<open>?limit=\<close>), the handler
  formats the first 20 entries.
\<close>

theorem format_matches_default:
  assumes "\<not> nullish data" and "upstream_matches data = JArr ms"
    and "\<forall>m \<in> set (take 20 ms). \<not> nullish m"
  shows "format_matches data (limit_number None) =
           Inr (JObj [(lit ''matches'', JArr (map match_view (take 20 ms)))]) \<and>
         format_matches data (limit_number (Some (QStr []))) =
           Inr (JObj [(lit ''matches'', JArr (map match_view (take 20 ms)))])"
proof -
  have "js_slice ms (Fin 0) (Fin 20) = take 20 ms"
    using js_slice_nat [of ms 20] by simp
  with assms show ?thesis
    by (simp add: format_matches_selected)
qed

text \<open>
  C22. A negative limit does not bound the answer by the limit: with \<^verbatim>\<open>?limit=-n\<close> the
  handler returns all entries but the last \<open>n\<close>, because \<^verbatim>\<open>slice\<close> counts a negative end
  from the end of the list.
\<close>

theorem format_matches_negative:
  assumes "\<not> nullish data" and "upstream_matches data = JArr ms"
    and "0 < n" and "n < 2 ^ 53"
    and "\<forall>m \<in> set ms. \<not> nullish m"
  shows "format_matches data (limit_number (Some (QStr (45 # show_nat n)))) =
           Inr (JObj [(lit ''matches'', JArr (map match_view (take (length ms - n) ms)))])"
proof -
  from assms(5) have "\<forall>m \<in> set (take (length ms - n) ms). \<not> nullish m"
    by (auto dest: in_set_takeD)
  with assms show ?thesis
    by (simp add: format_matches_selected limit_number_minus_show_nat)
qed

text \<open>
  Among limits that are not negative a larger limit extends the answer: what the handler
  returns for the smaller limit is a prefix of what it returns for the larger one.
\<close>

lemma format_matches_extends:
  assumes "\<not> nullish data" and "upstream_matches data = JArr ms"
    and "Finite 0 \<le> to_integer_or_infinity a"
    and "to_integer_or_infinity a \<le> to_integer_or_infinity b"
    and "format_matches data b = Inr (JObj [(lit ''matches'', JArr vs)])"
  shows "\<exists>us ws. vs = us @ ws \<and>
           format_matches data a = Inr (JObj [(lit ''matches'', JArr us)])"
proof -
  from js_slice_mono [OF assms(3,4)] obtain ys
    where "js_slice ms (Fin 0) b = js_slice ms (Fin 0) a @ ys"
    by blast
  with assms(5) obtain us ws
    where "js_map format_match (js_slice ms (Fin 0) a) = Inr us"
      "js_map format_match ys = Inr ws" "vs = us @ ws"
    by (auto simp: format_matches_array [OF assms(1,2)] js_map_append and_then_eq_Inr_iff)
  then show ?thesis
    by (simp add: format_matches_array [OF assms(1,2)])
qed

text \<open>
  C23. A limit that the query gives more than once, or with a key in brackets, is no
  count: \<^verbatim>\<open>slice\<close> converts the text of the array, which holds a comma, or of the object
  to \<^verbatim>\<open>NaN\<close> and selects nothing. Whatever the upstream list holds, the answer is
  \<^verbatim>\<open>{matches: []}\<close>, not the first 20 entries.
\<close>

theorem format_matches_repeated_limit:
  assumes "\<not> nullish data" and "upstream_matches data = JArr ms"
    and "q = QArr (v # w # vs) \<or> q = QObj kvs"
  shows "format_matches data (limit_number (Some q)) = Inr (JObj [(lit ''matches'', JArr [])])"
proof -
  from assms(3) have "limit_number (Some q) = NaN"
    by (auto simp: limit_number_repeated limit_number_object)
  with assms(1,2) show ?thesis
    by (simp add: format_matches_array)
qed

text \<open>
  C27. A \<^verbatim>\<open>null\<close> entry among the selected entries makes the callback throw, and the whole
  list is lost; the same entry after the limit is harmless.
\<close>

theorem format_matches_null_entry:
  assumes "\<not> nullish data" and "upstream_matches data = JArr (good @ JNull # rest)"
    and "\<forall>m \<in> set good. \<not> nullish m" and "n < 2 ^ 53"
  shows "format_matches data (limit_number (Some (QStr (show_nat n)))) =
           (if length good < n then Inl (ReadOfNull (lit ''segments''))
            else Inr (JObj [(lit ''matches'', JArr (map match_view (take n good)))]))"
proof (cases "length good < n")
  case True
  define k where "k = n - Suc (length good)"
  with True have "n = length good + Suc k"
    by simp
  then have "take n (good @ JNull # rest) = good @ JNull # take k rest"
    by simp
  with assms True show ?thesis
    by (simp add: format_matches_array limit_number_show_nat js_map_format_match_null)
next
  case False
  then have "take n (good @ JNull # rest) = take n good"
    by simp
  moreover from assms(3) have "\<forall>m \<in> set (take n good). \<not> nullish m"
    by (auto dest: in_set_takeD)
  ultimately show ?thesis
    using assms False by (simp add: format_matches_selected limit_number_show_nat)
qed

lemma format_matches_not_array:
  assumes "\<not> nullish data" and "\<forall>ms. upstream_matches data \<noteq> JArr ms"
  shows "\<exists>e. format_matches data limit = Inl e"
  using assms
  by (cases "upstream_matches data") (auto simp: format_matches_eq get_prop_not_nullish)

lemma format_matches_array_throws_iff:
  assumes "\<not> nullish data" and "upstream_matches data = JArr ms"
  shows "(\<exists>e. format_matches data limit = Inl e) \<longleftrightarrow>
         (\<exists>m \<in> set (js_slice ms (Fin 0) limit). nullish m)"
proof
  assume "\<exists>e. format_matches data limit = Inl e"
  then show "\<exists>m \<in> set (js_slice ms (Fin 0) limit). nullish m"
    using format_matches_selected [OF assms, of limit] by (cases ?thesis) auto
next
  assume "\<exists>m \<in> set (js_slice ms (Fin 0) limit). nullish m"
  then have "\<not> (\<exists>answer. format_matches data limit = Inr answer)"
    using assms(2) by (auto dest!: format_matches_Inr)
  then show "\<exists>e. format_matches data limit = Inl e"
    by (cases "format_matches data limit") auto
qed

lemma parsed_upstream_matches: "parsed data \<Longrightarrow> parsed (upstream_matches data)"
  by (auto simp: upstream_matches_def js_or_def intro!: parsed_member
      dest: nullish_not_truthy [rotated])

text \<open>
  C26. On a payload that \<^verbatim>\<open>JSON.parse\<close> returned, formatting the matches throws in exactly
  three cases: the payload is \<^verbatim>\<open>null\<close>; \<^verbatim>\<open>data.matches\<close> is truthy and not an array (an
  object, a number, \<^verbatim>\<open>true\<close> or a non-empty string); or one of the selected entries is
  \<^verbatim>\<open>null\<close>.
\<close>

theorem format_matches_throws_iff:
  assumes "parsed data"
  shows "(\<exists>e. format_matches data limit = Inl e) \<longleftrightarrow>
           data = JNull \<or> (\<forall>ms. upstream_matches data \<noteq> JArr ms) \<or>
           (\<exists>ms. upstream_matches data = JArr ms \<and> JNull \<in> set (js_slice ms (Fin 0) limit))"
proof (cases "nullish data")
  case True
  with assms show ?thesis
    by (auto simp: nullish_def format_matches_eq)
next
  case nn: False
  show ?thesis
  proof (cases "\<exists>ms. upstream_matches data = JArr ms")
    case False
    with format_matches_not_array [OF nn, of limit] show ?thesis
      by auto
  next
    case True
    then obtain ms where ms: "upstream_matches data = JArr ms"
      by blast
    with parsed_upstream_matches [OF assms] have "JUndefined \<notin> set ms"
      by (auto simp: list_all_iff)
    then have "(\<exists>m \<in> set (js_slice ms (Fin 0) limit). nullish m) \<longleftrightarrow>
        JNull \<in> set (js_slice ms (Fin 0) limit)"
      using set_js_slice [of ms "Fin 0" limit] by (auto simp: nullish_def)
    with format_matches_array_throws_iff [OF nn ms, of limit] ms nn show ?thesis
      by auto
  qed
qed

subsection \<open>The handler\<close>

lemma matches_body_forward:
  "matches_body rt fetch identifier q =
     forward rt fetch (lit ''Fetching matches: '') matches_url
       (\<lambda>data. format_matches data (limit_number q)) identifier"
  by (simp add: matches_body_def forward_def Let_def)

lemma get_matches_proxy:
  "get_matches rt fetch identifier q =
     proxy rt fetch (lit ''Fetching matches: '') (lit ''Matches fetch error:'') matches_url
       (\<lambda>data. format_matches data (limit_number q)) identifier"
  by (simp add: get_matches_def matches_body_forward forward_refines)

lemma get_matches_settled:
  assumes "encodeURIComponent identifier = Inr encodedId"
  shows "get_matches rt fetch identifier q =
     (let out = settle (fetch (matches_url encodedId) (getHeaders rt))
                  (\<lambda>data. format_matches data (limit_number q))
      in (render rt out,
          [ConsoleLog (lit ''Fetching matches: '' @ matches_url encodedId),
           Fetch (matches_url encodedId) (getHeaders rt)]
          @ outcome_log (lit ''Matches fetch error:'') out))"
  using assms by (simp add: get_matches_proxy proxy_def proxy_outcome_def proxy_trace_def Let_def)

text \<open>
  When the upstream answers the matches request with a status outside 200 to 299,
  the handler answers with the same status and the body
  \<^verbatim>\<open>{error: "Tracker API error: <status>", details: <upstream body text>}\<close>, after logging
  the URL, performing the one request and logging the upstream error.
\<close>

lemma get_matches_upstream_error:
  assumes "encodeURIComponent identifier = Inr encodedId"
    and "fetch (matches_url encodedId) (getHeaders rt) = FetchResolved r"
    and "\<not> response_ok r"
    and "up_text r = Inr errorText"
  shows "get_matches rt fetch identifier q =
           (\<lparr>res_status = up_status r,
             res_body = Some (JObj [(lit ''error'',
                                      JStr (lit ''Tracker API error: '' @ show_nat (up_status r))),
                                   (lit ''details'', JStr errorText)])\<rparr>,
            [ConsoleLog (lit ''Fetching matches: '' @ matches_url encodedId),
             Fetch (matches_url encodedId) (getHeaders rt),
             ConsoleError (lit ''Tracker API error: '' @ show_nat (up_status r))
               (LogText errorText)])"
  using assms
  by (simp add: get_matches_settled settle_def render_def outcome_log_def upstream_error_def
      res_json_def)

text \<open>
  C31. When the upstream answers with a status in 200 to 299 and a payload whose
  \<^verbatim>\<open>data.matches\<close> is an array, the handler called with \<^verbatim>\<open>?limit=n\<close> answers 200 with the
  first \<open>n\<close> entries, formatted, in the upstream order; its only effects are the log line
  and the request.
\<close>

theorem get_matches_limited:
  assumes "encodeURIComponent identifier = Inr encodedId"
    and "fetch (matches_url encodedId) (getHeaders rt) = FetchResolved r"
    and "response_ok r"
    and "up_json r = Inr data"
    and "\<not> nullish data" and "upstream_matches data = JArr ms"
    and "n < 2 ^ 53" and "\<forall>m \<in> set (take n ms). \<not> nullish m"
  shows "get_matches rt fetch identifier (Some (QStr (show_nat n))) =
           (res_json 200 (JObj [(lit ''matches'', JArr (map match_view (take n ms)))]),
            [ConsoleLog (lit ''Fetching matches: '' @ matches_url encodedId),
             Fetch (matches_url encodedId) (getHeaders rt)])"
  using assms
  by (simp add: get_matches_settled settle_def render_def outcome_log_def
      format_matches_selected limit_number_show_nat)

text \<open>
  When formatting the payload throws, the handler answers 500 with the exception's
  message and logs the exception after the request: a payload of an unexpected shape is
  reported as an internal error.
\<close>

lemma get_matches_formatter_throws:
  assumes "encodeURIComponent identifier = Inr encodedId"
    and "fetch (matches_url encodedId) (getHeaders rt) = FetchResolved r"
    and "response_ok r"
    and "up_json r = Inr data"
    and "format_matches data (limit_number q) = Inl e"
  shows "get_matches rt fetch identifier q =
           (internal_error rt e,
            [ConsoleLog (lit ''Fetching matches: '' @ matches_url encodedId),
             Fetch (matches_url encodedId) (getHeaders rt),
             ConsoleError (lit ''Matches fetch error:'') (LogError e)])"
  using assms
  by (simp add: get_matches_settled settle_def render_def outcome_log_def)

text \<open>
  The matches handler performs at most one outbound request: none when the identifier
  cannot be encoded, and otherwise exactly one, to the matches URL of the encoded
  identifier with the headers of \<^verbatim>\<open>getHeaders\<close>. The limit is not sent upstream.
\<close>

lemma get_matches_fetches:
  "fetches (snd (get_matches rt fetch identifier q)) =
     (case encodeURIComponent identifier of
        Inl e \<Rightarrow> []
      | Inr encodedId \<Rightarrow> [(matches_url encodedId, getHeaders rt)])"
  by (simp add: get_matches_proxy fetches_proxy_trace)

text \<open>
  The status of the matches handler's answer is 200, or 500, or the status of an
  upstream answer outside 200 to 299 to the request for the matches URL.
\<close>

lemma get_matches_status:
  "res_status (fst (get_matches rt fetch identifier q)) = 200 \<or>
   res_status (fst (get_matches rt fetch identifier q)) = 500 \<or>
   (\<exists>encodedId r. encodeURIComponent identifier = Inr encodedId \<and>
      fetch (matches_url encodedId) (getHeaders rt) = FetchResolved r \<and>
      (up_status r < 200 \<or> 300 \<le> up_status r) \<and>
      res_status (fst (get_matches rt fetch identifier q)) = up_status r)"
proof (cases "proxy_outcome rt fetch matches_url
    (\<lambda>data. format_matches data (limit_number q)) identifier")
  case (UpstreamError st t)
  from proxy_outcome_upstream_error [OF this] UpstreamError show ?thesis
    by (auto simp: get_matches_proxy res_status_render response_ok_def)
qed (simp_all add: get_matches_proxy res_status_render)

subsection \<open>The body is a JSON value\<close>

lemma distinct_keys_match_view: "distinct_keys match \<Longrightarrow> distinct_keys (match_view match)"
  by (simp add: match_view_def stat_value_def first_segment_def Let_def distinct_keys_js_or
      distinct_keys_member)

lemma distinct_keys_upstream_matches:
  "distinct_keys data \<Longrightarrow> distinct_keys (upstream_matches data)"
  by (simp add: upstream_matches_def distinct_keys_js_or distinct_keys_member)

lemma distinct_keys_format_matches:
  assumes "distinct_keys data" and "format_matches data limit = Inr answer"
  shows "distinct_keys answer \<and> answer \<noteq> JUndefined"
proof -
  from format_matches_Inr [OF assms(2)] obtain ms
    where ms: "upstream_matches data = JArr ms"
      and answer: "answer = JObj [(lit ''matches'', JArr (map match_view (js_slice ms (Fin 0) limit)))]"
    by blast
  from assms(1) ms have "list_all distinct_keys ms"
    using distinct_keys_upstream_matches [of data] by simp
  then have "list_all distinct_keys (map match_view (js_slice ms (Fin 0) limit))"
    using set_js_slice [of ms "Fin 0" limit]
    by (auto simp: list_all_iff intro: distinct_keys_match_view)
  with answer show ?thesis by simp
qed

text \<open>
  Whatever the upstream does and whatever the limit is, the matches handler answers
  with a body, and the body is a value of the JSON data model. The only assumption is
  that parsed payloads are objects as JavaScript holds them (keys distinct).
\<close>

lemma get_matches_body_json:
  assumes "\<And>url hs r d. fetch url hs = FetchResolved r \<Longrightarrow> up_json r = Inr d \<Longrightarrow> distinct_keys d"
  shows "\<exists>b. res_body (fst (get_matches rt fetch identifier q)) = Some b \<and> json_value b"
  unfolding get_matches_proxy
  by (rule proxy_body_json [OF assms distinct_keys_format_matches])

subsection \<open>Closed instances\<close>

definition played :: "string \<Rightarrow> rat \<Rightarrow> jsval" where
  "played m k =
     JObj [(lit ''segments'',
             JArr [JObj [(lit ''metadata'', JObj [(lit ''hasWon'', JBool True),
                                                 (lit ''mapName'', JStr (lit m))]),
                         (lit ''stats'',
                            JObj [(lit ''kills'', JObj [(lit ''value'', JNum (Fin k))])])]]),
           (lit ''metadata'', JObj [(lit ''timestamp'', JStr (lit ''2024-01-01T00:00:00Z''))])]"

definition played_view :: "string \<Rightarrow> rat \<Rightarrow> jsval" where
  "played_view m k =
     JObj [(lit ''won'', JBool True), (lit ''map'', JStr (lit m)),
           (lit ''agent'', JStr (lit ''Unknown'')), (lit ''kills'', JNum (Fin k)),
           (lit ''deaths'', JNum (Fin 0)), (lit ''assists'', JNum (Fin 0)),
           (lit ''score'', JNum (Fin 0)), (lit ''headshots'', JNum (Fin 0)),
           (lit ''kd'', JNum (Fin 0)),
           (lit ''timestamp'', JStr (lit ''2024-01-01T00:00:00Z''))]"

definition three_matches :: jsval where
  "three_matches =
     JObj [(lit ''data'', JObj [(lit ''matches'',
        JArr [played ''Ascent'' 21, played ''Bind'' 7, played ''Haven'' 13])])]"

definition holed_matches :: jsval where
  "holed_matches =
     JObj [(lit ''data'', JObj [(lit ''matches'', JArr [played ''Ascent'' 21, JNull])])]"

lemma index_of_key_zero: "index_of_key (lit ''0'') = Some 0"
  by (simp add: index_of_key_def is_digit_def dec_value_def lit_def)

lemma match_view_played [simp]:
  "m \<noteq> [] \<Longrightarrow> k \<noteq> 0 \<Longrightarrow> match_view (played m k) = played_view m k"
  by (simp add: match_view_def played_def played_view_def stat_value_def first_segment_def
      index_of_key_zero)

lemma upstream_matches_three [simp]:
  "upstream_matches three_matches =
     JArr [played ''Ascent'' 21, played ''Bind'' 7, played ''Haven'' 13]"
  by (simp add: upstream_matches_def three_matches_def)

lemma upstream_matches_holed [simp]:
  "upstream_matches holed_matches = JArr [played ''Ascent'' 21, JNull]"
  by (simp add: upstream_matches_def holed_matches_def)

lemma nullish_fixtures [simp]:
  "\<not> nullish (played m k)" "\<not> nullish three_matches" "\<not> nullish holed_matches"
  by (simp_all add: played_def three_matches_def holed_matches_def)

lemma show_nat_digit: "show_nat (Suc 0) = lit ''1''" "show_nat 2 = lit ''2''"
  by (simp_all add: show_nat.simps lit_def digit_char_def)

lemma matches_demo_url:
  "matches_url (lit ''Player%23NA1'') =
     lit ''https://api.tracker.gg/api/v2/valorant/standard/matches/riot/Player%23NA1''"
  by (simp add: matches_url_def TRACKER_API_BASE_def flip: lit_append)

theorem format_matches_limit_witness:
  "format_matches three_matches (limit_number (Some (QStr (lit ''2'')))) =
     Inr (JObj [(lit ''matches'', JArr [played_view ''Ascent'' 21, played_view ''Bind'' 7])])"
  using format_matches_limit [of three_matches
      "[played ''Ascent'' 21, played ''Bind'' 7, played ''Haven'' 13]" 2]
  by (simp add: show_nat_digit)

theorem format_matches_default_witness:
  "format_matches three_matches (limit_number None) =
     Inr (JObj [(lit ''matches'',
       JArr [played_view ''Ascent'' 21, played_view ''Bind'' 7, played_view ''Haven'' 13])]) \<and>
   format_matches three_matches (limit_number (Some (QStr []))) =
     Inr (JObj [(lit ''matches'',
       JArr [played_view ''Ascent'' 21, played_view ''Bind'' 7, played_view ''Haven'' 13])])"
  using format_matches_default [of three_matches
      "[played ''Ascent'' 21, played ''Bind'' 7, played ''Haven'' 13]"]
  by simp

theorem format_matches_negative_witness:
  "format_matches three_matches (limit_number (Some (QStr (lit ''-1'')))) =
     Inr (JObj [(lit ''matches'', JArr [played_view ''Ascent'' 21, played_view ''Bind'' 7])])"
  using format_matches_negative [of three_matches
      "[played ''Ascent'' 21, played ''Bind'' 7, played ''Haven'' 13]" 1]
  by (simp add: show_nat_digit lit_Cons)

theorem format_matches_repeated_limit_witness:
  "format_matches three_matches (limit_number (Some (QArr [QStr (lit ''1''), QStr (lit ''2'')]))) =
     Inr (JObj [(lit ''matches'', JArr [])])"
  using format_matches_repeated_limit [of three_matches
      "[played ''Ascent'' 21, played ''Bind'' 7, played ''Haven'' 13]"
      "QArr [QStr (lit ''1''), QStr (lit ''2'')]" "QStr (lit ''1'')" "QStr (lit ''2'')" "[]"]
  by simp

theorem format_matches_null_entry_witness:
  "format_matches holed_matches (limit_number (Some (QStr (lit ''2'')))) =
     Inl (ReadOfNull (lit ''segments'')) \<and>
   format_matches holed_matches (limit_number (Some (QStr (lit ''1'')))) =
     Inr (JObj [(lit ''matches'', JArr [played_view ''Ascent'' 21])])"
  using format_matches_null_entry [of holed_matches "[played ''Ascent'' 21]" "[]" 2]
    format_matches_null_entry [of holed_matches "[played ''Ascent'' 21]" "[]" 1]
  by (simp add: show_nat_digit)

theorem format_matches_prefix_witness:
  "\<exists>ms k. upstream_matches three_matches = JArr ms \<and> k \<le> length ms \<and>
     JObj [(lit ''matches'', JArr [played_view ''Ascent'' 21, played_view ''Bind'' 7])] =
       JObj [(lit ''matches'', JArr (map match_view (take k ms)))]"
proof -
  have "format_matches three_matches (Fin 2) =
      Inr (JObj [(lit ''matches'', JArr [played_view ''Ascent'' 21, played_view ''Bind'' 7])])"
    using js_slice_nat [of "[played ''Ascent'' 21, played ''Bind'' 7, played ''Haven'' 13]" 2]
    by (simp add: format_matches_selected)
  from format_matches_prefix [OF this] show ?thesis by simp
qed

theorem format_matches_throws_iff_witness:
  "(\<exists>e. format_matches holed_matches (Fin 2) = Inl e)"
proof -
  have "parsed holed_matches"
    by (simp add: holed_matches_def played_def)
  moreover have "js_slice [played ''Ascent'' 21, JNull] (Fin 0) (Fin 2) = [played ''Ascent'' 21, JNull]"
    using js_slice_nat [of "[played ''Ascent'' 21, JNull]" 2] by simp
  ultimately show ?thesis
    using format_matches_throws_iff [of holed_matches "Fin 2"] by simp
qed

lemma get_matches_upstream_error_witness:
  "get_matches demo_runtime (reply_with 404 (lit ''no such player'') JNull) (lit ''Player#NA1'')
       (Some (QStr (lit ''5''))) =
     (\<lparr>res_status = 404,
       res_body = Some (JObj [(lit ''error'', JStr (lit ''Tracker API error: 404'')),
                             (lit ''details'', JStr (lit ''no such player''))])\<rparr>,
      [ConsoleLog (lit ''Fetching matches: '' @ matches_url (lit ''Player%23NA1'')),
       Fetch (matches_url (lit ''Player%23NA1'')) (getHeaders demo_runtime),
       ConsoleError (lit ''Tracker API error: 404'') (LogText (lit ''no such player''))])"
  using get_matches_upstream_error [OF enc_riot_id,
      of "reply_with 404 (lit ''no such player'') JNull" demo_runtime
      "\<lparr>up_status = 404, up_text = Inr (lit ''no such player''), up_json = Inr JNull\<rparr>"
      "lit ''no such player''" "Some (QStr (lit ''5''))"]
  by (simp add: reply_with_def response_ok_def show_nat_404 flip: lit_append)

theorem get_matches_limited_witness:
  "get_matches demo_runtime (reply_with 200 [] three_matches) (lit ''Player#NA1'')
       (Some (QStr (lit ''2''))) =
     (\<lparr>res_status = 200,
       res_body = Some (JObj [(lit ''matches'',
                               JArr [played_view ''Ascent'' 21, played_view ''Bind'' 7])])\<rparr>,
      [ConsoleLog (lit ''Fetching matches: '' @ matches_url (lit ''Player%23NA1'')),
       Fetch (matches_url (lit ''Player%23NA1'')) (getHeaders demo_runtime)])"
  using get_matches_limited [OF enc_riot_id,
      of "reply_with 200 [] three_matches" demo_runtime
      "\<lparr>up_status = 200, up_text = Inr [], up_json = Inr three_matches\<rparr>" three_matches
      "[played ''Ascent'' 21, played ''Bind'' 7, played ''Haven'' 13]" 2]
  by (simp add: reply_with_def response_ok_def show_nat_digit res_json_def played_view_def)

lemma get_matches_formatter_throws_witness:
  "get_matches demo_runtime (reply_with 200 [] holed_matches) (lit ''Player#NA1'') None =
     (\<lparr>res_status = 500,
       res_body = Some (JObj [(lit ''error'', JStr (lit ''Internal server error'')),
                             (lit ''message'', JStr (lit ''engine text''))])\<rparr>,
      [ConsoleLog (lit ''Fetching matches: '' @ matches_url (lit ''Player%23NA1'')),
       Fetch (matches_url (lit ''Player%23NA1'')) (getHeaders demo_runtime),
       ConsoleError (lit ''Matches fetch error:'') (LogError (ReadOfNull (lit ''segments'')))])"
proof -
  have "format_matches holed_matches (limit_number None) = Inl (ReadOfNull (lit ''segments''))"
    using js_slice_nat [of "[played ''Ascent'' 21, JNull]" 20]
      js_map_format_match_null [of "[played ''Ascent'' 21]" "[]"]
    by (simp add: format_matches_array)
  from get_matches_formatter_throws [OF enc_riot_id _ _ _ this,
      of "reply_with 200 [] holed_matches" demo_runtime
      "\<lparr>up_status = 200, up_text = Inr [], up_json = Inr holed_matches\<rparr>"]
  show ?thesis
    by (simp add: reply_with_def response_ok_def internal_error_def res_json_def
        error_message_def demo_runtime_def)
qed

lemma string_to_number_show_nat_witness: "string_to_number (lit ''404'') = Fin 404"
  using string_to_number_show_nat [of 404] by (simp add: show_nat_404)

end
