(* ===== verification/Server.thy ===== *)
theory Server
  imports Upstream
begin

text \<open>
  The application around the two handlers (\<^verbatim>\<open>src/server.js\<close>, lines 9 and 133 to 143).

  \<^item> \<open>PORT\<close> is \<^verbatim>\<open>process.env.PORT || 3001\<close>, \<open>api_key_configured\<close> is
    \<^verbatim>\<open>!!process.env.TRN_API_KEY\<close>, and \<open>health\<close> the answer of the health route.
  \<^item> \<open>startup\<close> is \<^verbatim>\<open>app.listen(PORT, ...)\<close> with the two lines its callback logs;
    \<open>template_text\<close> is the text a template literal makes of the two kinds of value
    \<open>PORT\<close> can be, and \<open>bool_text\<close> of a boolean.

  The lemmas show what the health route reports for every state of the environment and
  what the program logs when it starts.
\<close>

definition PORT :: "runtime \<Rightarrow> jsval" where
  "PORT rt = js_or (env_var (port_var rt)) (JNum (Fin 3001))"

definition api_key_configured :: "runtime \<Rightarrow> bool" where
  "api_key_configured rt \<longleftrightarrow> truthy (env_var (trn_api_key rt))"

definition health :: "runtime \<Rightarrow> http_response" where
  "health rt =
     res_json 200
       (JObj [(lit ''status'', JStr (lit ''OK'')),
              (lit ''apiKeyConfigured'', JBool (api_key_configured rt))])"

definition bool_text :: "bool \<Rightarrow> jsstring" where
  "bool_text b = (if b then lit ''true'' else lit ''false'')"

definition template_text :: "jsval \<Rightarrow> jsstring" where
  "template_text port = (case port of JStr s \<Rightarrow> s | _ \<Rightarrow> show_nat 3001)"

definition startup :: "runtime \<Rightarrow> effect list" where
  "startup rt =
     [Listen (PORT rt),
      ConsoleLog ([0xD83D, 0xDE80] @ lit '' Server running on port '' @ template_text (PORT rt)),
      ConsoleLog (lit ''API Key configured: '' @ bool_text (api_key_configured rt))]"

lemmas server_defs [handler_defs] =
  PORT_def api_key_configured_def health_def bool_text_def template_text_def startup_def

subsection \<open>The environment\<close>

lemma truthy_env_var: "truthy (env_var x) \<longleftrightarrow> (\<exists>s. x = Some s \<and> s \<noteq> [])"
  by (cases x) (simp_all add: env_var_def)

lemma api_key_configured_iff:
  "api_key_configured rt \<longleftrightarrow> (\<exists>s. trn_api_key rt = Some s \<and> s \<noteq> [])"
  by (simp add: api_key_configured_def truthy_env_var)

lemma PORT_cases:
  "PORT rt = (case port_var rt of
                None \<Rightarrow> JNum (Fin 3001)
              | Some s \<Rightarrow> if s = [] then JNum (Fin 3001) else JStr s)"
  by (simp add: PORT_def env_var_def split: option.split)

lemma show_nat_3001: "show_nat 3001 = lit ''3001''"
  by (simp add: show_nat.simps lit_def digit_char_def)

text \<open>
  C7. The health route answers 200 with \<^verbatim>\<open>status: "OK"\<close> and a flag that is true exactly
  when \<^verbatim>\<open>TRN_API_KEY\<close> is set to a non-empty string: a variable that is set but empty is
  reported as not configured.
\<close>

theorem health_answer:
  "health rt =
     \<lparr>res_status = 200,
      res_body = Some (JObj [(lit ''status'', JStr (lit ''OK'')),
                            (lit ''apiKeyConfigured'',
                               JBool (trn_api_key rt \<noteq> None \<and> trn_api_key rt \<noteq> Some []))])\<rparr>"
  by (cases "trn_api_key rt")
    (simp_all add: health_def res_json_def api_key_configured_def env_var_def)

text \<open>
  C40. When it starts, the program listens on the value of \<^verbatim>\<open>PORT\<close> if that is a non-empty
  string and on the number 3001 otherwise, and logs that port and whether the API key is
  configured.
\<close>

theorem startup_effects:
  "startup rt =
     (let port = (case port_var rt of
                    None \<Rightarrow> JNum (Fin 3001)
                  | Some s \<Rightarrow> if s = [] then JNum (Fin 3001) else JStr s);
          text = (case port_var rt of
                    None \<Rightarrow> lit ''3001''
                  | Some s \<Rightarrow> if s = [] then lit ''3001'' else s)
      in [Listen port,
          ConsoleLog ([0xD83D, 0xDE80] @ lit '' Server running on port '' @ text),
          ConsoleLog (lit ''API Key configured: '' @
            (if trn_api_key rt \<noteq> None \<and> trn_api_key rt \<noteq> Some [] then lit ''true''
             else lit ''false''))])"
proof -
  have "api_key_configured rt \<longleftrightarrow> trn_api_key rt \<noteq> None \<and> trn_api_key rt \<noteq> Some []"
    by (auto simp: api_key_configured_iff)
  then show ?thesis
    by (simp add: startup_def PORT_cases template_text_def bool_text_def show_nat_3001
        split: option.split)
qed

end
