(* ===== verification/Data_Model.thy ===== *)
theory Data_Model
  imports Schema Profile Matches Server
begin

text \<open>
  The data model (\<^verbatim>\<open>spec.md\<close>, sections 3 and 6) as shapes, and the formatters of
  \<^verbatim>\<open>src/server.js\<close> typed against it.

  \<^item> \<open>tracker_profile\<close> and \<open>tracker_matches\<close>: the members of an upstream payload that
    the formatters read (lines 48 to 62 and 99 to 117), each of them optional.
  \<^item> \<open>profile_answer\<close>, \<open>matches_answer\<close>, \<open>health_answer_shape\<close>: the bodies of the three
    routes; \<open>upstream_error_answer\<close> and \<open>internal_error_answer\<close>: the two error bodies.
    A member that the source copies from the payload without a default (\<^verbatim>\<open>card\<close>,
    \<^verbatim>\<open>rankImg\<close>, \<^verbatim>\<open>timestamp\<close>) may be missing.

  The lemmas show that on a payload of the upstream shape the formatters do not throw
  and build a value of the answer's shape, whatever the identifier and the limit are.
\<close>

definition tracker_stat :: shape where
  "tracker_stat = Object [(lit ''value'', maybe Number)]"

definition tracker_segment :: shape where
  "tracker_segment =
     Object [(lit ''type'', maybe Text),
             (lit ''metadata'', maybe (Object [(lit ''tierName'', maybe Text),
                                               (lit ''imageUrl'', maybe Text)])),
             (lit ''stats'', maybe (Object [(lit ''rating'', maybe tracker_stat)]))]"

definition tracker_platform :: shape where
  "tracker_platform = Object [(lit ''platformUserHandle'', maybe Text)]"

definition tracker_metadata :: shape where
  "tracker_metadata =
     Object [(lit ''level'', maybe (Either Text Number)),
             (lit ''bannerImageUrl'', maybe Text),
             (lit ''avatarUrl'', maybe Text)]"

definition tracker_profile :: shape where
  "tracker_profile =
     Object [(lit ''data'',
        maybe (Object [(lit ''platformInfo'', maybe tracker_platform),
                       (lit ''metadata'', maybe tracker_metadata),
                       (lit ''segments'', maybe (ListOf tracker_segment))]))]"

definition account_answer :: shape where
  "account_answer =
     Sealed [(lit ''name'', Text), (lit ''level'', Either Text Number), (lit ''card'', maybe Text)]"

definition rank_answer :: shape where
  "rank_answer =
     Sealed [(lit ''name'', Text), (lit ''rating'', Number), (lit ''rankImg'', maybe Text)]"

definition profile_answer :: shape where
  "profile_answer =
     Sealed [(lit ''account'', account_answer), (lit ''rank'', Either Null rank_answer)]"

definition match_stats :: shape where
  "match_stats =
     Object [(lit ''kills'', maybe tracker_stat), (lit ''deaths'', maybe tracker_stat),
             (lit ''assists'', maybe tracker_stat), (lit ''score'', maybe tracker_stat),
             (lit ''headshots'', maybe tracker_stat), (lit ''kDRatio'', maybe tracker_stat)]"

definition match_metadata :: shape where
  "match_metadata =
     Object [(lit ''hasWon'', maybe Boolean), (lit ''mapName'', maybe Text),
             (lit ''agentName'', maybe Text)]"

definition match_segment :: shape where
  "match_segment =
     Object [(lit ''stats'', maybe match_stats), (lit ''metadata'', maybe match_metadata)]"

definition tracker_match :: shape where
  "tracker_match =
     Object [(lit ''segments'', maybe (ListOf match_segment)),
             (lit ''metadata'', maybe (Object [(lit ''timestamp'', maybe Text)]))]"

definition tracker_matches :: shape where
  "tracker_matches =
     Object [(lit ''data'', maybe (Object [(lit ''matches'', maybe (ListOf tracker_match))]))]"

definition match_answer :: shape where
  "match_answer =
     Sealed [(lit ''won'', Boolean), (lit ''map'', Text), (lit ''agent'', Text),
             (lit ''kills'', Number), (lit ''deaths'', Number), (lit ''assists'', Number),
             (lit ''score'', Number), (lit ''headshots'', Number), (lit ''kd'', Number),
             (lit ''timestamp'', maybe Text)]"

definition matches_answer :: shape where
  "matches_answer = Sealed [(lit ''matches'', ListOf match_answer)]"

definition health_answer_shape :: shape where
  "health_answer_shape = Sealed [(lit ''status'', Text), (lit ''apiKeyConfigured'', Boolean)]"

definition upstream_error_answer :: shape where
  "upstream_error_answer = Sealed [(lit ''error'', Text), (lit ''details'', Text)]"

definition internal_error_answer :: shape where
  "internal_error_answer = Sealed [(lit ''error'', Text), (lit ''message'', Text)]"

definition outcome_shape :: "shape \<Rightarrow> outcome \<Rightarrow> shape" where
  "outcome_shape a out =
     (case out of
        InternalError e \<Rightarrow> internal_error_answer
      | UpstreamError st t \<Rightarrow> upstream_error_answer
      | Served v \<Rightarrow> a)"

definition status_shape :: "shape \<Rightarrow> nat \<Rightarrow> shape" where
  "status_shape a st =
     (if st = 200 then a
      else if st = 500 then Either internal_error_answer upstream_error_answer
      else upstream_error_answer)"

lemmas tracker_defs =
  tracker_stat_def tracker_segment_def tracker_platform_def tracker_metadata_def
  tracker_profile_def match_stats_def match_metadata_def match_segment_def tracker_match_def
  tracker_matches_def

lemmas answer_defs =
  account_answer_def rank_answer_def profile_answer_def match_answer_def matches_answer_def
  health_answer_shape_def upstream_error_answer_def internal_error_answer_def

subsection \<open>The profile\<close>

lemma stat_typed:
  assumes "conforms (maybe tracker_stat) v"
  shows "conforms Number (js_or (member v (lit ''value'')) (JNum (Fin 0)))"
proof (rule js_or_maybe)
  from assms show "conforms (maybe Number) (member v (lit ''value''))"
    unfolding tracker_stat_def by (rule member_maybe_Object) simp_all
qed simp

lemma account_view_typed:
  assumes "conforms tracker_platform p" and "conforms tracker_metadata m"
  shows "conforms account_answer (account_view p m identifier)"
proof -
  from assms(1) have "conforms (maybe Text) (member p (lit ''platformUserHandle''))"
    by (simp add: tracker_platform_def conforms_Object_iff)
  then have "conforms Text (js_or (member p (lit ''platformUserHandle'')) (JStr identifier))"
    by (rule js_or_maybe) simp
  moreover from assms(2) have "conforms (maybe (Either Text Number)) (member m (lit ''level''))"
    and card: "conforms (maybe Text) (member m (lit ''bannerImageUrl''))"
      "conforms (maybe Text) (member m (lit ''avatarUrl''))"
    by (simp_all add: tracker_metadata_def conforms_Object_iff)
  then have "conforms (Either Text Number) (js_or (member m (lit ''level'')) (JStr (lit ''N/A'')))"
    by (intro js_or_maybe) simp_all
  moreover from card have "conforms (maybe Text)
      (js_or (member m (lit ''bannerImageUrl'')) (member m (lit ''avatarUrl'')))"
    by (rule js_or_same)
  ultimately show ?thesis
    by (simp add: account_view_def account_answer_def)
qed

lemma rank_view_typed:
  assumes "conforms (Either tracker_segment Absent) seg"
  shows "conforms (Either Null rank_answer) (rank_view seg)"
proof (cases "truthy seg")
  case False
  then show ?thesis
    by (simp add: rank_view_def)
next
  case True
  with assms have seg: "conforms tracker_segment seg"
    by auto
  then have meta: "conforms (maybe (Object [(lit ''tierName'', maybe Text), (lit ''imageUrl'', maybe Text)]))
      (member seg (lit ''metadata''))"
    and stats: "conforms (maybe (Object [(lit ''rating'', maybe tracker_stat)]))
      (member seg (lit ''stats''))"
    by (simp_all add: tracker_segment_def conforms_Object_iff)
  from meta have "conforms (maybe Text) (member (member seg (lit ''metadata'')) (lit ''tierName''))"
    and img: "conforms (maybe Text) (member (member seg (lit ''metadata'')) (lit ''imageUrl''))"
    by (rule member_maybe_Object; simp)+
  then have "conforms Text
      (js_or (member (member seg (lit ''metadata'')) (lit ''tierName'')) (JStr (lit ''Unranked'')))"
    by (intro js_or_maybe) simp_all
  moreover from stats have "conforms (maybe tracker_stat)
      (member (member seg (lit ''stats'')) (lit ''rating''))"
    by (rule member_maybe_Object) simp_all
  then have "conforms Number
      (js_or (member (member (member seg (lit ''stats'')) (lit ''rating'')) (lit ''value''))
         (JNum (Fin 0)))"
    by (rule stat_typed)
  ultimately show ?thesis
    using True img by (simp add: rank_view_def rank_answer_def)
qed

lemma payload_part_typed:
  assumes "conforms (Object [(lit ''data'', maybe (Object fs))]) data"
    and "(lit k, maybe a) \<in> set fs" and "conforms a dflt"
  shows "conforms a (payload_part data k dflt)"
  unfolding payload_part_def
proof (rule js_or_maybe [OF _ assms(3)])
  from assms(1) have "conforms (maybe (Object fs)) (member data (lit ''data''))"
    by (simp add: conforms_Object_iff)
  from this assms(2) show "conforms (maybe a) (member (member data (lit ''data'')) (lit k))"
    by (rule member_maybe_Object) simp
qed

lemma is_competitive_typed: "conforms tracker_segment s \<Longrightarrow> \<exists>b. is_competitive s = Inr b"
  by (simp add: tracker_segment_def)

lemma format_profile_conforms:
  assumes "conforms tracker_profile data"
  shows "\<exists>v. format_profile data identifier = Inr v \<and> conforms profile_answer v"
proof -
  note payload = payload_part_typed [OF assms [unfolded tracker_profile_def]]
  have "conforms tracker_platform (payload_part data ''platformInfo'' (JObj []))"
    by (rule payload) (simp_all add: tracker_platform_def)
  moreover have "conforms tracker_metadata (payload_part data ''metadata'' (JObj []))"
    by (rule payload) (simp_all add: tracker_metadata_def)
  ultimately have account: "conforms account_answer (account_of data identifier)"
    unfolding account_of_def by (rule account_view_typed)
  have "conforms (ListOf tracker_segment) (payload_part data ''segments'' (JArr []))"
    by (rule payload) simp_all
  then have "\<exists>seg. call_find (payload_part data ''segments'' (JArr [])) is_competitive = Inr seg \<and>
      conforms (Either tracker_segment Absent) seg"
    by (rule call_find_ListOf) (rule is_competitive_typed)
  then obtain seg
    where seg: "call_find (payload_part data ''segments'' (JArr [])) is_competitive = Inr seg"
      "conforms (Either tracker_segment Absent) seg"
    by blast
  from assms have "\<not> nullish data"
    by (simp add: tracker_profile_def)
  from format_profile_found [OF this seg(1)] account rank_view_typed [OF seg(2)]
  show ?thesis
    by (simp add: profile_answer_def)
qed

subsection \<open>The matches\<close>

lemma first_segment_typed:
  assumes "conforms tracker_match match"
  shows "conforms (maybe match_segment) (first_segment match)"
proof -
  from assms have "conforms (maybe (ListOf match_segment)) (member match (lit ''segments''))"
    by (simp add: tracker_match_def conforms_Object_iff)
  then show ?thesis
    by (auto simp: first_segment_def conforms_ListOf_iff nullish_def index_of_key_zero)
qed

lemma segment_parts_typed:
  assumes "conforms (maybe match_segment) segment"
  shows "conforms match_stats (js_or (member segment (lit ''stats'')) (JObj []))"
    and "conforms match_metadata (js_or (member segment (lit ''metadata'')) (JObj []))"
proof -
  from assms have "conforms (maybe match_stats) (member segment (lit ''stats''))"
    and "conforms (maybe match_metadata) (member segment (lit ''metadata''))"
    unfolding match_segment_def by (rule member_maybe_Object; simp)+
  then show "conforms match_stats (js_or (member segment (lit ''stats'')) (JObj []))"
    and "conforms match_metadata (js_or (member segment (lit ''metadata'')) (JObj []))"
    by (auto intro!: js_or_maybe simp: match_stats_def match_metadata_def)
qed

lemma stat_value_typed:
  assumes "conforms match_stats stats"
    and "k \<in> {''kills'', ''deaths'', ''assists'', ''score'', ''headshots'', ''kDRatio''}"
  shows "conforms Number (stat_value stats k)"
  unfolding stat_value_def
proof (rule stat_typed)
  from assms show "conforms (maybe tracker_stat) (member stats (lit k))"
    by (auto simp: match_stats_def conforms_Object_iff)
qed

lemma match_metadata_typed:
  assumes "conforms match_metadata metadata"
  shows "conforms Boolean (js_or (member metadata (lit ''hasWon'')) (JBool False))"
    and "conforms Text (js_or (member metadata (lit ''mapName'')) (JStr (lit ''Unknown'')))"
    and "conforms Text (js_or (member metadata (lit ''agentName'')) (JStr (lit ''Unknown'')))"
proof -
  from assms have "conforms (maybe Boolean) (member metadata (lit ''hasWon''))"
    "conforms (maybe Text) (member metadata (lit ''mapName''))"
    "conforms (maybe Text) (member metadata (lit ''agentName''))"
    by (simp_all add: match_metadata_def conforms_Object_iff)
  then show "conforms Boolean (js_or (member metadata (lit ''hasWon'')) (JBool False))"
    and "conforms Text (js_or (member metadata (lit ''mapName'')) (JStr (lit ''Unknown'')))"
    and "conforms Text (js_or (member metadata (lit ''agentName'')) (JStr (lit ''Unknown'')))"
    by (auto intro!: js_or_maybe)
qed

lemma match_view_typed:
  assumes "conforms tracker_match match"
  shows "conforms match_answer (match_view match)"
proof -
  note parts = segment_parts_typed [OF first_segment_typed [OF assms]]
  from assms have "conforms (maybe (Object [(lit ''timestamp'', maybe Text)]))
      (member match (lit ''metadata''))"
    by (simp add: tracker_match_def conforms_Object_iff)
  then have "conforms (maybe Text) (member (member match (lit ''metadata'')) (lit ''timestamp''))"
    by (rule member_maybe_Object) simp_all
  with match_metadata_typed [OF parts(2)] stat_value_typed [OF parts(1)] show ?thesis
    by (simp add: match_view_def match_answer_def Let_def)
qed

lemma format_match_typed:
  assumes "conforms tracker_match match"
  shows "\<exists>v. format_match match = Inr v \<and> conforms match_answer v"
proof -
  from assms have "\<not> nullish match"
    by (simp add: tracker_match_def)
  with match_view_typed [OF assms] show ?thesis
    by (simp add: format_match_not_nullish)
qed

lemma format_matches_conforms:
  assumes "conforms tracker_matches data"
  shows "\<exists>v. format_matches data limit = Inr v \<and> conforms matches_answer v"
proof -
  from assms have "conforms (maybe (Object [(lit ''matches'', maybe (ListOf tracker_match))]))
      (member data (lit ''data''))"
    by (simp add: tracker_matches_def conforms_Object_iff)
  then have "conforms (maybe (ListOf tracker_match))
      (member (member data (lit ''data'')) (lit ''matches''))"
    by (rule member_maybe_Object) simp_all
  then have "conforms (ListOf tracker_match) (upstream_matches data)"
    unfolding upstream_matches_def by (rule js_or_maybe) simp
  from call_slice_ListOf [OF this] obtain ms
    where ms: "call_slice (upstream_matches data) (Fin 0) limit = Inr ms"
      "conforms (ListOf tracker_match) ms"
    by blast
  from ms(2) have "\<exists>vs. call_map ms format_match = Inr vs \<and> conforms (ListOf match_answer) vs"
    by (rule call_map_ListOf) (rule format_match_typed)
  then obtain vs
    where vs: "call_map ms format_match = Inr vs" "conforms (ListOf match_answer) vs"
    by blast
  from assms have "\<not> nullish data"
    by (simp add: tracker_matches_def)
  with ms(1) vs show ?thesis
    by (simp add: format_matches_eq get_prop_not_nullish matches_answer_def)
qed

subsection \<open>The answers\<close>

lemma sendable_answers [simp]:
  "sendable profile_answer" "sendable matches_answer" "sendable health_answer_shape"
  "\<not> conforms profile_answer JUndefined" "\<not> conforms matches_answer JUndefined"
  by (simp_all add: answer_defs)

lemma health_typed:
  "\<exists>b. res_body (health rt) = Some b \<and> conforms health_answer_shape b"
  by (simp add: health_def health_answer_shape_def)

lemma render_typed:
  assumes "\<And>v. out = Served v \<Longrightarrow> distinct_keys v \<and> conforms a v"
    and "sendable a" and "\<not> conforms a JUndefined"
  shows "\<exists>b. res_body (render rt out) = Some b \<and> conforms (outcome_shape a out) b"
proof (cases out)
  case (Served v)
  with assms(1) have v: "distinct_keys v" "conforms a v"
    by simp_all
  with assms(3) obtain b where b: "stringify v = Some b"
    by (cases "stringify v") auto
  from assms(2) v b have "conforms a b"
    by (rule stringify_conforms)
  with Served b show ?thesis
    by (simp add: render_def outcome_shape_def)
qed (simp_all add: render_def outcome_shape_def upstream_error_body internal_error_body
    upstream_error_answer_def internal_error_answer_def)

text \<open>
  A forwarding handler whose formatter is typed answers with a body of the shape of
  its outcome; and on a typed payload the formatter does not throw, so an upstream
  success that parses is served.
\<close>

lemma proxy_typed:
  assumes "\<And>url hs r d. fetch url hs = FetchResolved r \<Longrightarrow> up_json r = Inr d \<Longrightarrow>
             distinct_keys d \<and> conforms p d"
    and "\<And>d. conforms p d \<Longrightarrow> \<exists>v. view d = Inr v \<and> conforms a v"
    and "\<And>d v. distinct_keys d \<Longrightarrow> view d = Inr v \<Longrightarrow> distinct_keys v \<and> v \<noteq> JUndefined"
    and "sendable a" and "\<not> conforms a JUndefined"
  shows "\<exists>b. res_body (fst (proxy rt fetch announce label url_of view identifier)) = Some b \<and>
           conforms (outcome_shape a (proxy_outcome rt fetch url_of view identifier)) b"
proof -
  have "distinct_keys v \<and> conforms a v"
    if "proxy_outcome rt fetch url_of view identifier = Served v" for v
  proof -
    from proxy_outcome_served [OF that] obtain url r data
      where r: "fetch url (getHeaders rt) = FetchResolved r" "up_json r = Inr data"
        and v: "view data = Inr v"
      by blast
    from assms(1) [OF r] assms(2) [of data] assms(3) [of data v] v show ?thesis
      by auto
  qed
  then show ?thesis
    using assms(4,5) by (simp add: render_typed)
qed

lemma outcome_shape_status:
  assumes "conforms (outcome_shape a out) b"
    and "\<And>st t. out = UpstreamError st t \<Longrightarrow> st \<noteq> 200"
  shows "conforms (status_shape a (res_status (render rt out))) b"
  using assms by (cases out) (auto simp: outcome_shape_def status_shape_def render_def)

lemma proxy_typed_status:
  assumes "\<And>url hs r d. fetch url hs = FetchResolved r \<Longrightarrow> up_json r = Inr d \<Longrightarrow>
             distinct_keys d \<and> conforms p d"
    and "\<And>d. conforms p d \<Longrightarrow> \<exists>v. view d = Inr v \<and> conforms a v"
    and "\<And>d v. distinct_keys d \<Longrightarrow> view d = Inr v \<Longrightarrow> distinct_keys v \<and> v \<noteq> JUndefined"
    and "sendable a" and "\<not> conforms a JUndefined"
  shows "\<exists>b. res_body (fst (proxy rt fetch announce label url_of view ident)) = Some b \<and>
           conforms (status_shape a
             (res_status (fst (proxy rt fetch announce label url_of view ident)))) b"
proof -
  have "\<exists>b. res_body (fst (proxy rt fetch announce label url_of view ident)) = Some b \<and>
      conforms (outcome_shape a (proxy_outcome rt fetch url_of view ident)) b"
    using assms by (rule proxy_typed)
  then obtain b
    where b: "res_body (fst (proxy rt fetch announce label url_of view ident)) = Some b"
      "conforms (outcome_shape a (proxy_outcome rt fetch url_of view ident)) b"
    by blast
  from b(2) have "conforms (status_shape a
      (res_status (render rt (proxy_outcome rt fetch url_of view ident)))) b"
    by (rule outcome_shape_status) (auto dest!: proxy_outcome_upstream_error simp: response_ok_def)
  with b(1) show ?thesis
    by simp
qed

text \<open>
  C19. On an upstream payload of the shape the profile formatter expects (every member
  it reads optional, of the type the data model gives it), formatting does not throw
  and the body that is sent has the shape of a profile: \<^verbatim>\<open>name\<close> a string, \<^verbatim>\<open>level\<close> a
  string or a number, \<^verbatim>\<open>rank\<close> \<^verbatim>\<open>null\<close> or an object with a string \<^verbatim>\<open>name\<close> and a finite
  number \<^verbatim>\<open>rating\<close>; \<^verbatim>\<open>card\<close> and \<^verbatim>\<open>rankImg\<close> are strings, \<^verbatim>\<open>null\<close> or missing; and there
  is no other member.
\<close>

theorem format_profile_typed:
  assumes "conforms tracker_profile data" and "distinct_keys data"
  shows "\<exists>v b. format_profile data identifier = Inr v \<and> stringify v = Some b \<and>
           conforms profile_answer b"
proof -
  from format_profile_conforms [OF assms(1)] obtain v
    where v: "format_profile data identifier = Inr v" "conforms profile_answer v"
    by blast
  from distinct_keys_format_profile [OF assms(2) v(1)] obtain b where b: "stringify v = Some b"
    by (cases "stringify v") auto
  from distinct_keys_format_profile [OF assms(2) v(1)] v(2) b have "conforms profile_answer b"
    by (intro stringify_conforms [of profile_answer v b]) simp_all
  with v(1) b show ?thesis
    by blast
qed

text \<open>
  C20. On an upstream payload of the shape the matches formatter expects, formatting
  does not throw, whatever the limit is, and the body that is sent has the shape of a
  list of matches: \<^verbatim>\<open>won\<close> a boolean, \<^verbatim>\<open>map\<close> and \<^verbatim>\<open>agent\<close> strings, the six statistics
  finite numbers, \<^verbatim>\<open>timestamp\<close> a string, \<^verbatim>\<open>null\<close> or missing, and no other member.
\<close>

theorem format_matches_typed:
  assumes "conforms tracker_matches data" and "distinct_keys data"
  shows "\<exists>v b. format_matches data limit = Inr v \<and> stringify v = Some b \<and>
           conforms matches_answer b"
proof -
  from format_matches_conforms [OF assms(1)] obtain v
    where v: "format_matches data limit = Inr v" "conforms matches_answer v"
    by blast
  from distinct_keys_format_matches [OF assms(2) v(1)] obtain b where b: "stringify v = Some b"
    by (cases "stringify v") auto
  from distinct_keys_format_matches [OF assms(2) v(1)] v(2) b have "conforms matches_answer b"
    by (intro stringify_conforms [of matches_answer v b]) simp_all
  with v(1) b show ?thesis
    by blast
qed

subsection \<open>Closed instances\<close>

lemma conforms_ranked_payload: "conforms tracker_profile ranked_payload"
  by (simp add: tracker_defs ranked_payload_def)

lemma conforms_three_matches: "conforms tracker_matches three_matches"
  by (simp add: tracker_defs three_matches_def played_def index_of_key_zero)

theorem format_profile_typed_witness:
  "\<exists>v b. format_profile ranked_payload (lit ''Player#NA1'') = Inr v \<and> stringify v = Some b \<and>
     conforms profile_answer b"
  using format_profile_typed [OF conforms_ranked_payload, of "lit ''Player#NA1''"]
  by (simp add: ranked_payload_def)

theorem format_matches_typed_witness:
  "\<exists>v b. format_matches three_matches (Fin 2) = Inr v \<and> stringify v = Some b \<and>
     conforms matches_answer b"
  using format_matches_typed [OF conforms_three_matches, of "Fin 2"]
  by (simp add: three_matches_def played_def)

end
