(* ===== verification/Spec2Isabelle.thy ===== *)
theory Spec2Isabelle
  imports Prelude Js_Value Js_Number Uri Uri_Decode Router Js_Array Schema Upstream
    Proxy_Service Event_Loop Profile Matches Server Data_Model
begin

text \<open>
  A verification development for the Valorant tracker proxy, \<^verbatim>\<open>src/server.js\<close>.

  \<^bold>\<open>The program.\<close> One Express application with three routes and no state.
  \<^verbatim>\<open>GET /api/profile/:identifier\<close> and \<^verbatim>\<open>GET /api/matches/:identifier\<close> escape the
  identifier with \<^verbatim>\<open>encodeURIComponent\<close>, log the upstream URL, call the tracker API once
  with the headers of \<^verbatim>\<open>getHeaders\<close>, forward an upstream error with its status, and
  otherwise reshape the parsed payload and answer 200; any exception ends in the \<^verbatim>\<open>catch\<close>
  block, which answers 500. \<^verbatim>\<open>GET /api/health\<close> reports whether the API key is set. At
  start the program listens on \<^verbatim>\<open>PORT\<close> and logs two lines.

  \<^bold>\<open>The model.\<close> A handler is a function of the environment (\<open>runtime\<close>), of the
  upstream's behaviour (\<open>fetcher\<close>: what \<^verbatim>\<open>fetch\<close> yields for a URL and headers, with the
  outcome of reading the body as text and as JSON) and of the parts of the request it
  reads. It returns the answer (\<open>http_response\<close>: status and JSON body) and the list of
  its effects in order (\<open>effect\<close>: console lines, the outbound request). The \<^verbatim>\<open>await\<close>s of
  a handler are sequential, so its effects are a list. Requests in flight are the
  state of the event loop (\<open>loop\<close>): each call is at one of its \<^verbatim>\<open>await\<close>s, a step resumes one
  call until its next \<^verbatim>\<open>await\<close>, and the steps of different calls interleave in any order;
  \<open>concurrent_answer\<close> shows that the answer of a call is the one of \<open>serve\<close>. Exceptions are values: a
  computation that may throw has type \<open>js_error + 'a\<close> and is sequenced with \<open>and_then\<close>.
  Every \<^verbatim>\<open>.\<close> of the source is a \<open>get_prop\<close> (throws on \<^verbatim>\<open>null\<close> and \<^verbatim>\<open>undefined\<close>), every \<^verbatim>\<open>?.\<close>
  an \<open>opt_prop\<close>, every \<^verbatim>\<open>||\<close> a \<open>js_or\<close>, in the order the source evaluates them.

  \<^bold>\<open>The theories.\<close>
  \<^item> \<open>Prelude\<close>: strings as UTF-16 code units, literals (\<open>lit\<close>), \<open>and_then\<close>,
    \<open>keep_defined\<close>; the collections \<open>js_defs\<close> and \<open>handler_defs\<close>.
  \<^item> \<open>Js_Value\<close>: the values of the fragment (\<open>jsval\<close>, \<open>jsnum\<close>), the exceptions
    (\<open>js_error\<close>), \<open>truthy\<close>, \<open>js_or\<close>, \<open>member\<close>, \<open>get_prop\<close>, \<open>opt_prop\<close>, \<open>is_string\<close>, and
    \<open>stringify\<close>: the value \<^verbatim>\<open>res.json\<close> writes. Lemmas: the operators case by case; what
    \<^verbatim>\<open>JSON.stringify\<close> writes is a JSON value and is written unchanged again.
  \<^item> \<open>Js_Number\<close>: \<open>string_to_number\<close>, \<open>round_double\<close>, \<open>to_integer_or_infinity\<close>: what
    \<^verbatim>\<open>slice(0, limit)\<close> makes of the \<^verbatim>\<open>limit\<close> of the query string. Lemmas: \<open>floor_log2\<close> is the
    binary exponent; rounding is to a nearest double and fixes every double; digit
    strings convert to the number they denote.
  \<^item> \<open>Uri\<close>: \<open>encodeURIComponent\<close> after the \<^verbatim>\<open>Encode\<close> operation of ECMA-262, a \<open>function\<close>
    with a termination proof. Lemmas: it returns exactly on well-formed UTF-16; the
    result has only unreserved characters and \<^verbatim>\<open>%\<close>; length bounds; concatenation.
  \<^item> \<open>Uri_Decode\<close>: \<open>decodeURIComponent\<close> after the \<^verbatim>\<open>Decode\<close> operation of ECMA-262, which
    the program does not call: the reference against which the escaping is shown to lose
    nothing. Lemmas: decoding undoes encoding; the encoder is injective.
  \<^item> \<open>Router\<close>: how Express matches the path of a \<^verbatim>\<open>GET\<close> request against a registered path
    (\<open>compile_route\<close>, \<open>match_pieces\<close>) and decodes its parameters (\<open>route_params\<close>). Lemmas:
    a parameter is the decoded form of one segment that is not empty; it is well formed
    when the path holds no surrogate.
  \<^item> \<open>Js_Array\<close>: \<open>js_find\<close>, \<open>js_slice\<close>, \<open>js_map\<close> with callbacks that may throw, and the
    method calls \<open>call_find\<close>, \<open>call_slice\<close>, \<open>call_map\<close> on any value.
  \<^item> \<open>Schema\<close>: \<open>shape\<close> and \<open>conforms\<close>, the types of the data model as a checker on values,
    with the typing rules of a property read, \<^verbatim>\<open>?.\<close>, \<^verbatim>\<open>||\<close>, \<^verbatim>\<open>find\<close>, \<^verbatim>\<open>slice\<close> and \<^verbatim>\<open>map\<close>, and
    the preservation of a shape by \<open>stringify\<close> (\<open>sendable\<close>, \<open>stringify_conforms\<close>).
  \<^item> \<open>Upstream\<close>: \<open>runtime\<close>, \<open>fetcher\<close>, \<open>effect\<close>, \<open>getHeaders\<close> (lines 19 to 23),
    \<open>call_tracker\<close> (\<^verbatim>\<open>fetch\<close> to \<^verbatim>\<open>response.json()\<close>), \<open>upstream_error\<close>, \<open>internal_error\<close>,
    \<open>catching\<close> (the \<^verbatim>\<open>catch\<close> block), \<open>show_nat\<close> (a status in a template literal).
  \<^item> \<open>Proxy_Service\<close>: the promise of \<^verbatim>\<open>spec.md\<close> for a forwarded query: \<open>outcome\<close>,
    \<open>settle\<close>, \<open>render\<close>, \<open>proxy\<close>; \<open>forward\<close> is the body both handlers share, and
    \<open>forward_refines\<close> shows that it implements \<open>proxy\<close>.
  \<^item> \<open>Event_Loop\<close>: a call of a forwarding handler cut at its \<^verbatim>\<open>await\<close>s (lines 34, 37, 45
    and 87, 90, 98): \<open>phase\<close>, \<open>advance\<close>, \<open>caught\<close>; the calls in flight (\<open>loop\<close>, \<open>accept\<close>,
    \<open>resume_task\<close>) with the relation \<open>step\<close> and its closure \<open>reachable\<close>; the schedule
    \<open>drain\<close>. Lemmas: a call advanced alone is the handler; in every reachable state each
    call is at a state of its own history and only its own effects carry its index;
    every step of a call decreases the work left; once no request arrives, every call
    is answered within three steps per call.
  \<^item> \<open>Profile\<close>: \<open>format_profile\<close> (lines 48 to 64), \<open>profile_body\<close>, \<open>get_profile\<close> (lines 26
    to 75), with the reference views \<open>account_view\<close> and \<open>rank_view\<close>. Lemmas: the rank
    for every shape of the segments, every branch of the handler, the requests it
    performs, its status, its body.
  \<^item> \<open>Matches\<close>: \<open>limit_value\<close> (line 81) and \<open>limit_number\<close>, \<open>format_match\<close> (lines 102 to 119),
    \<open>format_matches\<close> (lines 99 to 121), \<open>matches_body\<close>, \<open>get_matches\<close> (lines 78 to 130),
    with the reference view \<open>match_view\<close>. Lemmas: how many entries are returned for a
    decimal, absent, empty and negative limit, that they are a prefix of the upstream
    list in its order, when formatting throws, every branch of the handler.
  \<^item> \<open>Server\<close>: \<open>PORT\<close> (line 9), \<open>health\<close> (lines 133 to 138), \<open>startup\<close> (lines 140 to
    143).
  \<^item> \<open>Data_Model\<close>: the data model of \<^verbatim>\<open>spec.md\<close> (sections 3 and 6) as shapes: the members
    of an upstream payload that the formatters read (\<open>tracker_profile\<close>,
    \<open>tracker_matches\<close>), the bodies of the routes (\<open>profile_answer\<close>, \<open>matches_answer\<close>,
    \<open>health_answer_shape\<close>) and the two error bodies. Lemmas: on a payload of the upstream
    shape the formatters do not throw and the body sent has the answer's shape.
  \<^item> this theory: \<open>request\<close> and \<open>serve\<close>, the three routes and the handler of each;
    \<open>dispatch\<close>, the route a path reaches, in the order of the registrations; \<open>job_of\<close>,
    the call of the event loop that a request to a forwarding route starts; the
    specification \<open>service\<close> with the views \<open>profile_view\<close> and \<open>matches_view\<close>, which say
    for every payload what is answered and which exception is reported; \<open>serve_refines\<close>,
    the program implements the specification; and the properties of every request:
    the outbound request is confined to one path segment under the base URL, no
    status from 201 to 299 leaves the program, the body is always a JSON value and has
    the shape that belongs to its status (\<open>serve_typed\<close>), two requests with the same
    upstream URL are for the same route and identifier, a path with the escaped
    identifier reaches the handler with the identifier, an identifier that came through
    the router can always be escaped, and a call that was answered while others were
    in flight has the answer and the effects of \<open>serve\<close>.

  \<^bold>\<open>Choices and bounds.\<close>
  \<^item> Numbers are rationals, the two infinities and \<^verbatim>\<open>NaN\<close>; there is no negative zero.
    The handlers copy and test numbers and never compute with them; the only
    conversion is \<open>string_to_number\<close>, which rounds as IEEE 754 requires. For a decimal
    literal of more than 20 significant digits ECMA-262 lets an engine round from a
    truncated value; the model rounds the exact value.
  \<^item> The theorems on the limit take a decimal limit below \<open>2\<^sup>5\<^sup>3\<close>, where every integer
    is a double; \<open>format_matches_prefix\<close> covers every limit.
  \<^item> \<^verbatim>\<open>req.query.limit\<close> is absent or a \<open>query_value\<close>: a string, an array (a query that
    gives \<^verbatim>\<open>limit\<close> more than once) or an object (\<^verbatim>\<open>limit[k]=...\<close>), with strings at the
    leaves, which is what the query parsers of Express produce. The parsing of the query
    string itself is not modelled. \<^verbatim>\<open>slice\<close> converts the limit when it is called (line 99);
    the model converts it where the handler reads it (line 81): the conversion of a
    query value has no effect and does not throw, so the order cannot be observed.
  \<^item> A property read sees own properties, array and string indices and \<^verbatim>\<open>length\<close>.
    Members inherited from the built-in prototypes are not modelled, except the three
    array methods the source calls.
  \<^item> The shapes are the types of \<^verbatim>\<open>spec.md\<close>, with the member names the code writes
    (\<^verbatim>\<open>account.name\<close> where the spec's data model has \<^verbatim>\<open>accountName\<close>). A number of a shape is
    a finite number: \<^verbatim>\<open>JSON.stringify\<close> writes \<^verbatim>\<open>null\<close> for the others. A member that the code
    copies without a default (\<^verbatim>\<open>card\<close>, \<^verbatim>\<open>rankImg\<close>, \<^verbatim>\<open>timestamp\<close>) may be missing from the
    answer. The typing theorems assume the upstream payload has its shape; without that
    assumption the answers are described by \<open>service\<close>.
  \<^item> The text of the engine's own exceptions is the field \<open>describe\<close> of the runtime:
    the program copies it into the 500 answer and never inspects it.
  \<^item> Every function of a handler is total; none needs fuel. \<open>encodeURIComponent\<close>
    terminates because each step consumes one or two code units
    (\<open>code_point_at_count\<close>).
  \<^item> The event loop resumes a call only when what it awaits has settled; the model lets
    any pending call take the next step, and lets other calls step between the arrival
    of a request and the first step of its handler, which Express runs at once. The
    model has every interleaving of the program and more, so what holds in every
    reachable state holds in the program. The upstream may answer two calls for the
    same URL differently: the loop takes one \<open>fetcher\<close> per call (\<open>net i\<close> for call \<open>i\<close>).
  \<^item> \<open>drain\<close> takes fuel, the number of steps the loop may take. A call needs at most
    three steps (\<open>remaining\<close>), so \<open>work\<close>, at most three times the number of calls, is
    enough fuel: \<open>drain_answers_all\<close> is stated for every fuel from \<open>work\<close> on.
  \<^item> The health route has no \<^verbatim>\<open>await\<close>: it is answered in the step that receives it and is
    no call of the loop (\<open>job_of\<close> gives \<open>None\<close>).
  \<^item> Routing is Express's, with the defaults of \<^verbatim>\<open>express()\<close>: a registered path is matched
    segment by segment, literal segments up to the case of ASCII letters, \<^verbatim>\<open>:identifier\<close>
    against one segment that is not empty, with one optional \<^verbatim>\<open>/\<close> at the end; the
    parameter is decoded by \<^verbatim>\<open>decodeURIComponent\<close>, and a segment that cannot be decoded is
    answered 400 before any handler runs. Only \<^verbatim>\<open>GET\<close> is modelled. An identifier that came
    through the router is well formed (\<open>dispatch_encodable\<close>); the handlers are modelled
    on every identifier, also those for which \<^verbatim>\<open>encodeURIComponent\<close> throws.

  \<^bold>\<open>Not modelled.\<close> \<^verbatim>\<open>dotenv.config()\<close> (the runtime record is the environment after
  it), \<^verbatim>\<open>cors()\<close> and \<^verbatim>\<open>express.json()\<close> (libraries that the source only installs: they
  add headers and parse bodies that no handler reads), requests with a method other than
  \<^verbatim>\<open>GET\<close>, the pages Express writes for 400 and 404, the parsing of the query string, the
  HTTP framing of an answer and the text of its JSON body (\<open>stringify\<close> gives the value
  that is written, not its characters), and the time an upstream call takes: the
  transport's timeouts are those of \<^verbatim>\<open>node-fetch\<close>.
\<close>

datatype request =
    GetProfile jsstring
  | GetMatches jsstring "query_value option"
  | GetHealth

definition serve :: "runtime \<Rightarrow> fetcher \<Rightarrow> request \<Rightarrow> http_response \<times> effect list" where
  "serve rt fetch req =
     (case req of
        GetProfile identifier \<Rightarrow> get_profile rt fetch identifier
      | GetMatches identifier q \<Rightarrow> get_matches rt fetch identifier q
      | GetHealth \<Rightarrow> (health rt, []))"

definition dispatch :: "jsstring \<Rightarrow> query_value option \<Rightarrow> request routed" where
  "dispatch path limit =
     (case route_params (lit ''/api/profile/:identifier'') path of
        Some params \<Rightarrow>
          (case params of
             Inr [identifier] \<Rightarrow> Routed (GetProfile identifier)
           | _ \<Rightarrow> BadRequest)
      | None \<Rightarrow>
          (case route_params (lit ''/api/matches/:identifier'') path of
             Some params \<Rightarrow>
               (case params of
                  Inr [identifier] \<Rightarrow> Routed (GetMatches identifier limit)
                | _ \<Rightarrow> BadRequest)
           | None \<Rightarrow>
               (case route_params (lit ''/api/health'') path of
                  Some params \<Rightarrow> Routed GetHealth
                | None \<Rightarrow> NotFound)))"

definition job_of :: "request \<Rightarrow> job option" where
  "job_of req =
     (case req of
        GetProfile identifier \<Rightarrow>
          Some \<lparr>job_announce = lit ''Fetching profile: '',
                job_label = lit ''Profile fetch error:'',
                job_url = profile_url,
                job_view = (\<lambda>data. format_profile data identifier),
                job_identifier = identifier\<rparr>
      | GetMatches identifier q \<Rightarrow>
          Some \<lparr>job_announce = lit ''Fetching matches: '',
                job_label = lit ''Matches fetch error:'',
                job_url = matches_url,
                job_view = (\<lambda>data. format_matches data (limit_number q)),
                job_identifier = identifier\<rparr>
      | GetHealth \<Rightarrow> None)"

definition payload_shape :: "request \<Rightarrow> shape" where
  "payload_shape req =
     (case req of
        GetProfile identifier \<Rightarrow> tracker_profile
      | GetMatches identifier q \<Rightarrow> tracker_matches
      | GetHealth \<Rightarrow> Anything)"

definition answer_shape :: "request \<Rightarrow> nat \<Rightarrow> shape" where
  "answer_shape req st =
     status_shape
       (case req of
          GetProfile identifier \<Rightarrow> profile_answer
        | GetMatches identifier q \<Rightarrow> matches_answer
        | GetHealth \<Rightarrow> health_answer_shape) st"

definition read_error :: "jsval \<Rightarrow> string \<Rightarrow> js_error" where
  "read_error v k = (if v = JNull then ReadOfNull (lit k) else ReadOfUndefined (lit k))"

definition profile_view :: "jsval \<Rightarrow> jsstring \<Rightarrow> js_error + jsval" where
  "profile_view data identifier =
     (if nullish data then Inl (read_error data ''data'')
      else case payload_part data ''segments'' (JArr []) of
        JArr segs \<Rightarrow>
          (case find (\<lambda>s. nullish s \<or> competitive s) segs of
             None \<Rightarrow>
               Inr (JObj [(lit ''account'', account_of data identifier), (lit ''rank'', JNull)])
           | Some s \<Rightarrow>
               if nullish s then Inl (read_error s ''type'')
               else Inr (JObj [(lit ''account'', account_of data identifier),
                               (lit ''rank'', rank_view s)]))
      | _ \<Rightarrow> Inl (NotAFunction (lit ''find'')))"

definition matches_view :: "jsval \<Rightarrow> jsnum \<Rightarrow> js_error + jsval" where
  "matches_view data limit =
     (if nullish data then Inl (read_error data ''data'')
      else case upstream_matches data of
        JArr ms \<Rightarrow>
          (let selected = take (relative_index (length ms) (to_integer_or_infinity limit)) ms
           in case find nullish selected of
                None \<Rightarrow> Inr (JObj [(lit ''matches'', JArr (map match_view selected))])
              | Some m \<Rightarrow> Inl (read_error m ''segments''))
      | JStr s \<Rightarrow> Inl (NotAFunction (lit ''map''))
      | _ \<Rightarrow> Inl (NotAFunction (lit ''slice'')))"

definition service :: "runtime \<Rightarrow> fetcher \<Rightarrow> request \<Rightarrow> http_response \<times> effect list" where
  "service rt fetch req =
     (case req of
        GetProfile identifier \<Rightarrow>
          proxy rt fetch (lit ''Fetching profile: '') (lit ''Profile fetch error:'') profile_url
            (\<lambda>data. profile_view data identifier) identifier
      | GetMatches identifier q \<Rightarrow>
          proxy rt fetch (lit ''Fetching matches: '') (lit ''Matches fetch error:'') matches_url
            (\<lambda>data. matches_view data (limit_number q)) identifier
      | GetHealth \<Rightarrow>
          (render rt (Served (JObj [(lit ''status'', JStr (lit ''OK'')),
                                    (lit ''apiKeyConfigured'',
                                       JBool (trn_api_key rt \<noteq> None \<and>
                                              trn_api_key rt \<noteq> Some []))])),
           []))"

fun request_url :: "request \<Rightarrow> (jsstring \<times> jsstring) option" where
  "request_url (GetProfile identifier) = Some (lit ''/profile/riot/'', identifier)"
| "request_url (GetMatches identifier q) = Some (lit ''/matches/riot/'', identifier)"
| "request_url GetHealth = None"

subsection \<open>The formatters against their specification\<close>

lemma read_error_simps [simp]:
  "read_error JNull k = ReadOfNull (lit k)"
  "read_error JUndefined k = ReadOfUndefined (lit k)"
  by (simp_all add: read_error_def)

lemma get_prop_nullish: "nullish v \<Longrightarrow> get_prop v (lit k) = Inl (read_error v k)"
  by (auto simp: nullish_def)

lemma js_find_competitive:
  "js_find is_competitive segs =
     (case find (\<lambda>s. nullish s \<or> competitive s) segs of
        None \<Rightarrow> Inr JUndefined
      | Some s \<Rightarrow> if nullish s then Inl (read_error s ''type'') else Inr s)"
proof (induction segs)
  case Nil
  then show ?case by simp
next
  case (Cons s segs)
  show ?case
  proof (cases "nullish s")
    case True
    then have "is_competitive s = Inl (read_error s ''type'')"
      by (simp add: is_competitive_def get_prop_nullish)
    with True show ?thesis by simp
  next
    case False
    with Cons show ?thesis by simp
  qed
qed

lemma format_profile_view: "format_profile data identifier = profile_view data identifier"
proof (cases "nullish data")
  case True
  then show ?thesis
    by (simp add: format_profile_eq profile_view_def get_prop_nullish)
next
  case False
  have "\<not> nullish (payload_part data ''segments'' (JArr []))"
    by (simp add: payload_part_def)
  with False show ?thesis
    by (cases "payload_part data ''segments'' (JArr [])")
      (auto simp: format_profile_eq profile_view_def get_prop_not_nullish js_find_competitive
        rank_view_def split: option.splits)
qed

lemma js_map_format_match_find:
  "js_map format_match ms =
     (case find nullish ms of
        None \<Rightarrow> Inr (map match_view ms)
      | Some m \<Rightarrow> Inl (read_error m ''segments''))"
proof (induction ms)
  case Nil
  then show ?case by simp
next
  case (Cons m ms)
  show ?case
  proof (cases "nullish m")
    case True
    then have "format_match m = Inl (read_error m ''segments'')"
      by (auto simp: nullish_def format_match_def)
    with True show ?thesis by simp
  next
    case False
    with Cons show ?thesis
      by (simp add: format_match_not_nullish split: option.split)
  qed
qed

lemma format_matches_view: "format_matches data limit = matches_view data limit"
proof (cases "nullish data")
  case True
  then show ?thesis
    by (simp add: format_matches_eq matches_view_def get_prop_nullish)
next
  case False
  have "\<not> nullish (upstream_matches data)"
    by simp
  with False show ?thesis
    by (cases "upstream_matches data")
      (auto simp: format_matches_eq matches_view_def get_prop_not_nullish js_slice_from_zero
        js_map_format_match_find Let_def split: option.splits)
qed

subsection \<open>The program against its specification\<close>

text \<open>
  C1. The program implements the specification of the proxy: for every request, the
  answer and the effects of the handler that \<^verbatim>\<open>src/server.js\<close> registers for the route are
  the answer and the effects of \<open>service\<close>, which decides the outcome from the upstream's
  behaviour, formats a payload with the exception-free views and renders the outcome.
\<close>

theorem serve_refines: "serve rt fetch req = service rt fetch req"
proof (cases req)
  case (GetProfile ident)
  then show ?thesis
    by (simp add: serve_def service_def get_profile_proxy format_profile_view)
next
  case (GetMatches ident q)
  then show ?thesis
    by (simp add: serve_def service_def get_matches_proxy format_matches_view)
next
  case GetHealth
  have "api_key_configured rt \<longleftrightarrow> trn_api_key rt \<noteq> None \<and> trn_api_key rt \<noteq> Some []"
    by (auto simp: api_key_configured_iff)
  with GetHealth show ?thesis
    by (simp add: serve_def service_def health_def render_def)
qed

subsection \<open>Properties of every request\<close>

lemma percent_not_reserved: "\<not> uri_reserved 37"
  by (simp add: uri_reserved_def lit_def)

lemma enc_not_reserved:
  "encodeURIComponent s = Inr r \<Longrightarrow> list_all (\<lambda>c. \<not> uri_reserved c) r"
proof -
  assume "encodeURIComponent s = Inr r"
  then have "\<not> uri_reserved c" if "c \<in> set r" for c
    using enc_safe [of s r c] that percent_not_reserved unreserved_not_reserved [of c] by auto
  then show ?thesis
    by (simp add: list_all_iff)
qed

lemma fetches_serve:
  "fetches (snd (serve rt fetch req)) =
     (case request_url req of
        None \<Rightarrow> []
      | Some (route, identifier) \<Rightarrow>
          (case encodeURIComponent identifier of
             Inl e \<Rightarrow> []
           | Inr encodedId \<Rightarrow> [(TRACKER_API_BASE @ route @ encodedId, getHeaders rt)]))"
  by (cases req)
    (simp_all add: serve_def get_profile_proxy get_matches_proxy fetches_proxy_trace
      profile_url_def matches_url_def split: sum.split)

text \<open>
  C11. Whatever the request is, the program performs at most one outbound request, with
  the headers of \<^verbatim>\<open>getHeaders\<close>, and its URL is the base URL, the route's path and one
  more path segment: the escaped identifier, which contains none of the URI delimiters
  \<^verbatim>\<open>; / ? : @ & = + $ , #\<close>. No identifier can reach another path of the upstream or
  add a query.
\<close>

theorem serve_request_confined:
  assumes "fetches (snd (serve rt fetch req)) \<noteq> []"
  shows "\<exists>route segment.
           fetches (snd (serve rt fetch req)) =
             [(TRACKER_API_BASE @ route @ segment, getHeaders rt)] \<and>
           (route = lit ''/profile/riot/'' \<or> route = lit ''/matches/riot/'') \<and>
           list_all (\<lambda>c. \<not> uri_reserved c) segment"
proof -
  from assms obtain route ident encodedId
    where "request_url req = Some (route, ident)"
      and enc: "encodeURIComponent ident = Inr encodedId"
    by (auto simp: fetches_serve split: option.splits sum.splits)
  moreover from this(1) have "route = lit ''/profile/riot/'' \<or> route = lit ''/matches/riot/''"
    by (cases req) auto
  ultimately show ?thesis
    using enc_not_reserved [OF enc] by (auto simp: fetches_serve)
qed

text \<open>
  C28. No status from 201 to 299 ever leaves the program: an answer is 200, or 500, or
  the status of an upstream answer that was not a success.
\<close>

theorem serve_status: "res_status (fst (serve rt fetch req)) \<notin> {201..299}"
proof -
  have "res_status (render rt (proxy_outcome rt fetch url_of view ident)) \<notin> {201..299}"
    for url_of view ident
    by (cases "proxy_outcome rt fetch url_of view ident")
      (auto simp: res_status_render proxy_outcome_def dest!: settle_upstream_error
        split: sum.splits)
  then show ?thesis
    by (cases req) (simp_all add: serve_def get_profile_proxy get_matches_proxy health_def)
qed

text \<open>
  C29. Whatever the request is and whatever the upstream does, the program answers with
  a body, and the body is a value of the JSON data model: no \<^verbatim>\<open>undefined\<close>, no non-finite
  number, no object with a repeated key. The only assumption is that parsed payloads are
  objects as JavaScript holds them (keys distinct).
\<close>

theorem serve_body_json:
  assumes "\<And>url hs r d. fetch url hs = FetchResolved r \<Longrightarrow> up_json r = Inr d \<Longrightarrow> distinct_keys d"
  shows "\<exists>b. res_body (fst (serve rt fetch req)) = Some b \<and> json_value b"
proof (cases req)
  case (GetProfile ident)
  have "\<exists>b. res_body (fst (get_profile rt fetch ident)) = Some b \<and> json_value b"
    unfolding get_profile_proxy
    by (rule proxy_body_json [OF assms distinct_keys_format_profile])
  with GetProfile show ?thesis
    by (simp add: serve_def)
next
  case (GetMatches ident q)
  have "\<exists>b. res_body (fst (get_matches rt fetch ident q)) = Some b \<and> json_value b"
    unfolding get_matches_proxy
    by (rule proxy_body_json [OF assms distinct_keys_format_matches])
  with GetMatches show ?thesis
    by (simp add: serve_def)
next
  case GetHealth
  then show ?thesis
    by (simp add: serve_def health_def)
qed

subsection \<open>From the path to the handler\<close>

lemma compiled_routes:
  "compile_route (lit ''/api/profile/:identifier'') =
     map Literal [[], lit ''api'', lit ''profile''] @ [Parameter]"
  "compile_route (lit ''/api/matches/:identifier'') =
     map Literal [[], lit ''api'', lit ''matches''] @ [Parameter]"
  "compile_route (lit ''/api/health'') = map Literal [[], lit ''api'', lit ''health'']"
  by (simp_all add: compile_route_def compile_piece_def lit_def)

lemma split_route_path:
  assumes "47 \<notin> set t"
  shows "split_at 47 (lit ''/api/profile/'' @ t) = [[], lit ''api'', lit ''profile''] @ [t]"
    and "split_at 47 (lit ''/api/matches/'' @ t) = [[], lit ''api'', lit ''matches''] @ [t]"
  using assms by (simp_all add: lit_def split_at_none)

lemma route_params_segment:
  assumes "47 \<notin> set t" and "t \<noteq> []"
  shows "route_params (lit ''/api/profile/:identifier'') (lit ''/api/profile/'' @ t) =
           Some (and_then (decodeURIComponent t) (\<lambda>v. Inr [v]))"
    and "route_params (lit ''/api/profile/:identifier'') (lit ''/api/matches/'' @ t) = None"
    and "route_params (lit ''/api/matches/:identifier'') (lit ''/api/matches/'' @ t) =
           Some (and_then (decodeURIComponent t) (\<lambda>v. Inr [v]))"
  unfolding route_params_def compiled_routes split_route_path [OF assms(1)]
  using assms by (simp_all add: decode_all_single ascii_lower_def lit_def)

lemma enc_segment:
  assumes "encodeURIComponent s = Inr t" and "s \<noteq> []"
  shows "47 \<notin> set t" and "t \<noteq> []"
proof -
  from enc_safe [OF assms(1), of 47] show "47 \<notin> set t"
    by (auto simp: unreserved_unat)
  from enc_length [OF assms(1)] assms(2) show "t \<noteq> []"
    by auto
qed

lemma dispatch_segment:
  assumes "encodeURIComponent s = Inr t" and "s \<noteq> []"
  shows "dispatch (lit ''/api/profile/'' @ t) q = Routed (GetProfile s)"
    and "dispatch (lit ''/api/matches/'' @ t) q = Routed (GetMatches s q)"
  using decode_encode [OF assms(1)] enc_segment [OF assms]
  by (simp_all add: dispatch_def route_params_segment)

text \<open>
  C35. A request whose path carries the escaped identifier reaches the handler of its
  route with the identifier itself: Express decodes the segment that the client
  escaped. The handler escapes it again, so the segment travels unchanged to the
  upstream URL.
\<close>

theorem dispatch_escaped:
  assumes "encodeURIComponent s = Inr t" and "s \<noteq> []"
  shows "dispatch (lit ''/api/profile/'' @ t) q = Routed (GetProfile s) \<and>
         dispatch (lit ''/api/matches/'' @ t) q = Routed (GetMatches s q)"
  using assms by (simp add: dispatch_segment)

lemma dispatch_Routed:
  assumes "dispatch path q = Routed req"
  shows "req = GetHealth \<or>
         (\<exists>registered route identifier.
            route_params registered path = Some (Inr [identifier]) \<and>
            request_url req = Some (route, identifier))"
  using assms
  by (auto simp: dispatch_def split: option.splits sum.splits list.splits)

text \<open>
  C36. Over HTTP the identifier can always be escaped: a path without surrogate code
  units (the request line is a sequence of octets) yields a parameter that is well
  formed and not empty, so \<^verbatim>\<open>encodeURIComponent\<close> does not throw in a handler that Express
  called.
\<close>

theorem dispatch_encodable:
  assumes "dispatch path q = Routed req"
    and "\<forall>c \<in> set path. \<not> is_lead c \<and> \<not> is_trail c"
  shows "req = GetHealth \<or>
         (\<exists>route identifier encodedId.
            request_url req = Some (route, identifier) \<and>
            encodeURIComponent identifier = Inr encodedId)"
proof -
  from dispatch_Routed [OF assms(1)] show ?thesis
  proof
    assume "req = GetHealth"
    then show ?thesis ..
  next
    assume "\<exists>registered route identifier.
        route_params registered path = Some (Inr [identifier]) \<and>
        request_url req = Some (route, identifier)"
    then obtain registered route ident
      where params: "route_params registered path = Some (Inr [ident])"
        and url: "request_url req = Some (route, ident)"
      by blast
    from route_params_well_formed [OF params assms(2), of ident] have "well_formed ident"
      by simp
    from enc_well_formed [OF this] url show ?thesis
      by blast
  qed
qed

subsection \<open>One upstream URL per player and route\<close>

lemma request_url_route:
  "request_url req = Some (route, a) \<Longrightarrow> length route = 14"
  by (cases req) auto

text \<open>
  C21. Two requests that reach the upstream with the same URL are requests to the same
  route for the same identifier: the escaping is injective, so no two players share an
  upstream URL.
\<close>

theorem serve_distinguishes:
  assumes "fetches (snd (serve rt fetch req)) = fetches (snd (serve rt fetch req'))"
    and "fetches (snd (serve rt fetch req)) \<noteq> []"
  shows "request_url req = request_url req'"
proof -
  from assms(2) obtain route a ea
    where req: "request_url req = Some (route, a)" "encodeURIComponent a = Inr ea"
    by (auto simp: fetches_serve split: option.splits sum.splits)
  with assms obtain route' b eb
    where req': "request_url req' = Some (route', b)" "encodeURIComponent b = Inr eb"
    by (auto simp: fetches_serve split: option.splits sum.splits)
  from assms(1) req req' have "route @ ea = route' @ eb"
    by (simp add: fetches_serve)
  with request_url_route [OF req(1)] request_url_route [OF req'(1)]
  have "route = route'" "ea = eb"
    by simp_all
  with req req' enc_inj [of a ea b] show ?thesis
    by simp
qed

subsection \<open>The shape of every answer\<close>

text \<open>
  C13. The program is typed against the data model: when every payload the upstream
  returns has the shape the route expects, the body of the answer has the shape that
  belongs to its status, whatever the request is and whatever else the upstream does:
  the route's answer under 200, the upstream error or the internal error under 500, the
  upstream error under any other status.
\<close>

theorem serve_typed:
  assumes "\<And>url hs r d. fetch url hs = FetchResolved r \<Longrightarrow> up_json r = Inr d \<Longrightarrow>
             distinct_keys d \<and> conforms (payload_shape req) d"
  shows "\<exists>b. res_body (fst (serve rt fetch req)) = Some b \<and>
           conforms (answer_shape req (res_status (fst (serve rt fetch req)))) b"
proof (cases req)
  case (GetProfile ident)
  with assms have "\<exists>b. res_body (fst (get_profile rt fetch ident)) = Some b \<and>
      conforms (status_shape profile_answer (res_status (fst (get_profile rt fetch ident)))) b"
    unfolding get_profile_proxy
    by (intro proxy_typed_status [where p = tracker_profile] format_profile_conforms
        distinct_keys_format_profile) (simp_all add: payload_shape_def)
  with GetProfile show ?thesis
    by (simp add: serve_def answer_shape_def)
next
  case (GetMatches ident q)
  with assms have "\<exists>b. res_body (fst (get_matches rt fetch ident q)) = Some b \<and>
      conforms (status_shape matches_answer (res_status (fst (get_matches rt fetch ident q)))) b"
    unfolding get_matches_proxy
    by (intro proxy_typed_status [where p = tracker_matches] format_matches_conforms
        distinct_keys_format_matches) (simp_all add: payload_shape_def)
  with GetMatches show ?thesis
    by (simp add: serve_def answer_shape_def)
next
  case GetHealth
  with health_typed [of rt] show ?thesis
    by (simp add: serve_def answer_shape_def status_shape_def health_def)
qed

subsection \<open>Requests in flight\<close>

lemma handler_job_of: "job_of req = Some j \<Longrightarrow> handler rt fetch j = serve rt fetch req"
  by (cases req)
    (auto simp: job_of_def handler_def serve_def get_profile_def get_matches_def
      profile_body_forward matches_body_forward)

text \<open>
  C12. Requests do not interfere: in every state the event loop can reach, whatever
  requests arrived and in whatever order their steps ran, a request that is answered has
  exactly the answer the program gives to it alone, and the effects logged for it are
  the effects of its handler, in their order.
\<close>

theorem concurrent_answer:
  assumes "reachable rt net s" and "i < length (tasks s)"
    and "job_of req = Some j" and "tasks s ! i = (j, Answered response)"
  shows "(response, effects_of i (log s)) = serve rt (net i) req"
  using answered_handler [OF assms(1,2,4)] handler_job_of [OF assms(3)] by simp

subsection \<open>Closed instances\<close>

definition stray_call :: loop where
  "stray_call =
     resume_task demo_runtime (\<lambda>i. network_down) 0
       (accept (the (job_of (GetMatches (lit ''Player#NA1'') None)))
          (accept (the (job_of (GetProfile [0x41, 0xD83D]))) \<lparr>tasks = [], log = []\<rparr>))"

lemma reachable_stray_call: "reachable demo_runtime (\<lambda>i. network_down) stray_call"
  unfolding stray_call_def
  by (intro reachable.after [OF _ step.resume] reachable.after [OF _ step.arrive] reachable.idle)
    simp_all

theorem concurrent_answer_witness:
  "(internal_error demo_runtime URIMalformed, effects_of 0 (log stray_call)) =
   serve demo_runtime network_down (GetProfile [0x41, 0xD83D])"
  using concurrent_answer [OF reachable_stray_call, of 0 "GetProfile [0x41, 0xD83D]"
      "the (job_of (GetProfile [0x41, 0xD83D]))" "internal_error demo_runtime URIMalformed"]
  by (simp add: stray_call_def tasks_resume_task job_of_def enc_lone_lead caught_def)

theorem dispatch_escaped_witness:
  "dispatch (lit ''/api/profile/Player%23NA1'') None = Routed (GetProfile (lit ''Player#NA1'')) \<and>
   dispatch (lit ''/api/matches/Player%23NA1'') None =
     Routed (GetMatches (lit ''Player#NA1'') None)"
  using dispatch_escaped [OF enc_riot_id, of None]
  by (simp add: lit_def)

theorem dispatch_encodable_witness:
  "GetProfile (lit ''Player#NA1'') = GetHealth \<or>
   (\<exists>route identifier encodedId.
      request_url (GetProfile (lit ''Player#NA1'')) = Some (route, identifier) \<and>
      encodeURIComponent identifier = Inr encodedId)"
proof (rule dispatch_encodable)
  from dispatch_segment(1) [OF enc_riot_id, of None]
  show "dispatch (lit ''/api/profile/Player%23NA1'') None = Routed (GetProfile (lit ''Player#NA1''))"
    by (simp add: lit_def)
  show "\<forall>c \<in> set (lit ''/api/profile/Player%23NA1''). \<not> is_lead c \<and> \<not> is_trail c"
    by (simp add: lit_def is_lead_def is_trail_def)
qed

theorem serve_distinguishes_witness:
  "request_url (GetMatches (lit ''Player#NA1'') None) =
   request_url (GetMatches (lit ''Player#NA1'') (Some (QStr (lit ''5''))))"
  using serve_distinguishes [of demo_runtime network_down "GetMatches (lit ''Player#NA1'') None"
      "GetMatches (lit ''Player#NA1'') (Some (QStr (lit ''5'')))"]
  by (simp add: fetches_serve enc_riot_id)

theorem serve_typed_witness:
  "\<exists>b. res_body (fst (serve demo_runtime (reply_with 200 [] three_matches)
          (GetMatches (lit ''Player#NA1'') (Some (QStr (lit ''2'')))))) = Some b \<and>
     conforms (answer_shape (GetMatches (lit ''Player#NA1'') (Some (QStr (lit ''2''))))
       (res_status (fst (serve demo_runtime (reply_with 200 [] three_matches)
          (GetMatches (lit ''Player#NA1'') (Some (QStr (lit ''2'')))))))) b"
proof (rule serve_typed)
  fix url hs d and r :: upstream_response
  assume "reply_with 200 [] three_matches url hs = FetchResolved r" and "up_json r = Inr d"
  then have "d = three_matches"
    by (auto simp: reply_with_def)
  with conforms_three_matches
  show "distinct_keys d \<and>
      conforms (payload_shape (GetMatches (lit ''Player#NA1'') (Some (QStr (lit ''2''))))) d"
    by (simp add: payload_shape_def three_matches_def played_def)
qed

theorem serve_request_confined_witness:
  "\<exists>route segment.
     fetches (snd (serve demo_runtime network_down (GetMatches (lit ''Player#NA1'') None))) =
       [(TRACKER_API_BASE @ route @ segment, getHeaders demo_runtime)] \<and>
     (route = lit ''/profile/riot/'' \<or> route = lit ''/matches/riot/'') \<and>
     list_all (\<lambda>c. \<not> uri_reserved c) segment"
  using serve_request_confined [of demo_runtime network_down
      "GetMatches (lit ''Player#NA1'') None"]
  by (simp add: fetches_serve enc_riot_id)

theorem serve_body_json_witness:
  "\<exists>b. res_body (fst (serve demo_runtime (reply_with 200 [] three_matches)
          (GetMatches (lit ''Player#NA1'') (Some (QStr (lit ''2'')))))) = Some b \<and> json_value b"
proof (rule serve_body_json)
  fix url hs d and r :: upstream_response
  assume "reply_with 200 [] three_matches url hs = FetchResolved r" and "up_json r = Inr d"
  then have "d = three_matches"
    by (auto simp: reply_with_def)
  then show "distinct_keys d"
    by (simp add: three_matches_def played_def)
qed

end
